(* ===== verification/Prelude.thy ===== *)
theory Prelude
imports
  Main
  "HOL-Library.List_Lexorder"
  "HOL-Library.Char_ord"
  "HOL-Library.Monad_Syntax"
  "HOL-Library.Sublist"
begin

text \<open>
  Shared vocabulary of the development: the rule collections the component theories fill, and
  the operations of Rust's standard library on slices and strings that the sources call.

  A Rust \<open>String\<close> is modelled by its UTF-8 bytes, a HOL \<open>string\<close>; comparison and
  sorting are bytewise in Rust, as they are here (\<open>List_Lexorder\<close> with \<open>Char_ord\<close>).
  Machine indices (\<open>usize\<close>) that only ever index a list in memory are natural numbers.
  An expression that can panic in Rust has an \<open>option\<close> type here, with \<open>None\<close> for the panic.
\<close>

section \<open>Rule collections\<close>

text \<open>
  \<open>panic_free\<close>: an operation returns (is \<open>Some\<close>) under its well-formedness condition;
  \<open>keeps\<close>: an operation preserves an invariant; \<open>doc_simps\<close>: what an operation
  leaves of the document.
\<close>

named_theorems panic_free
named_theorems keeps
named_theorems doc_simps

section \<open>Slices\<close>

text \<open>\<open>slice::get\<close>: a checked read.\<close>

definition nth_opt :: "'a list \<Rightarrow> nat \<Rightarrow> 'a option" where
  "nth_opt xs i = (if i < length xs then Some (xs ! i) else None)"

lemma nth_opt_Nil [simp]: "nth_opt [] i = None"
  by (simp add: nth_opt_def)

lemma nth_opt_Cons [simp]:
  "nth_opt (x # xs) i = (case i of 0 \<Rightarrow> Some x | Suc j \<Rightarrow> nth_opt xs j)"
  by (auto simp: nth_opt_def split: nat.split)

lemma nth_opt_SomeD: "nth_opt xs i = Some x \<Longrightarrow> i < length xs \<and> x = xs ! i \<and> x \<in> set xs"
  by (auto simp: nth_opt_def split: if_splits)

lemma nth_opt_None_iff [simp]: "nth_opt xs i = None \<longleftrightarrow> length xs \<le> i"
  by (simp add: nth_opt_def)

lemma nth_opt_ge [simp]: "length xs \<le> i \<Longrightarrow> nth_opt xs i = None"
  by (simp add: nth_opt_def)

lemma nth_opt_Some [simp]: "i < length xs \<Longrightarrow> nth_opt xs i = Some (xs ! i)"
  by (simp add: nth_opt_def)

text \<open>\<open>Iterator::position\<close>: the index of the first match.\<close>

fun position :: "('a \<Rightarrow> bool) \<Rightarrow> 'a list \<Rightarrow> nat option" where
  "position P [] = None"
| "position P (x # xs) = (if P x then Some 0 else map_option Suc (position P xs))"

lemma position_SomeD: "position P xs = Some i \<Longrightarrow> i < length xs \<and> P (xs ! i)"
  by (induction xs arbitrary: i) (auto split: if_splits)

lemma position_None_iff: "position P xs = None \<longleftrightarrow> (\<forall>x \<in> set xs. \<not> P x)"
  by (induction xs) auto

lemma position_nth_distinct:
  "distinct xs \<Longrightarrow> i < length xs \<Longrightarrow> position (\<lambda>x. x = xs ! i) xs = Some i"
proof (induction xs arbitrary: i)
  case Nil
  then show ?case by simp
next
  case (Cons x xs)
  then show ?case by (cases i) auto
qed

text \<open>\<open>Vec::remove\<close> at an index in range: the tail moves up by one.\<close>

definition remove_nth :: "nat \<Rightarrow> 'a list \<Rightarrow> 'a list" where
  "remove_nth i xs = take i xs @ drop (Suc i) xs"

lemma length_remove_nth: "i < length xs \<Longrightarrow> length (remove_nth i xs) = length xs - 1"
  by (simp add: remove_nth_def)

text \<open>A fold whose step can panic.\<close>

fun fold_opt :: "('a \<Rightarrow> 'b \<Rightarrow> 'b option) \<Rightarrow> 'a list \<Rightarrow> 'b \<Rightarrow> 'b option" where
  "fold_opt f [] b = Some b"
| "fold_opt f (x # xs) b = Option.bind (f x b) (fold_opt f xs)"

fun map_opt :: "('a \<Rightarrow> 'b option) \<Rightarrow> 'a list \<Rightarrow> 'b list option" where
  "map_opt f [] = Some []"
| "map_opt f (x # xs) =
     Option.bind (f x) (\<lambda>y. Option.bind (map_opt f xs) (\<lambda>ys. Some (y # ys)))"

lemma map_opt_total:
  "(\<And>x. x \<in> set xs \<Longrightarrow> \<exists>y. f x = Some y) \<Longrightarrow> \<exists>ys. map_opt f xs = Some ys"
proof (induction xs)
  case Nil
  then show ?case by simp
next
  case (Cons x xs)
  then obtain y ys where "f x = Some y" and "map_opt f xs = Some ys" by force
  then show ?case by simp
qed

lemma map_opt_SomeD: "map_opt f xs = Some ys \<Longrightarrow> list_all2 (\<lambda>x y. f x = Some y) xs ys"
  by (induction xs arbitrary: ys) (auto simp: bind_eq_Some_conv)

lemma map_opt_length: "map_opt f xs = Some ys \<Longrightarrow> length ys = length xs"
  by (drule map_opt_SomeD) (simp add: list_all2_lengthD)

lemma fold_opt_total:
  "(\<And>x b. x \<in> set xs \<Longrightarrow> \<exists>b'. f x b = Some b') \<Longrightarrow> \<exists>b'. fold_opt f xs b = Some b'"
proof (induction xs arbitrary: b)
  case Nil
  then show ?case by simp
next
  case (Cons x xs)
  then obtain b' where "f x b = Some b'" by force
  with Cons show ?case by simp
qed

section \<open>Strings\<close>

text \<open>
  A literal that contains backslashes (a regular expression, a Windows path): HOL string
  literals have none, so they are written with a tilde in their place.
\<close>

definition raw :: "string \<Rightarrow> string" where
  "raw = map (\<lambda>c. if c = CHR ''~'' then CHR 0x5C else c)"

text \<open>\<open>str::split\<close> on an ASCII separator: always at least one piece.\<close>

fun split_on :: "char \<Rightarrow> string \<Rightarrow> string list" where
  "split_on c [] = [[]]"
| "split_on c (x # xs) =
     (if x = c then [] # split_on c xs
      else (case split_on c xs of [] \<Rightarrow> [[x]] | p # ps \<Rightarrow> (x # p) # ps))"

text \<open>\<open>str::split_once\<close>.\<close>

fun split_once :: "char \<Rightarrow> string \<Rightarrow> (string \<times> string) option" where
  "split_once c [] = None"
| "split_once c (x # xs) =
     (if x = c then Some ([], xs)
      else map_option (\<lambda>(a, b). (x # a, b)) (split_once c xs))"

lemma split_on_not_Nil [simp]: "split_on c s \<noteq> []"
  by (induction c s rule: split_on.induct) (auto split: list.splits)

lemma split_once_shorter: "split_once c s = Some (a, b) \<Longrightarrow> length b < length s"
  by (induction c s arbitrary: a b rule: split_once.induct)
    (fastforce split: if_splits)+

lemma split_once_None_iff: "split_once c s = None \<longleftrightarrow> c \<notin> set s"
  by (induction c s rule: split_once.induct) auto

lemma split_on_split_once:
  "split_on c s = (case split_once c s of None \<Rightarrow> [s] | Some (a, b) \<Rightarrow> a # split_on c b)"
  by (induction c s rule: split_on.induct) (auto split: option.splits list.splits)

lemma split_on_no_sep: "c \<notin> set s \<Longrightarrow> split_on c s = [s]"
  by (induction c s rule: split_on.induct) auto

lemma split_on_append: "c \<notin> set s \<Longrightarrow> split_on c (s @ c # t) = s # split_on c t"
  by (induction s) auto

lemma split_on_pieces: "p \<in> set (split_on c s) \<Longrightarrow> c \<notin> set p"
  by (induction c s arbitrary: p rule: split_on.induct) (auto split: if_splits list.splits)

text \<open>\<open>slice::join\<close>.\<close>

fun join :: "string \<Rightarrow> string list \<Rightarrow> string" where
  "join sep [] = []"
| "join sep [x] = x"
| "join sep (x # y # ys) = x @ sep @ join sep (y # ys)"

lemma join_Cons: "ys \<noteq> [] \<Longrightarrow> join sep (x # ys) = x @ sep @ join sep ys"
  by (cases ys) auto

lemma join_prefix_head: "join sep ((c # p) # ps) = c # join sep (p # ps)"
  by (cases ps) auto

lemma join_split_on: "join [c] (split_on c s) = s"
proof (induction s)
  case Nil
  then show ?case by simp
next
  case (Cons x xs)
  obtain p ps where eq: "split_on c xs = p # ps"
    by (cases "split_on c xs") auto
  with Cons show ?case
    by (auto simp: join_prefix_head)
qed

lemma split_on_inj: "split_on c s = split_on c t \<Longrightarrow> s = t"
  by (metis join_split_on)

text \<open>\<open>str::contains\<close> on a string pattern.\<close>

fun str_contains :: "string \<Rightarrow> string \<Rightarrow> bool" where
  "str_contains p [] = (p = [])"
| "str_contains p (c # cs) = (prefix p (c # cs) \<or> str_contains p cs)"

lemma str_contains_sublist: "str_contains p s \<longleftrightarrow> sublist p s"
  by (induction p s rule: str_contains.induct) (auto simp: sublist_Cons_right)

section \<open>Trimming\<close>

text \<open>
  \<open>str::trim\<close> removes the characters with Unicode's \<open>White_Space\<close> property at both
  ends. Each is listed here by its UTF-8 bytes: U+0009 to U+000D, U+0020, U+0085, U+00A0,
  U+1680, U+2000 to U+200A, U+2028, U+2029, U+202F, U+205F and U+3000.
\<close>

definition white_space :: "string list" where
  "white_space =
     map (\<lambda>c. [c]) [CHR 0x20, CHR 0x09, CHR 0x0A, CHR 0x0B, CHR 0x0C, CHR 0x0D] @
     map (\<lambda>c. [CHR 0xC2, c]) [CHR 0x85, CHR 0xA0] @
     [[CHR 0xE1, CHR 0x9A, CHR 0x80]] @
     map (\<lambda>c. [CHR 0xE2, CHR 0x80, c])
       [CHR 0x80, CHR 0x81, CHR 0x82, CHR 0x83, CHR 0x84, CHR 0x85, CHR 0x86, CHR 0x87,
        CHR 0x88, CHR 0x89, CHR 0x8A, CHR 0xA8, CHR 0xA9, CHR 0xAF] @
     [[CHR 0xE2, CHR 0x81, CHR 0x9F], [CHR 0xE3, CHR 0x80, CHR 0x80]]"

definition front :: "string list \<Rightarrow> string \<Rightarrow> string option" where
  "front ws s = find (\<lambda>w. w \<noteq> [] \<and> prefix w s) ws"

lemma front_SomeD: "front ws s = Some w \<Longrightarrow> w \<noteq> [] \<and> prefix w s \<and> w \<in> set ws"
  by (auto simp: front_def find_Some_iff)

lemma front_shorter [termination_simp]:
  "front ws s = Some w \<Longrightarrow> length s - length w < length s"
  by (drule front_SomeD) (auto dest: prefix_length_le simp: length_greater_0_conv [symmetric]
      simp del: length_greater_0_conv)

fun strip_front :: "string list \<Rightarrow> string \<Rightarrow> string" where
  "strip_front ws s =
     (case front ws s of None \<Rightarrow> s | Some w \<Rightarrow> strip_front ws (drop (length w) s))"

declare strip_front.simps [simp del]

definition strip_back :: "string list \<Rightarrow> string \<Rightarrow> string" where
  "strip_back ws s = rev (strip_front (map rev ws) (rev s))"

definition trim :: "string \<Rightarrow> string" where
  "trim s = strip_back white_space (strip_front white_space s)"

lemma strip_front_None: "front ws (strip_front ws s) = None"
proof (induction ws s rule: strip_front.induct)
  case (1 ws s)
  then show ?case
    by (cases "front ws s") (simp_all add: strip_front.simps [of ws s])
qed

lemma strip_front_id: "front ws s = None \<Longrightarrow> strip_front ws s = s"
  by (simp add: strip_front.simps)

lemma strip_front_suffix: "suffix (strip_front ws s) s"
proof (induction ws s rule: strip_front.induct)
  case (1 ws s)
  show ?case
  proof (cases "front ws s")
    case None
    then show ?thesis by (simp add: strip_front_id)
  next
    case (Some w)
    with 1 have "suffix (strip_front ws (drop (length w) s)) (drop (length w) s)" by simp
    then have "suffix (strip_front ws (drop (length w) s)) s"
      using suffix_drop suffix_order.trans by blast
    with Some show ?thesis by (simp add: strip_front.simps [of ws s])
  qed
qed

lemma strip_back_prefix: "prefix (strip_back ws s) s"
  using strip_front_suffix [of "map rev ws" "rev s"]
  by (simp add: strip_back_def suffix_to_prefix)

lemma front_prefix_None: "front ws s = None \<Longrightarrow> prefix t s \<Longrightarrow> front ws t = None"
  by (auto simp: front_def find_None_iff dest: prefix_order.trans)

text \<open>A string neither end of which is white space: what \<open>trim\<close> returns, and leaves alone.\<close>

definition trimmed :: "string \<Rightarrow> bool" where
  "trimmed s \<longleftrightarrow> front white_space s = None \<and> front (map rev white_space) (rev s) = None"

lemma trimmed_trim [simp]: "trimmed (trim s)"
  by (auto simp: trimmed_def trim_def strip_back_def strip_front_None
      intro: front_prefix_None [OF strip_front_None strip_back_prefix [unfolded strip_back_def]])

lemma trim_trimmed: "trimmed s \<Longrightarrow> trim s = s"
  by (simp add: trimmed_def trim_def strip_back_def strip_front_id)

lemma trim_trim [simp]: "trim (trim s) = trim s"
  by (simp add: trim_trimmed)

lemma front_blank: "front white_space (CHR 0x20 # s) = Some [CHR 0x20]"
  by (simp add: front_def white_space_def)

lemma trim_blank: "trim (CHR 0x20 # s) = trim s"
  by (simp add: trim_def strip_front.simps [of white_space "CHR 0x20 # s"] front_blank)

lemma set_trim: "set (trim s) \<subseteq> set s"
  using strip_front_suffix [of white_space s]
    strip_back_prefix [of white_space "strip_front white_space s"]
  by (auto simp: trim_def dest: set_mono_prefix set_mono_suffix)

lemma trim_Nil [simp]: "trim [] = []"
  using set_trim [of "[]"] by simp

end
