(* ===== verification/Json.thy ===== *)
theory Json
imports Prelude "HOL-Library.AList" "HOL-Library.Multiset" "HOL-Library.Word"
begin

text \<open>
  The values the configuration editor works on: \<open>serde_json::Value\<close> with its
  \<open>Map<String, Value>\<close>. The crate is not part of this repository; what is used of it is
  its data and its documented behaviour. The workspace enables the feature
  \<open>preserve_order\<close> (\<open>Cargo.toml\<close>), under which a \<open>Map\<close> keeps its entries in insertion
  order, \<open>insert\<close> of a present key replaces the value in place, and \<open>remove\<close> puts the last
  entry in the place of the removed one. What the components rely on is stated once, as the
  locale \<open>ordered_map\<close>, and the editor's lemmas about key lists are proved from its laws.
\<close>

section \<open>Values\<close>

text \<open>A number is one of the three representations \<open>Number\<close> documents; no code here reads it.\<close>

datatype number = PosInt "64 word" | NegInt "64 word" | Float "64 word"

datatype json =
    JNull
  | JBool bool
  | JNumber number
  | JString string
  | JArray "json list"
  | JObject "(string \<times> json) list"

type_synonym json_map = "(string \<times> json) list"

fun as_object :: "json \<Rightarrow> json_map option" where
  "as_object (JObject m) = Some m"
| "as_object _ = None"

fun as_array :: "json \<Rightarrow> json list option" where
  "as_array (JArray a) = Some a"
| "as_array _ = None"

fun as_str :: "json \<Rightarrow> string option" where
  "as_str (JString s) = Some s"
| "as_str _ = None"

fun as_bool :: "json \<Rightarrow> bool option" where
  "as_bool (JBool b) = Some b"
| "as_bool _ = None"

section \<open>Ordered maps\<close>

definition map_get :: "('k \<times> 'v) list \<Rightarrow> 'k \<Rightarrow> 'v option" where
  "map_get m k = map_of m k"

definition map_insert :: "('k \<times> 'v) list \<Rightarrow> 'k \<Rightarrow> 'v \<Rightarrow> ('k \<times> 'v) list" where
  "map_insert m k v = AList.update k v m"

definition map_remove :: "('k \<times> 'v) list \<Rightarrow> 'k \<Rightarrow> ('k \<times> 'v) list" where
  "map_remove m k =
     (case position (\<lambda>p. fst p = k) m of
        None \<Rightarrow> m
      | Some i \<Rightarrow> butlast (m[i := last m]))"

definition map_keys :: "('k \<times> 'v) list \<Rightarrow> 'k list" where
  "map_keys m = map fst m"

definition contains_key :: "('k \<times> 'v) list \<Rightarrow> 'k \<Rightarrow> bool" where
  "contains_key m k \<longleftrightarrow> map_get m k \<noteq> None"

text \<open>\<open>Iterator::collect\<close> into a map inserts the pairs one after the other.\<close>

definition map_collect :: "('k \<times> 'v) list \<Rightarrow> ('k \<times> 'v) list" where
  "map_collect ps = fold (\<lambda>(k, v) m. map_insert m k v) ps []"

text \<open>\<open>Value::get\<close> with a string index.\<close>

definition json_get :: "json \<Rightarrow> string \<Rightarrow> json option" where
  "json_get v k = Option.bind (as_object v) (\<lambda>m. map_get m k)"

definition map_ok :: "('k \<times> 'v) list \<Rightarrow> bool" where
  "map_ok m \<longleftrightarrow> distinct (map_keys m)"

lemma map_get_map_of: "map_get m = map_of m"
  by (intro ext) (simp add: map_get_def)

subsection \<open>Removal\<close>

lemma position_split:
  "k \<notin> fst ` set xs \<Longrightarrow> position (\<lambda>p. fst p = k) (xs @ (k, v) # ys) = Some (length xs)"
  by (induction xs) auto

lemma map_remove_absent: "k \<notin> fst ` set m \<Longrightarrow> map_remove m k = m"
  by (auto simp: map_remove_def position_None_iff split: option.split dest!: position_SomeD)

lemma map_remove_split:
  assumes "k \<notin> fst ` set xs"
  shows "map_remove (xs @ (k, v) # ys) k = xs @ (if ys = [] then [] else last ys # butlast ys)"
  using assms by (auto simp: map_remove_def position_split butlast_append)

lemma mset_rotate: "mset (if ys = [] then [] else last ys # butlast ys) = mset ys"
  by (cases ys rule: rev_cases) auto

text \<open>A map either lacks a key or splits at its entry; removal keeps the other entries.\<close>

lemma map_remove_cases:
  assumes "map_ok m"
  obtains (absent) "k \<notin> fst ` set m" "map_remove m k = m"
    | (present) xs v ys where "m = xs @ (k, v) # ys" "k \<notin> fst ` set (xs @ ys)"
        "mset (map_remove m k) = mset (xs @ ys)"
proof (cases "k \<in> fst ` set m")
  case False
  show ?thesis by (rule absent [OF False map_remove_absent [OF False]])
next
  case True
  then obtain v where "(k, v) \<in> set m" by force
  then obtain xs ys where m: "m = xs @ (k, v) # ys" by (meson split_list)
  with assms have k: "k \<notin> fst ` set (xs @ ys)"
    by (auto simp: map_ok_def map_keys_def)
  then have kx: "k \<notin> fst ` set xs" by auto
  have "mset (map_remove m k) = mset (xs @ ys)"
    by (simp only: m map_remove_split [OF kx] mset_append mset_rotate)
  with m k show ?thesis by (rule present)
qed

lemma map_ok_map_remove:
  assumes "map_ok m"
  shows "map_ok (map_remove m k)"
  using assms
proof (cases rule: map_remove_cases [where k = k])
  case absent
  with assms show ?thesis by simp
next
  case (present xs v ys)
  with assms have "distinct (map fst (xs @ ys))"
    by (auto simp: map_ok_def map_keys_def)
  moreover have "mset (map fst (map_remove m k)) = mset (map fst (xs @ ys))"
    using present by (metis mset_map)
  ultimately show ?thesis
    by (metis map_ok_def map_keys_def mset_eq_imp_distinct_iff)
qed

lemma map_get_Some_iff: "map_ok m \<Longrightarrow> map_get m k = Some v \<longleftrightarrow> (k, v) \<in> set m"
  by (simp add: map_get_def map_ok_def map_keys_def)

lemma map_get_remove:
  assumes ok: "map_ok m"
  shows "map_get (map_remove m k) = (map_get m)(k := None)"
  using ok
proof (cases rule: map_remove_cases [where k = k])
  case absent
  then show ?thesis by (auto simp: map_get_def map_of_eq_None_iff)
next
  case (present xs v ys)
  have "set (map_remove m k) = set (xs @ ys)"
    using present(3) by (metis set_mset_mset)
  with present have "(j, w) \<in> set (map_remove m k) \<longleftrightarrow> (j, w) \<in> set m \<and> j \<noteq> k" for j w
    by force
  then have "map_get (map_remove m k) j = Some w \<longleftrightarrow> ((map_get m)(k := None)) j = Some w" for j w
    using ok by (auto simp: map_get_Some_iff map_ok_map_remove)
  then show ?thesis by (intro ext) (metis not_None_eq)
qed

lemma map_keys_remove: "map_ok m \<Longrightarrow> set (map_keys (map_remove m k)) = set (map_keys m) - {k}"
proof -
  assume ok: "map_ok m"
  have dom: "set (map_keys m') = dom (map_get m')" for m' :: "('a \<times> 'b) list"
    by (simp add: map_keys_def map_get_map_of dom_map_of_conv_image_fst)
  show ?thesis by (simp add: dom map_get_remove [OF ok])
qed

subsection \<open>Insertion\<close>

lemma map_get_insert: "map_get (map_insert m k v) = (map_get m)(k \<mapsto> v)"
  by (intro ext) (simp add: map_get_def map_insert_def update_conv')

lemma map_keys_insert:
  "map_keys (map_insert m k v) =
     (if k \<in> set (map_keys m) then map_keys m else map_keys m @ [k])"
  by (simp add: map_keys_def map_insert_def update_keys)

lemma map_ok_insert: "map_ok m \<Longrightarrow> map_ok (map_insert m k v)"
  by (simp add: map_ok_def map_keys_insert)

lemma map_ok_Nil [simp]: "map_ok []"
  by (simp add: map_ok_def map_keys_def)

lemma map_insert_append: "k \<notin> set (map_keys m) \<Longrightarrow> map_insert m k v = m @ [(k, v)]"
  by (simp add: map_insert_def map_keys_def) (induction m, auto)

lemma map_collect_distinct: "map_ok ps \<Longrightarrow> map_collect ps = ps"
proof -
  have "map_ok (m @ ps) \<Longrightarrow> fold (\<lambda>(k, v) m. map_insert m k v) ps m = m @ ps" for m
  proof (induction ps arbitrary: m)
    case Nil
    then show ?case by simp
  next
    case (Cons p ps)
    obtain k v where p: "p = (k, v)" by (cases p)
    with Cons.prems have "k \<notin> set (map_keys m)"
      by (auto simp: map_ok_def map_keys_def)
    with Cons p show ?case by (simp add: map_insert_append)
  qed
  from this [of "[]"] show "map_ok ps \<Longrightarrow> ?thesis" by (simp add: map_collect_def)
qed

section \<open>The contract of an ordered map\<close>

text \<open>
  What the editor relies on when it stores components under their ids: reads after writes and
  removals, and a key list without duplicates that lists exactly the present keys. The lemmas
  of the locale are about that key list once sorted, the list the user selects from.
\<close>

locale ordered_map =
  fixes empty :: 'm
    and get :: "'m \<Rightarrow> 'k::linorder \<Rightarrow> 'v option"
    and put :: "'m \<Rightarrow> 'k \<Rightarrow> 'v \<Rightarrow> 'm"
    and del :: "'m \<Rightarrow> 'k \<Rightarrow> 'm"
    and keys :: "'m \<Rightarrow> 'k list"
    and ok :: "'m \<Rightarrow> bool"
  assumes get_empty: "get empty k = None"
    and get_put: "get (put m k v) = (get m)(k \<mapsto> v)"
    and get_del: "ok m \<Longrightarrow> get (del m k) = (get m)(k := None)"
    and keys_dom: "set (keys m) = dom (get m)"
    and keys_distinct: "ok m \<Longrightarrow> distinct (keys m)"
    and ok_empty: "ok empty"
    and ok_put: "ok m \<Longrightarrow> ok (put m k v)"
    and ok_del: "ok m \<Longrightarrow> ok (del m k)"
begin

lemma sorted_keys_get:
  "i < length (sort (keys m)) \<Longrightarrow> \<exists>v. get m (sort (keys m) ! i) = Some v"
  using nth_mem [of i "sort (keys m)"] by (auto simp: keys_dom)

lemma sorted_keys_strict: "ok m \<Longrightarrow> sorted_wrt (<) (sort (keys m))"
  by (simp add: keys_distinct strict_sorted_iff)

lemma sorted_keys_put: "ok m \<Longrightarrow> set (sort (keys (put m k v))) = insert k (set (keys m))"
  by (auto simp: keys_dom get_put)

lemma sorted_keys_del: "ok m \<Longrightarrow> set (sort (keys (del m k))) = set (keys m) - {k}"
  by (auto simp: keys_dom get_del)

lemma length_keys_del:
  assumes "ok m" and "k \<in> set (keys m)"
  shows "Suc (length (keys (del m k))) = length (keys m)"
proof -
  have "set (keys (del m k)) = set (keys m) - {k}"
    using assms by (auto simp: keys_dom get_del)
  then have "length (keys (del m k)) = card (set (keys m) - {k})"
    using assms(1) by (metis distinct_card keys_distinct ok_del)
  then have "Suc (length (keys (del m k))) = card (set (keys m))"
    using card.remove [OF _ assms(2)] by simp
  then show ?thesis
    using assms(1) by (simp add: distinct_card keys_distinct)
qed

lemma del_absent: "ok m \<Longrightarrow> k \<notin> set (keys m) \<Longrightarrow> get (del m k) = get m"
  by (auto simp: keys_dom get_del domIff)

end

interpretation jm: ordered_map "[]" map_get map_insert map_remove map_keys map_ok
  by unfold_locales
    (simp_all add: map_get_insert map_get_remove map_ok_insert map_ok_map_remove,
     simp_all add: map_get_map_of map_keys_def map_ok_def dom_map_of_conv_image_fst)

end
