(* ===== verification/Paths.thy ===== *)
theory Paths
imports Json
begin

text \<open>
  Dot-separated paths into a JSON value: \<open>get_path\<close> and \<open>set_path\<close> of
  \<open>editor/schema_registry.rs\<close>, by which one flat field list describes nested configuration
  blocks. The locale \<open>path_access\<close> is the contract the forms rely on (a write is read back at
  its path, and at no path apart from it), with the lemma on a whole list of writes that the
  round trip of a form rests on.
\<close>

section \<open>Reading and writing a path\<close>

text \<open>The loop of \<open>get_path\<close> over the pieces of the path.\<close>

fun get_segs :: "json \<Rightarrow> string list \<Rightarrow> json option" where
  "get_segs current [] = Some current"
| "get_segs current (part # parts) =
     Option.bind (json_get current part) (\<lambda>next. get_segs next parts)"

definition get_path :: "json \<Rightarrow> string \<Rightarrow> json option" where
  "get_path value path = get_segs value (split_on (CHR ''.'') path)"

lemma split_once_shorter_path [termination_simp]:
  "split_once c s = Some (a, b) \<Longrightarrow> length b < length s"
  by (rule split_once_shorter)

text \<open>
  \<open>entry(first).or_insert_with(\<dots>)\<close> yields the present entry or an empty object, and an entry
  that is no object is replaced by an empty one, so the \<open>expect\<close> that follows cannot fail: the
  inner map is in scope as such.
\<close>

fun set_path :: "json_map \<Rightarrow> string \<Rightarrow> json \<Rightarrow> json_map" where
  "set_path m path v =
     (case split_once (CHR ''.'') path of
        None \<Rightarrow> map_insert m path v
      | Some (first, rest) \<Rightarrow>
          (let entry = (case map_get m first of None \<Rightarrow> JObject [] | Some e \<Rightarrow> e);
               inner = (case entry of JObject o' \<Rightarrow> o' | _ \<Rightarrow> [])
           in map_insert m first (JObject (set_path inner rest v))))"

declare set_path.simps [simp del]

subsection \<open>The same write, over the pieces of the path\<close>

definition entry_object :: "json option \<Rightarrow> json_map" where
  "entry_object e = (case Option.bind e as_object of None \<Rightarrow> [] | Some m \<Rightarrow> m)"

lemma entry_object_simps [simp]:
  "entry_object None = []"
  "entry_object (Some (JObject m)) = m"
  by (simp_all add: entry_object_def)

fun set_segs :: "json_map \<Rightarrow> string list \<Rightarrow> json \<Rightarrow> json_map" where
  "set_segs m [] v = m"
| "set_segs m [k] v = map_insert m k v"
| "set_segs m (k # j # ks) v =
     map_insert m k (JObject (set_segs (entry_object (map_get m k)) (j # ks) v))"

lemma set_segs_step:
  "ks \<noteq> [] \<Longrightarrow>
   set_segs m (k # ks) v = map_insert m k (JObject (set_segs (entry_object (map_get m k)) ks v))"
  by (cases ks) auto

lemma set_path_set_segs: "set_path m p v = set_segs m (split_on (CHR ''.'') p) v"
proof (induction m p v rule: set_path.induct)
  case (1 m p v)
  show ?case
  proof (cases "split_once (CHR ''.'') p")
    case None
    then show ?thesis
      by (simp add: set_path.simps [of m p v] split_on_split_once [of _ p])
  next
    case (Some ab)
    obtain a b where ab: "ab = (a, b)" by (cases ab)
    have obj: "(case case map_get m a of None \<Rightarrow> JObject [] | Some e \<Rightarrow> e of
        JObject o' \<Rightarrow> o' | _ \<Rightarrow> []) = entry_object (map_get m a)"
      by (simp add: entry_object_def split: option.split json.split)
    show ?thesis
      using 1 [OF Some ab [symmetric] refl refl] Some ab
      by (simp add: set_path.simps [of m p v] split_on_split_once [of _ p] set_segs_step
          Let_def obj)
  qed
qed

lemma json_get_object [simp]: "json_get (JObject m) k = map_get m k"
  by (simp add: json_get_def)

lemma get_segs_no_object: "as_object v = None \<Longrightarrow> ks \<noteq> [] \<Longrightarrow> get_segs v ks = None"
  by (cases ks) (auto simp: json_get_def)

lemma get_segs_entry:
  "ks \<noteq> [] \<Longrightarrow> Option.bind e (\<lambda>v. get_segs v ks) = get_segs (JObject (entry_object e)) ks"
  by (cases e; cases ks; cases "the e") (auto simp: json_get_def map_get_def entry_object_def)

lemma get_set_segs_same: "ks \<noteq> [] \<Longrightarrow> get_segs (JObject (set_segs m ks v)) ks = Some v"
  by (induction m ks v rule: set_segs.induct) (auto simp: map_get_insert)

lemma get_set_segs_apart:
  "\<not> prefix ks js \<Longrightarrow> \<not> prefix js ks \<Longrightarrow>
   get_segs (JObject (set_segs m ks v)) js = get_segs (JObject m) js"
proof (induction m ks v arbitrary: js rule: set_segs.induct)
  case (1 m v)
  then show ?case by simp
next
  case (2 m k v)
  then show ?case by (cases js) (auto simp: map_get_insert)
next
  case (3 m k j ks v)
  then obtain i js' where js: "js = i # js'" by (cases js) auto
  show ?case
  proof (cases "i = k")
    case True
    with 3 js have "js' \<noteq> []" and "\<not> prefix (j # ks) js'" and "\<not> prefix js' (j # ks)" by auto
    with 3 js True show ?thesis
      by (simp add: map_get_insert get_segs_entry del: get_segs.simps(2) set_segs.simps)
        (simp add: map_get_insert get_segs_entry)
  next
    case False
    with js show ?thesis by (simp add: map_get_insert)
  qed
qed

section \<open>The contract of path access\<close>

text \<open>Two paths are apart when neither leads through the other.\<close>

definition paths_apart :: "string \<Rightarrow> string \<Rightarrow> bool" where
  "paths_apart p q \<longleftrightarrow>
     \<not> prefix (split_on (CHR ''.'') p) (split_on (CHR ''.'') q) \<and>
     \<not> prefix (split_on (CHR ''.'') q) (split_on (CHR ''.'') p)"

text \<open>A list of writes, some of which are skipped, as a form's fields are.\<close>

definition write_fields :: "('m \<Rightarrow> 'p \<Rightarrow> 'v \<Rightarrow> 'm) \<Rightarrow> ('p \<times> 'v option) list \<Rightarrow> 'm \<Rightarrow> 'm" where
  "write_fields put ws m =
     fold (\<lambda>(p, v) m. case v of None \<Rightarrow> m | Some x \<Rightarrow> put m p x) ws m"

lemma write_fields_simps [simp]:
  "write_fields put [] m = m"
  "write_fields put ((p, None) # ws) m = write_fields put ws m"
  "write_fields put ((p, Some x) # ws) m = write_fields put ws (put m p x)"
  by (simp_all add: write_fields_def)

locale path_access =
  fixes get :: "'m \<Rightarrow> 'p \<Rightarrow> 'v option"
    and put :: "'m \<Rightarrow> 'p \<Rightarrow> 'v \<Rightarrow> 'm"
    and apart :: "'p \<Rightarrow> 'p \<Rightarrow> bool"
  assumes get_put_same: "get (put m p v) p = Some v"
    and get_put_apart: "apart p q \<Longrightarrow> get (put m p v) q = get m q"
    and apart_sym: "apart p q \<Longrightarrow> apart q p"
begin

lemma get_write_apart:
  "(\<And>w. w \<in> set ws \<Longrightarrow> apart (fst w) q) \<Longrightarrow> get (write_fields put ws m) q = get m q"
proof (induction ws arbitrary: m)
  case Nil
  then show ?case by simp
next
  case (Cons w ws)
  obtain p v where w: "w = (p, v)" by (cases w)
  with Cons.prems [of w] have "apart p q" by simp
  with Cons w show ?case by (cases v) (simp_all add: get_put_apart)
qed

lemma get_write_member:
  "sorted_wrt apart (map fst ws) \<Longrightarrow> (p, v) \<in> set ws \<Longrightarrow>
   get (write_fields put ws m) p = (case v of None \<Rightarrow> get m p | Some x \<Rightarrow> Some x)"
proof (induction ws arbitrary: m)
  case Nil
  then show ?case by simp
next
  case (Cons w ws)
  obtain q u where w: "w = (q, u)" by (cases w)
  show ?case
  proof (cases "(p, v) = (q, u)")
    case True
    have rest: "get (write_fields put ws m') p = get m' p" for m'
      using Cons.prems(1) w True by (intro get_write_apart) (auto intro: apart_sym)
    with True w show ?thesis by (cases u) (simp_all add: get_put_same)
  next
    case False
    with Cons.prems w have mem: "(p, v) \<in> set ws" and "apart q p" by auto
    then have "get (put m q x) p = get m p" for x by (simp add: get_put_apart)
    with Cons mem w show ?thesis by (cases u; cases v) simp_all
  qed
qed

end

interpretation pa: path_access "\<lambda>m. get_path (JObject m)" set_path paths_apart
  by unfold_locales
    (auto simp: get_path_def set_path_set_segs get_set_segs_same get_set_segs_apart
      paths_apart_def)

end
