(* ===== verification/Schema.thy ===== *)
theory Schema
imports Paths
begin

text \<open>
  The vocabulary of \<open>editor/schema_registry.rs\<close>: component categories, field and component
  specifications, and the two functions over them that do not depend on the tables
  (\<open>minimal_value\<close>, \<open>component_type\<close>). The tables are in the theory Registry.
\<close>

section \<open>Specifications\<close>

datatype component_category = Receiver | Exporter | Extension

datatype field_kind =
    Str
  | Bool
  | Duration
  | Enum "string list"
  | StringList
  | OperatorList

record field_spec =
  fkey :: string
  fkind :: field_kind
  frequired :: bool
  fdefault :: "string option"
  fhelp :: string

record component_type_spec =
  ct_name :: string
  ct_description :: string
  ct_fields :: "field_spec list"

text \<open>The table shorthand \<open>f(key, kind, required, default, help)\<close>.\<close>

definition fspec :: "string \<Rightarrow> field_kind \<Rightarrow> bool \<Rightarrow> string option \<Rightarrow> string \<Rightarrow> field_spec" where
  "fspec k kd req def hlp =
     \<lparr>fkey = k, fkind = kd, frequired = req, fdefault = def, fhelp = hlp\<rparr>"

lemma fspec_sel [simp]:
  "fkey (fspec k kd req def hlp) = k"
  "fkind (fspec k kd req def hlp) = kd"
  "frequired (fspec k kd req def hlp) = req"
  "fdefault (fspec k kd req def hlp) = def"
  "fhelp (fspec k kd req def hlp) = hlp"
  by (simp_all add: fspec_def)

instantiation component_category :: enum
begin

definition enum_component_category :: "component_category list" where
  "enum_component_category = [Receiver, Exporter, Extension]"

definition enum_all_component_category :: "(component_category \<Rightarrow> bool) \<Rightarrow> bool" where
  "enum_all_component_category P \<longleftrightarrow> P Receiver \<and> P Exporter \<and> P Extension"

definition enum_ex_component_category :: "(component_category \<Rightarrow> bool) \<Rightarrow> bool" where
  "enum_ex_component_category P \<longleftrightarrow> P Receiver \<or> P Exporter \<or> P Extension"

instance
proof
  show "(UNIV :: component_category set) = set enum_class.enum"
    unfolding enum_component_category_def by (auto intro: component_category.exhaust)
  show "distinct (enum_class.enum :: component_category list)"
    by (simp add: enum_component_category_def)
  show "enum_class.enum_all P \<longleftrightarrow> Ball UNIV P" for P :: "component_category \<Rightarrow> bool"
    unfolding enum_all_component_category_def by (metis UNIV_I component_category.exhaust)
  show "enum_class.enum_ex P \<longleftrightarrow> Bex UNIV P" for P :: "component_category \<Rightarrow> bool"
    unfolding enum_ex_component_category_def by (metis UNIV_I component_category.exhaust)
qed

end

section \<open>Seeds and ids\<close>

text \<open>
  \<open>minimal_value\<close>: the required fields only, each with its default or a placeholder of its
  kind. A default is always written as a JSON string, whatever the kind.
\<close>

definition minimal_field :: "field_spec \<Rightarrow> json" where
  "minimal_field field =
     (case (fkind field, fdefault field) of
        (_, Some d) \<Rightarrow> JString d
      | (StringList, None) \<Rightarrow> JArray [JString ''placeholder'']
      | (Bool, None) \<Rightarrow> JBool False
      | (OperatorList, None) \<Rightarrow> JArray []
      | (Enum options, None) \<Rightarrow> JString (case options of [] \<Rightarrow> '''' | opt # _ \<Rightarrow> opt)
      | (_, None) \<Rightarrow> JString ''placeholder'')"

definition minimal_writes :: "field_spec list \<Rightarrow> (string \<times> json option) list" where
  "minimal_writes specs =
     map (\<lambda>field. (fkey field, if frequired field then Some (minimal_field field) else None)) specs"

definition minimal_value :: "component_type_spec \<Rightarrow> json" where
  "minimal_value spec =
     JObject (fold (\<lambda>field m.
       if \<not> frequired field then m else set_path m (fkey field) (minimal_field field))
       (ct_fields spec) [])"

text \<open>\<open>id.split('/').next().unwrap_or(id)\<close>.\<close>

definition component_type :: "string \<Rightarrow> string" where
  "component_type cid = (case split_on (CHR ''/'') cid of [] \<Rightarrow> cid | t # _ \<Rightarrow> t)"

lemma component_type_prefix: "CHR ''/'' \<notin> set t \<Longrightarrow> component_type (t @ CHR ''/'' # name) = t"
  by (simp add: component_type_def split_on_append)

lemma component_type_plain: "CHR ''/'' \<notin> set t \<Longrightarrow> component_type t = t"
  by (simp add: component_type_def split_on_no_sep)

lemma minimal_value_writes:
  "minimal_value spec = JObject (write_fields set_path (minimal_writes (ct_fields spec)) [])"
proof -
  have "fold (\<lambda>field m. if \<not> frequired field then m
          else set_path m (fkey field) (minimal_field field)) fs m =
        write_fields set_path (minimal_writes fs) m" for fs m
    by (induction fs arbitrary: m) (simp_all add: minimal_writes_def)
  then show ?thesis by (simp add: minimal_value_def)
qed

section \<open>Well-formed specifications\<close>

text \<open>
  What the forms rely on: an enumeration has options, and no field's path leads through
  another's. Both are properties of the tables, established in Registry and Templates.
\<close>

fun kind_ok :: "field_kind \<Rightarrow> bool" where
  "kind_ok (Enum options) \<longleftrightarrow> options \<noteq> [] \<and> distinct options"
| "kind_ok _ \<longleftrightarrow> True"

definition fields_ok :: "field_spec list \<Rightarrow> bool" where
  "fields_ok specs \<longleftrightarrow>
     list_all (\<lambda>s. kind_ok (fkind s)) specs \<and> sorted_wrt paths_apart (map fkey specs)"

lemma get_path_empty: "get_path (JObject []) p = None"
  by (simp add: get_path_def) (cases "split_on (CHR ''.'') p"; simp add: map_get_def)

lemma minimal_value_required:
  assumes "fields_ok (ct_fields spec)" and "field \<in> set (ct_fields spec)" and "frequired field"
  shows "get_path (minimal_value spec) (fkey field) = Some (minimal_field field)"
proof -
  have "map fst (minimal_writes (ct_fields spec)) = map fkey (ct_fields spec)"
    by (simp add: minimal_writes_def)
  moreover have "(fkey field, Some (minimal_field field)) \<in> set (minimal_writes (ct_fields spec))"
    using assms(2,3) by (force simp: minimal_writes_def)
  ultimately show ?thesis
    using assms(1) pa.get_write_member [of "minimal_writes (ct_fields spec)"]
    by (simp add: minimal_value_writes fields_ok_def)
qed

lemma minimal_value_optional:
  assumes "fields_ok (ct_fields spec)" and "field \<in> set (ct_fields spec)" and "\<not> frequired field"
  shows "get_path (minimal_value spec) (fkey field) = None"
proof -
  have "map fst (minimal_writes (ct_fields spec)) = map fkey (ct_fields spec)"
    by (simp add: minimal_writes_def)
  moreover have "(fkey field, None) \<in> set (minimal_writes (ct_fields spec))"
    using assms(2,3) by (force simp: minimal_writes_def)
  ultimately show ?thesis
    using assms(1) pa.get_write_member [of "minimal_writes (ct_fields spec)"]
    by (simp add: minimal_value_writes fields_ok_def get_path_empty)
qed

text \<open>Whether a value is one that a field of a kind stands for, and is not blank.\<close>

fun of_kind :: "field_kind \<Rightarrow> json \<Rightarrow> bool" where
  "of_kind (Enum options) v = (case v of JString s \<Rightarrow> s \<in> set options | _ \<Rightarrow> False)"
| "of_kind Bool v = (case v of JBool _ \<Rightarrow> True | _ \<Rightarrow> False)"
| "of_kind StringList v =
     (case v of
        JArray arr \<Rightarrow> arr \<noteq> [] \<and> list_all (\<lambda>x. case x of JString s \<Rightarrow> s \<noteq> [] | _ \<Rightarrow> False) arr
      | _ \<Rightarrow> False)"
| "of_kind OperatorList v = (case v of JArray arr \<Rightarrow> list_all (\<lambda>x. as_object x \<noteq> None) arr | _ \<Rightarrow> False)"
| "of_kind Str v = (case v of JString s \<Rightarrow> s \<noteq> [] | _ \<Rightarrow> False)"
| "of_kind Duration v = (case v of JString s \<Rightarrow> s \<noteq> [] | _ \<Rightarrow> False)"

section \<open>Tables looked up by name\<close>

text \<open>
  The contract of a static table and its lookup: \<open>types_for\<close>, \<open>operator_types\<close> and the
  template list are searched linearly for a name, and the screens keep that name, not the
  index. Distinct names make the two agree.
\<close>

locale keyed_table =
  fixes table :: "'a list"
    and key_of :: "'a \<Rightarrow> 'k"
    and lookup :: "'k \<Rightarrow> 'a option"
  assumes keys_distinct: "distinct (map key_of table)"
    and lookup_find: "lookup k = find (\<lambda>x. key_of x = k) table"
begin

lemma lookup_SomeD: "lookup k = Some x \<Longrightarrow> x \<in> set table \<and> key_of x = k"
  by (auto simp: lookup_find find_Some_iff)

lemma lookup_None_iff: "lookup k = None \<longleftrightarrow> k \<notin> key_of ` set table"
  by (auto simp: lookup_find find_None_iff)

lemma lookup_member: "x \<in> set table \<Longrightarrow> lookup (key_of x) = Some x"
  using keys_distinct lookup_SomeD [of "key_of x"] lookup_None_iff [of "key_of x"]
  by (cases "lookup (key_of x)") (auto simp: distinct_map inj_on_def)

lemma lookup_nth: "i < length table \<Longrightarrow> lookup (key_of (table ! i)) = Some (table ! i)"
  by (simp add: lookup_member)

end

end
