(* ===== verification/Registry.thy ===== *)
theory Registry
imports Schema
begin

text \<open>
  The tables of \<open>editor/schema_registry.rs\<close>, with every key, kind, default and help text of
  the source, and their lookups. The theorems establish once what the forms and the editor
  assume of the tables: enumerations have options, no field path runs through another, type
  names are distinct, every entry carries its help. They are closed facts, evaluated by the
  code equations; nothing else unfolds a table.
\<close>

section \<open>Receivers\<close>

definition OPERATORS :: field_spec where
  "OPERATORS =
    fspec ''operators'' OperatorList False None
       ''Inline parsing chain run on every event from this receiver, in order -- e.g. extract fields with a regex, then map severity, then add a sourcetype. Press Enter to manage the list.''"

definition STORAGE :: field_spec where
  "STORAGE =
    fspec ''storage'' Str False None
       ''Optional: id of a file_storage extension to persist read position across restarts -- e.g. file_storage. Leave blank to track position in memory only (lost on restart).''"

definition SYSLOG_FIELDS :: "field_spec list" where
  "SYSLOG_FIELDS =
    [fspec ''protocol'' (Enum [''rfc3164'', ''rfc5424'', ''none'']) True (Some ''rfc3164'')
       ''Which syslog message format to expect. \"none\" keeps the message body as-is (still decodes a leading <34>-style PRI header if present).'',
     fspec ''udp.listen_address'' Str True (Some ''0.0.0.0:514'')
       ''Set this to listen over UDP, e.g. 0.0.0.0:514 -- clear it if using tcp.listen_address instead (at least one of the two is required). 0.0.0.0 means \"every network interface on this machine\".'',
     fspec ''tcp.listen_address'' Str False None
       ''Set this to listen over TCP, e.g. 0.0.0.0:601 -- leave blank if using udp.listen_address instead.'',
     fspec ''enable_octet_counting'' Bool False (Some ''false'')
       ''TCP only: enable RFC 6587 octet-counting framing (each message prefixed with its byte length). Most TCP senders don't need this.'',
     OPERATORS]"

definition FILE_LOG_FIELDS :: "field_spec list" where
  "FILE_LOG_FIELDS =
    [fspec ''include'' StringList True None
       ''Which files to watch, as glob patterns -- e.g. /var/log/myapp/*.log. Separate multiple patterns with commas.'',
     fspec ''exclude'' StringList False None
       ''Optional: file patterns to skip even if they match include -- e.g. /var/log/myapp/*.gz.'',
     fspec ''start_at'' (Enum [''beginning'', ''end'']) False (Some ''end'')
       ''Where to start reading a file the first time it's seen: end (only new lines from now on) or beginning (read the whole existing file too).'',
     fspec ''poll_interval'' Duration False (Some ''200ms'')
       ''How often to check the file(s) for new lines -- e.g. 200ms, 2s.'',
     STORAGE,
     OPERATORS]"

definition WINDOWS_EVENT_LOG_FIELDS :: "field_spec list" where
  "WINDOWS_EVENT_LOG_FIELDS =
    [fspec ''channel'' Str True None
       ''Which Windows Event Log to read -- e.g. Security, System, Application. This only works if sgcia-otelcol itself runs on Windows -- on Linux/macOS it fails to even build a pipeline (not just to run), so remove this receiver and whichever pipeline references it before saving/validating there.'',
     fspec ''query'' Str False (Some ''*'')
       ''XPath filter for which events to include. * means all events on this channel.'',
     fspec ''start_at'' (Enum [''beginning'', ''end'']) False (Some ''end'')
       ''Where to start the first time: end (only new events from now on) or beginning (replay everything currently in the log).'',
     STORAGE,
     OPERATORS]"

section \<open>Exporters\<close>

definition SPLUNK_HEC_FIELDS :: "field_spec list" where
  "SPLUNK_HEC_FIELDS =
    [fspec ''endpoint'' Str True (Some ''https://example.invalid:8088/services/collector/event'')
       ''The full HEC ingest URL -- e.g. https://ingest.na1.sentinelone.net/services/collector for SentinelOne DataPipeline.'',
     fspec ''token'' Str True None
       ''The HEC auth token for that endpoint. Use ${SOME_VAR} to read it from an environment variable instead of writing the real secret here.'',
     fspec ''source'' Str False None
       ''Optional Splunk \"source\" value. Leave blank unless otel_attrs_to_hec_metadata.source below is also blank -- see its help text.'',
     fspec ''sourcetype'' Str False None
       ''Optional Splunk \"sourcetype\" value. Leave blank unless otel_attrs_to_hec_metadata.sourcetype below is also blank -- see its help text.'',
     fspec ''index'' Str False None
       ''Optional: which Splunk/DataPipeline index to send events into.'',
     fspec ''otel_attrs_to_hec_metadata.source'' Str False (Some '''')
       ''Leave blank (the default here) to keep 'source' out of the top-level HEC envelope -- any attribute named 'source' set by this receiver's operators then falls into the event's nested fields{} object instead, which is what SentinelOne DataPipeline expects.'',
     fspec ''otel_attrs_to_hec_metadata.sourcetype'' Str False (Some '''')
       ''Leave blank (the default here) for the same reason as otel_attrs_to_hec_metadata.source -- keeps 'sourcetype' in fields{} rather than the top-level envelope.'',
     fspec ''otel_attrs_to_hec_metadata.index'' Str False (Some '''')
       ''Leave blank (the default here) for the same reason as otel_attrs_to_hec_metadata.source -- keeps 'index' in fields{} rather than the top-level envelope.'',
     fspec ''sending_queue.enabled'' Bool False (Some ''true'')
       ''Buffer events in memory and retry sends in the background rather than blocking the pipeline on every request.'',
     fspec ''retry_on_failure.enabled'' Bool False (Some ''true'')
       ''Retry with backoff when a send fails, rather than dropping the batch immediately.'']"

definition DEBUG_FIELDS :: "field_spec list" where
  "DEBUG_FIELDS =
    [fspec ''verbosity'' (Enum [''basic'', ''normal'', ''detailed'']) False (Some ''normal'')
       ''How much detail to print per event to the terminal -- detailed dumps every field, useful for testing a pipeline before wiring up a real destination.'']"

definition DATASET_FIELDS :: "field_spec list" where
  "DATASET_FIELDS =
    [fspec ''dataset_url'' Str True (Some ''https://app.scalyr.com'')
       ''The SentinelOne Singularity Data Lake (formerly Scalyr/DataSet) ingest URL -- https://app.scalyr.com, or https://app.eu.scalyr.com for the EU instance.'',
     fspec ''api_key'' Str True None
       ''The DataSet/SDL write log token. Use ${SOME_VAR} to read it from an environment variable instead of writing the real secret here.'',
     fspec ''server_host.use_hostname'' Bool False (Some ''true'')
       ''Fall back to this collector's own OS hostname for the event's serverHost if nothing more specific is set. Ignored if an event or its resource already carries a serverHost/host.name attribute -- see server_host.server_host below for the full lookup order.'',
     fspec ''server_host.server_host'' Str False None
       ''Fixed fallback serverHost value, used only if use_hostname is false and no event/resource attribute supplies one (required in that case -- the exporter fails to start otherwise). To set serverHost per-event instead, add a plain `serverHost` attribute via this receiver's own `add` operator -- it takes priority over everything here.'']"

definition LOGBUFFER_FIELDS :: "field_spec list" where
  "LOGBUFFER_FIELDS =
    [fspec ''endpoint'' Str False (Some ''http://127.0.0.1:7801'')
       ''Loopback address of this collector's own statuscfg extension -- must match statuscfg's endpoint field. Feeds the web UI's log viewer; not a real destination, safe to add to every logs pipeline.'']"

section \<open>Extensions\<close>

definition FILE_STORAGE_FIELDS :: "field_spec list" where
  "FILE_STORAGE_FIELDS =
    [fspec ''directory'' Str True (Some ''/var/lib/sgcia/otelcol-storage'')
       ''Directory where receivers using this extension (via their storage field) persist read position across restarts.'',
     fspec ''create_directory'' Bool False (Some ''true'')
       ''Create the directory above automatically if it doesn't exist yet.'']"

definition HEALTH_CHECK_FIELDS :: "field_spec list" where
  "HEALTH_CHECK_FIELDS =
    [fspec ''endpoint'' Str False (Some ''127.0.0.1:13133'')
       ''Address this extension's health-check HTTP endpoint listens on.'']"

definition STATUSCFG_FIELDS :: "field_spec list" where
  "STATUSCFG_FIELDS =
    [fspec ''endpoint'' Str False (Some ''127.0.0.1:7801'')
       ''Address the dashboard/editor's /status + /config HTTP endpoint listens on -- 127.0.0.1:7801 matches sgcia dashboard's own default, so it works with no flags.'',
     fspec ''config_path'' Str True None
       ''The same file passed to this collector's own --config flag at startup -- this extension re-reads it to serve /config, since there's no API to read back the running config.'',
     fspec ''metrics_url'' Str False (Some ''http://localhost:8888/metrics'')
       ''Where this collector's own internal Prometheus telemetry is exposed (service.telemetry.metrics in this same file) -- scraped on every /status request.'',
     fspec ''fleet_server_url'' Str False None
       ''OpAMP WebSocket endpoint of a central sgcia-fleet-server to report health/inventory to -- e.g. ws://fleet.example.com:4320/v1/opamp. Leave blank to keep this agent fully standalone (the default).'',
     fspec ''fleet_token'' Str False None
       ''Shared bearer token the fleet server requires to enroll -- only meaningful if fleet_server_url is set. Use ${SOME_VAR} to read it from an environment variable instead of writing the real secret here, same as the HEC token fields above.'',
     fspec ''fleet_instance_id_path'' Str False (Some ''/var/lib/sgcia/sgcia-fleet-instance-uid'')
       ''Where this agent persists its random OpAMP instance ID so it reconnects as the same agent across restarts, instead of enrolling as a new one every time (the fleet server would otherwise accumulate a stale duplicate row per restart). Leave blank only if you deliberately want a fresh identity on every restart.'']"

section \<open>Operators\<close>

definition ON_ERROR :: field_spec where
  "ON_ERROR =
    fspec ''on_error'' (Enum [''send'', ''send_quiet'', ''drop'', ''drop_quiet'']) False (Some ''send'')
       ''What to do if this operator fails on an event: send (forward the event unparsed, log the error) or drop (discard it). The _quiet variants only log at debug level.''"

definition REGEX_PARSER_FIELDS :: "field_spec list" where
  "REGEX_PARSER_FIELDS =
    [fspec ''regex'' Str True (Some ''(?P<message>.*)'')
       (raw ''Go regular expression, with (?P<name>...) capture groups for each field to extract -- e.g. ^%ASA-(?P<severity>~d)-(?P<msgid>~d+):~s*(?P<message>.*)$''),
     fspec ''parse_from'' Str False (Some ''body'')
       ''Which field to read the text from.'',
     fspec ''parse_to'' Str False (Some ''attributes'')
       ''Where to put the extracted fields.'',
     ON_ERROR]"

definition JSON_PARSER_FIELDS :: "field_spec list" where
  "JSON_PARSER_FIELDS =
    [fspec ''parse_from'' Str False (Some ''body'')
       ''Which field holds the JSON text to parse.'',
     fspec ''parse_to'' Str False (Some ''attributes'')
       ''Where to put the parsed result (merges keys in if attributes, replaces if body).'',
     ON_ERROR]"

definition KEY_VALUE_PARSER_FIELDS :: "field_spec list" where
  "KEY_VALUE_PARSER_FIELDS =
    [fspec ''parse_from'' Str False (Some ''body'')
       ''Which field holds the key=value text.'',
     fspec ''parse_to'' Str False (Some ''attributes'')
       ''Where to put the extracted fields.'',
     fspec ''delimiter'' Str False (Some ''='')
       ''Character that separates a key from its value.'',
     fspec ''pair_delimiter'' Str False None
       ''Character that separates one key=value pair from the next. Leave blank for whitespace.'',
     ON_ERROR]"

definition SEVERITY_PARSER_FIELDS :: "field_spec list" where
  "SEVERITY_PARSER_FIELDS =
    [fspec ''parse_from'' Str True (Some ''attributes.severity'')
       ''Which field holds the severity value -- e.g. attributes.severity.'',
     fspec ''preset'' Str False (Some ''default'')
       ''Which numbering scheme to interpret the value with. \"default\" follows the OTel/syslog severity convention.'',
     ON_ERROR]"

definition TIME_PARSER_FIELDS :: "field_spec list" where
  "TIME_PARSER_FIELDS =
    [fspec ''parse_from'' Str True (Some ''attributes.ts'')
       ''Which field holds the timestamp text -- e.g. attributes.ts.'',
     fspec ''layout_type'' (Enum [''strptime'', ''gotime'', ''epoch'']) False (Some ''strptime'')
       ''How to interpret the layout field below: strptime (%Y-%m-%d style), gotime (Go's reference-time style), or epoch (numeric seconds/ms since 1970).'',
     fspec ''layout'' Str True (Some ''%Y-%m-%dT%H:%M:%SZ'')
       ''The timestamp format, in the style selected by layout_type -- e.g. %Y-%m-%dT%H:%M:%SZ for strptime.'',
     ON_ERROR]"

definition ADD_FIELDS :: "field_spec list" where
  "ADD_FIELDS =
    [fspec ''field'' Str True (Some ''attributes.datasource'')
       ''Which field to set -- e.g. attributes.datasource.'',
     fspec ''value'' Str True None
       ''The fixed value to set it to -- e.g. cisco_asa.'']"

definition REMOVE_FIELDS :: "field_spec list" where
  "REMOVE_FIELDS =
    [fspec ''field'' Str True (Some ''attributes.secret'')
       ''Which field to delete -- e.g. attributes.secret.'']"

definition FROM_TO_FIELDS :: "field_spec list" where
  "FROM_TO_FIELDS =
    [fspec ''from'' Str True (Some ''attributes.message'')
       ''Field to read the value from -- e.g. attributes.message.'',
     fspec ''to'' Str True (Some ''body'')
       ''Field to write the value to -- e.g. body.'']"

section \<open>Component types\<close>

definition RECEIVER_TYPES :: "component_type_spec list" where
  "RECEIVER_TYPES =
    [\<lparr>ct_name = ''syslog'',
       ct_description = ''Listens for syslog messages over the network (UDP and/or TCP).'',
       ct_fields = SYSLOG_FIELDS\<rparr>,
     \<lparr>ct_name = ''file_log'',
       ct_description = ''Tails one or more log files from disk, following new lines as they're written (like `tail -f`).'',
       ct_fields = FILE_LOG_FIELDS\<rparr>,
     \<lparr>ct_name = ''windows_event_log'',
       ct_description = ''Reads events from a Windows Event Log channel. Only works if this collector process itself runs on Windows -- see the channel field's help text for what happens elsewhere.'',
       ct_fields = WINDOWS_EVENT_LOG_FIELDS\<rparr>]"

definition EXPORTER_TYPES :: "component_type_spec list" where
  "EXPORTER_TYPES =
    [\<lparr>ct_name = ''splunk_hec'',
       ct_description = ''Sends collected logs to a Splunk-compatible HEC endpoint (including SentinelOne DataPipeline).'',
       ct_fields = SPLUNK_HEC_FIELDS\<rparr>,
     \<lparr>ct_name = ''debug'',
       ct_description = ''Prints every event to the terminal instead of sending it anywhere -- useful for testing a pipeline before wiring up a real destination.'',
       ct_fields = DEBUG_FIELDS\<rparr>,
     \<lparr>ct_name = ''dataset'',
       ct_description = ''Sends collected logs to SentinelOne Singularity Data Lake (formerly Scalyr/DataSet). Alpha stability upstream.'',
       ct_fields = DATASET_FIELDS\<rparr>,
     \<lparr>ct_name = ''logbuffer'',
       ct_description = ''Feeds this collector's own web UI log viewer over loopback -- not a real destination, local visibility only.'',
       ct_fields = LOGBUFFER_FIELDS\<rparr>]"

definition EXTENSION_TYPES :: "component_type_spec list" where
  "EXTENSION_TYPES =
    [\<lparr>ct_name = ''file_storage'',
       ct_description = ''Persists receiver read-position/bookmarks to disk so a restart resumes correctly. Referenced by a receiver's storage field.'',
       ct_fields = FILE_STORAGE_FIELDS\<rparr>,
     \<lparr>ct_name = ''health_check'',
       ct_description = ''Serves a simple HTTP health-check endpoint for this collector process.'',
       ct_fields = HEALTH_CHECK_FIELDS\<rparr>,
     \<lparr>ct_name = ''statuscfg'',
       ct_description = ''Serves /status and /config for sgcia dashboard/edit to poll -- the local extension that replaces the old built-in status API.'',
       ct_fields = STATUSCFG_FIELDS\<rparr>]"

definition OPERATOR_TYPES :: "component_type_spec list" where
  "OPERATOR_TYPES =
    [\<lparr>ct_name = ''regex_parser'',
       ct_description = ''Extracts named fields out of the log text using a regular expression.'',
       ct_fields = REGEX_PARSER_FIELDS\<rparr>,
     \<lparr>ct_name = ''json_parser'',
       ct_description = ''Parses a field's text as JSON and merges the result in.'',
       ct_fields = JSON_PARSER_FIELDS\<rparr>,
     \<lparr>ct_name = ''key_value_parser'',
       ct_description = ''Parses key=value pairs out of a field's text -- e.g. user=neo action=login.'',
       ct_fields = KEY_VALUE_PARSER_FIELDS\<rparr>,
     \<lparr>ct_name = ''severity_parser'',
       ct_description = ''Sets an event's severity by interpreting a value already in the event.'',
       ct_fields = SEVERITY_PARSER_FIELDS\<rparr>,
     \<lparr>ct_name = ''time_parser'',
       ct_description = ''Sets an event's official timestamp by parsing a value already in the event.'',
       ct_fields = TIME_PARSER_FIELDS\<rparr>,
     \<lparr>ct_name = ''add'',
       ct_description = ''Sets a field to a fixed value on every event.'',
       ct_fields = ADD_FIELDS\<rparr>,
     \<lparr>ct_name = ''remove'',
       ct_description = ''Deletes a field from every event.'',
       ct_fields = REMOVE_FIELDS\<rparr>,
     \<lparr>ct_name = ''copy'',
       ct_description = ''Copies a field's value to a second location, keeping the original too.'',
       ct_fields = FROM_TO_FIELDS\<rparr>,
     \<lparr>ct_name = ''move'',
       ct_description = ''Moves (or renames) a field's value to a new location, removing it from the original.'',
       ct_fields = FROM_TO_FIELDS\<rparr>]"

fun types_for :: "component_category \<Rightarrow> component_type_spec list" where
  "types_for Receiver = RECEIVER_TYPES"
| "types_for Exporter = EXPORTER_TYPES"
| "types_for Extension = EXTENSION_TYPES"

definition operator_types :: "component_type_spec list" where
  "operator_types = OPERATOR_TYPES"

definition operator_type :: "string \<Rightarrow> component_type_spec option" where
  "operator_type name = find (\<lambda>s. ct_name s = name) OPERATOR_TYPES"

text \<open>The lookup \<open>types_for(category).iter().find(|s| s.type_name == type_name)\<close> of the editor.\<close>

definition type_spec :: "component_category \<Rightarrow> string \<Rightarrow> component_type_spec option" where
  "type_spec category name = find (\<lambda>s. ct_name s = name) (types_for category)"

section \<open>The tables are well-formed\<close>

definition table_ok :: "component_type_spec list \<Rightarrow> bool" where
  "table_ok types \<longleftrightarrow>
     types \<noteq> [] \<and> distinct (map ct_name types) \<and>
     list_all (\<lambda>s. fields_ok (ct_fields s)) types"

lemma types_for_ok: "table_ok (types_for category)"
proof -
  have "table_ok RECEIVER_TYPES" "table_ok EXPORTER_TYPES" "table_ok EXTENSION_TYPES"
    by code_simp+
  then show ?thesis by (cases category) simp_all
qed

lemma operator_types_ok: "table_ok operator_types"
  by code_simp

interpretation types: keyed_table "types_for category" ct_name "type_spec category"
  for category
  using types_for_ok [of category] by unfold_locales (auto simp: table_ok_def type_spec_def)

interpretation ops: keyed_table operator_types ct_name operator_type
  using operator_types_ok
  by unfold_locales (auto simp: table_ok_def operator_type_def operator_types_def)

lemma type_spec_fields_ok: "type_spec category name = Some s \<Longrightarrow> fields_ok (ct_fields s)"
  using types_for_ok [of category]
  by (auto dest!: types.lookup_SomeD simp: table_ok_def list_all_iff)

lemma operator_type_fields_ok: "operator_type name = Some s \<Longrightarrow> fields_ok (ct_fields s)"
  using operator_types_ok by (auto dest!: ops.lookup_SomeD simp: table_ok_def list_all_iff)

lemma types_for_nth_fields_ok:
  "s \<in> set (types_for category) \<Longrightarrow> fields_ok (ct_fields s)"
  using types_for_ok [of category] by (auto simp: table_ok_def list_all_iff)

lemma operator_types_nth_fields_ok: "s \<in> set operator_types \<Longrightarrow> fields_ok (ct_fields s)"
  using operator_types_ok by (auto simp: table_ok_def list_all_iff)

lemma types_for_not_Nil [simp]: "types_for category \<noteq> []"
  using types_for_ok [of category] by (simp add: table_ok_def)

declare types_for.simps [simp del]

section \<open>The seeds of new components\<close>

lemma required_of_kind:
  assumes "s \<in> set (types_for category) \<union> set operator_types" and "field \<in> set (ct_fields s)"
    and "frequired field"
  shows "of_kind (fkind field) (minimal_field field)"
proof -
  have "list_all (\<lambda>s. list_all (\<lambda>f. frequired f \<longrightarrow> of_kind (fkind f) (minimal_field f)) (ct_fields s))
      (RECEIVER_TYPES @ EXPORTER_TYPES @ EXTENSION_TYPES @ operator_types)"
    by code_simp
  moreover have "s \<in> set (RECEIVER_TYPES @ EXPORTER_TYPES @ EXTENSION_TYPES @ operator_types)"
    using assms(1) by (cases category) (auto simp: types_for.simps)
  ultimately show ?thesis using assms(2,3) by (simp only: list_all_iff)
qed

lemma minimal_field_default: "fdefault field = Some d \<Longrightarrow> minimal_field field = JString d"
  by (simp add: minimal_field_def split: field_kind.split)

lemma seed_field:
  assumes "s \<in> set (types_for category) \<union> set operator_types" and "field \<in> set (ct_fields s)"
  shows "if frequired field
    then \<exists>v. get_path (minimal_value s) (fkey field) = Some v \<and> of_kind (fkind field) v \<and>
      (case fdefault field of Some d \<Rightarrow> v = JString d | None \<Rightarrow> True)
    else get_path (minimal_value s) (fkey field) = None"
proof -
  have ok: "fields_ok (ct_fields s)"
    using assms(1) types_for_nth_fields_ok operator_types_nth_fields_ok by blast
  show ?thesis
    using minimal_value_required [OF ok assms(2)] minimal_value_optional [OF ok assms(2)]
      required_of_kind [OF assms] minimal_field_default [of field]
    by (cases "fdefault field") auto
qed

end
