(* ===== verification/Terminal.thy ===== *)
theory Terminal
imports Json
begin

text \<open>
  The terminal side of both programs: key events (the crossterm types the sources match on),
  and the two crates a form calls whose code is not in this repository. They are parameters:
  a record of the operations used, passed to every definition that calls them. \<open>tui_input\<close>'s
  line editor is an opaque state type \<open>'i\<close>; what the code relies on is the documented fact
  that a new input holds the value it was given, the hypothesis \<open>input_laws\<close>.
\<close>

section \<open>Key events\<close>

text \<open>
  The key codes the sources name, and any other key by a number. A character is given by its
  UTF-8 bytes.
\<close>

datatype key_code =
    KChar string
  | KEnter
  | KEsc
  | KTab
  | KBackTab
  | KUp
  | KDown
  | KLeft
  | KRight
  | KDelete
  | KOther nat

text \<open>
  An event says whether the key went down, repeats or was let go; terminals of Windows report the
  last. The code, the kind, and the event's modifiers and state as a number: the sources match
  on the code alone, and hand the whole event to the line editor.
\<close>

datatype key_kind = Press | Repeat | Release

record key_event =
  code :: key_code
  kind :: key_kind
  detail :: nat

definition key :: "key_code \<Rightarrow> key_event" where
  "key c = \<lparr>code = c, kind = Press, detail = 0\<rparr>"

lemma code_key [simp]: "code (key c) = c" "kind (key c) = Press"
  by (simp_all add: key_def)

section \<open>The line editor and the display of JSON values\<close>

record 'i ui =
  input_new :: "string \<Rightarrow> 'i"
  input_default :: 'i
  input_value :: "'i \<Rightarrow> string"
  input_handle :: "'i \<Rightarrow> key_event \<Rightarrow> 'i"
  value_text :: "json \<Rightarrow> string"

definition input_laws :: "'i ui \<Rightarrow> bool" where
  "input_laws ui \<longleftrightarrow>
     (\<forall>s. input_value ui (input_new ui s) = s) \<and> input_value ui (input_default ui) = []"

lemma input_laws_new: "input_laws ui \<Longrightarrow> input_value ui (input_new ui s) = s"
  by (simp add: input_laws_def)

lemma input_laws_default: "input_laws ui \<Longrightarrow> input_value ui (input_default ui) = []"
  by (simp add: input_laws_def)

text \<open>A concrete instance for the witnesses: the state is the text, a character appends itself.\<close>

definition plain_ui :: "string ui" where
  "plain_ui =
     \<lparr>input_new = (\<lambda>s. s), input_default = [], input_value = (\<lambda>s. s),
      input_handle = (\<lambda>s k. case code k of KChar c \<Rightarrow> s @ c | _ \<Rightarrow> s),
      value_text = (\<lambda>v. case v of JBool b \<Rightarrow> (if b then ''true'' else ''false'') | _ \<Rightarrow> ''json'')\<rparr>"

lemma plain_ui_laws: "input_laws plain_ui"
  by (simp add: input_laws_def plain_ui_def)

end
