(* ===== verification/Form.thy ===== *)
theory Form
imports Registry Terminal
begin

text \<open>
  The form of \<open>editor/app.rs\<close>: \<open>FieldEditState\<close>, \<open>FormState\<close> and \<open>FormOutcome\<close>. A form is
  built from a list of field specifications and a JSON value, edited key by key, and turned
  back into a JSON value on submit. The lemmas show that a well-formed form cannot panic, what
  it writes at each field's path, and that submitting a form a second time changes nothing.
\<close>

section \<open>Data\<close>

datatype 'i field_edit_state =
    TextState 'i
  | BoolState bool
  | EnumState "string list" nat
  | StringListState 'i
  | OperatorListState "json list"

record 'i form_state =
  type_name :: "string option"
  write_type_key :: bool
  fields_spec :: "field_spec list"
  fstates :: "'i field_edit_state list"
  focused :: nat

datatype form_outcome = Continue | Submit | Cancel

section \<open>From a value to a form\<close>

text \<open>\<open>str::parse::<bool>().ok()\<close>.\<close>

definition parse_bool :: "string \<Rightarrow> bool option" where
  "parse_bool d = (if d = ''true'' then Some True else if d = ''false'' then Some False else None)"

definition value_to_display_string :: "'i ui \<Rightarrow> json \<Rightarrow> string" where
  "value_to_display_string ui v = (case v of JString s \<Rightarrow> s | other \<Rightarrow> value_text ui other)"

text \<open>
  \<open>field_edit_state_from\<close>. For an enumeration the source evaluates \<open>options[0]\<close> first,
  which panics on an empty list.
\<close>

definition field_edit_state_from ::
  "'i ui \<Rightarrow> field_spec \<Rightarrow> json \<Rightarrow> 'i field_edit_state option" where
  "field_edit_state_from ui spec v =
     (let current = get_path v (fkey spec) in
      case fkind spec of
        Enum options \<Rightarrow>
          (case options of
             [] \<Rightarrow> None
           | first # _ \<Rightarrow>
               (let current_str =
                  (case Option.bind current as_str of
                     Some s \<Rightarrow> s
                   | None \<Rightarrow> (case fdefault spec of Some d \<Rightarrow> d | None \<Rightarrow> first));
                  selected = (case position (\<lambda>opt. opt = current_str) options of
                     Some i \<Rightarrow> i | None \<Rightarrow> 0)
                in Some (EnumState options selected)))
      | Bool \<Rightarrow>
          Some (BoolState
            (case Option.bind current as_bool of
               Some b \<Rightarrow> b
             | None \<Rightarrow> (case Option.bind (fdefault spec) parse_bool of
                 Some b \<Rightarrow> b | None \<Rightarrow> False)))
      | StringList \<Rightarrow>
          Some (StringListState (input_new ui
            (case Option.bind current as_array of
               Some arr \<Rightarrow> join '', '' (List.map_filter as_str arr)
             | None \<Rightarrow> [])))
      | OperatorList \<Rightarrow>
          Some (OperatorListState
            (case Option.bind current as_array of Some arr \<Rightarrow> arr | None \<Rightarrow> []))
      | _ \<Rightarrow>
          Some (TextState (input_new ui
            (case current of
               Some c \<Rightarrow> value_to_display_string ui c
             | None \<Rightarrow> (case fdefault spec of Some d \<Rightarrow> d | None \<Rightarrow> [])))))"

text \<open>\<open>FormState::new\<close>.\<close>

definition form_new ::
  "'i ui \<Rightarrow> string option \<Rightarrow> bool \<Rightarrow> field_spec list \<Rightarrow> json \<Rightarrow> 'i form_state option" where
  "form_new ui ty write_ty specs v =
     map_option (\<lambda>states.
       \<lparr>type_name = ty, write_type_key = write_ty, fields_spec = specs,
        fstates = states, focused = 0\<rparr>)
       (map_opt (\<lambda>spec. field_edit_state_from ui spec v) specs)"

section \<open>From a form to a value\<close>

text \<open>The items of a comma-separated field.\<close>

definition list_items :: "string \<Rightarrow> string list" where
  "list_items s = filter (\<lambda>t. t \<noteq> []) (map trim (split_on (CHR '','') s))"

text \<open>
  What one field contributes: \<open>None\<close> is the panic of \<open>options[*selected]\<close> out of range,
  \<open>Some None\<close> the \<open>continue\<close> that writes nothing.
\<close>

fun field_value :: "'i ui \<Rightarrow> 'i field_edit_state \<Rightarrow> json option option" where
  "field_value ui (TextState input) =
     (let text = input_value ui input in Some (if text = [] then None else Some (JString text)))"
| "field_value ui (BoolState checked) = Some (Some (JBool checked))"
| "field_value ui (EnumState options selected) =
     map_option (\<lambda>s. Some (JString s)) (nth_opt options selected)"
| "field_value ui (StringListState input) =
     (let items = list_items (input_value ui input)
      in Some (if items = [] then None else Some (JArray (map JString items))))"
| "field_value ui (OperatorListState ops) =
     Some (if ops = [] then None else Some (JArray ops))"

text \<open>\<open>FormState::to_value\<close>: the loop over \<open>fields_spec.zip(fields)\<close>, then the type key.\<close>

definition add_type_key :: "'i form_state \<Rightarrow> json_map \<Rightarrow> json_map" where
  "add_type_key form m =
     (if write_type_key form
      then (case type_name form of
              Some t \<Rightarrow> map_insert m ''type'' (JString t)
            | None \<Rightarrow> m)
      else m)"

definition write_field ::
  "'i ui \<Rightarrow> field_spec \<times> 'i field_edit_state \<Rightarrow> json_map \<Rightarrow> json_map option" where
  "write_field ui p m =
     map_option (\<lambda>v. case v of None \<Rightarrow> m | Some x \<Rightarrow> set_path m (fkey (fst p)) x)
       (field_value ui (snd p))"

definition to_value :: "'i ui \<Rightarrow> 'i form_state \<Rightarrow> json option" where
  "to_value ui form =
     map_option (\<lambda>m. JObject (add_type_key form m))
       (fold_opt (write_field ui) (zip (fields_spec form) (fstates form)) [])"

section \<open>Focus and operators\<close>

definition focused_kind :: "'i form_state \<Rightarrow> field_kind option" where
  "focused_kind form = map_option fkind (nth_opt (fields_spec form) (focused form))"

definition advance_focus :: "'i form_state \<Rightarrow> 'i form_state" where
  "advance_focus form =
     form\<lparr>focused := (focused form + 1) mod max (length (fstates form)) 1\<rparr>"

definition operator_list_index :: "'i form_state \<Rightarrow> nat option" where
  "operator_list_index form = position (\<lambda>s. fkind s = OperatorList) (fields_spec form)"

definition operators :: "'i form_state \<Rightarrow> json list" where
  "operators form =
     (case Option.bind (operator_list_index form) (nth_opt (fstates form)) of
        Some (OperatorListState ops) \<Rightarrow> ops
      | _ \<Rightarrow> [])"

definition set_operators :: "'i form_state \<Rightarrow> json list \<Rightarrow> 'i form_state" where
  "set_operators form ops =
     (case operator_list_index form of
        None \<Rightarrow> form
      | Some i \<Rightarrow>
          (case nth_opt (fstates form) i of
             Some (OperatorListState _) \<Rightarrow>
               form\<lparr>fstates := (fstates form)[i := OperatorListState ops]\<rparr>
           | _ \<Rightarrow> form))"

section \<open>Keys\<close>

text \<open>
  The key on the focused field. On an enumeration, \<open>options.len() - 1\<close> and the remainder by
  \<open>options.len()\<close> panic when there are no options.
\<close>

fun field_on_key :: "'i ui \<Rightarrow> 'i field_edit_state \<Rightarrow> key_event \<Rightarrow> 'i field_edit_state option" where
  "field_on_key ui (EnumState options selected) k =
     (case code k of
        KLeft \<Rightarrow>
          (if options = [] then None
           else Some (EnumState options
             (if selected = 0 then length options - 1 else selected - 1)))
      | KRight \<Rightarrow>
          (if options = [] then None
           else Some (EnumState options ((selected + 1) mod length options)))
      | _ \<Rightarrow> Some (EnumState options selected))"
| "field_on_key ui (BoolState checked) k =
     Some (BoolState (if code k \<in> {KLeft, KRight, KChar '' ''} then \<not> checked else checked))"
| "field_on_key ui (TextState input) k = Some (TextState (input_handle ui input k))"
| "field_on_key ui (StringListState input) k = Some (StringListState (input_handle ui input k))"
| "field_on_key ui (OperatorListState ops) k = Some (OperatorListState ops)"

definition form_on_key ::
  "'i ui \<Rightarrow> 'i form_state \<Rightarrow> key_event \<Rightarrow> ('i form_state \<times> form_outcome) option" where
  "form_on_key ui form k =
     (case code k of
        KEnter \<Rightarrow> Some (form, Submit)
      | KEsc \<Rightarrow> Some (form, Cancel)
      | KTab \<Rightarrow>
          Some (form\<lparr>focused := (focused form + 1) mod max (length (fstates form)) 1\<rparr>, Continue)
      | KBackTab \<Rightarrow>
          Some (form\<lparr>focused :=
            (if focused form = 0 then length (fstates form) - 1 else focused form - 1)\<rparr>, Continue)
      | _ \<Rightarrow>
          (case nth_opt (fstates form) (focused form) of
             None \<Rightarrow> Some (form, Continue)
           | Some field \<Rightarrow>
               map_option (\<lambda>field'.
                 (form\<lparr>fstates := (fstates form)[focused form := field']\<rparr>, Continue))
                 (field_on_key ui field k)))"

section \<open>Well-formed forms cannot panic\<close>

text \<open>
  Each state fits its specification's kind, an enumeration's selection is in range, and the
  focus is on a field (or 0 on a form without fields).
\<close>

fun state_ok :: "field_kind \<Rightarrow> 'i field_edit_state \<Rightarrow> bool" where
  "state_ok (Enum options) st =
     (case st of EnumState options' selected \<Rightarrow> options' = options \<and> selected < length options
      | _ \<Rightarrow> False)"
| "state_ok Bool st = (case st of BoolState _ \<Rightarrow> True | _ \<Rightarrow> False)"
| "state_ok StringList st = (case st of StringListState _ \<Rightarrow> True | _ \<Rightarrow> False)"
| "state_ok OperatorList st = (case st of OperatorListState _ \<Rightarrow> True | _ \<Rightarrow> False)"
| "state_ok Str st = (case st of TextState _ \<Rightarrow> True | _ \<Rightarrow> False)"
| "state_ok Duration st = (case st of TextState _ \<Rightarrow> True | _ \<Rightarrow> False)"

definition form_ok :: "'i form_state \<Rightarrow> bool" where
  "form_ok form \<longleftrightarrow>
     fields_ok (fields_spec form) \<and>
     list_all2 (\<lambda>spec st. state_ok (fkind spec) st) (fields_spec form) (fstates form) \<and>
     focused form < max (length (fstates form)) 1"

lemma form_ok_nth:
  "form_ok form \<Longrightarrow> i < length (fstates form) \<Longrightarrow>
   i < length (fields_spec form) \<and> state_ok (fkind (fields_spec form ! i)) (fstates form ! i)"
  by (auto simp: form_ok_def list_all2_conv_all_nth)

lemma state_ok_field_value [panic_free]: "state_ok kd st \<Longrightarrow> \<exists>v. field_value ui st = Some v"
  by (cases kd; cases st) (auto simp: Let_def)

lemma field_edit_state_from_ok [panic_free]:
  assumes "kind_ok (fkind spec)"
  shows "\<exists>st. field_edit_state_from ui spec v = Some st \<and> state_ok (fkind spec) st"
proof (cases "fkind spec")
  case (Enum options)
  with assms obtain o1 os where "options = o1 # os" by (cases options) auto
  with Enum show ?thesis
    by (auto simp: field_edit_state_from_def Let_def dest!: position_SomeD split: option.split)
qed (auto simp: field_edit_state_from_def Let_def)

lemma form_new_ok [panic_free]:
  assumes "fields_ok specs"
  shows "\<exists>form. form_new ui ty w specs v = Some form \<and> form_ok form"
proof -
  have "\<exists>st. field_edit_state_from ui spec v = Some st" if "spec \<in> set specs" for spec
    using assms that field_edit_state_from_ok [of spec ui v]
    by (auto simp: fields_ok_def list_all_iff)
  then obtain states where states: "map_opt (\<lambda>spec. field_edit_state_from ui spec v) specs = Some states"
    using map_opt_total [of specs "\<lambda>spec. field_edit_state_from ui spec v"] by blast
  have "state_ok (fkind spec) st" if "spec \<in> set specs" "field_edit_state_from ui spec v = Some st" for spec st
    using assms that field_edit_state_from_ok [of spec ui v]
    by (auto simp: fields_ok_def list_all_iff)
  then have "list_all2 (\<lambda>spec st. state_ok (fkind spec) st) specs states"
    using map_opt_SomeD [OF states] by (auto simp: list_all2_conv_all_nth)
  with assms states show ?thesis
    by (simp add: form_new_def form_ok_def)
qed

lemma to_value_ok [panic_free]:
  assumes "form_ok form"
  shows "\<exists>v. to_value ui form = Some v"
proof -
  have "\<exists>m'. write_field ui p m = Some m'"
    if "p \<in> set (zip (fields_spec form) (fstates form))" for p m
  proof -
    have "state_ok (fkind (fst p)) (snd p)"
      using that assms by (auto simp: form_ok_def list_all2_iff)
    then obtain v where "field_value ui (snd p) = Some v" using state_ok_field_value by blast
    then show ?thesis by (simp add: write_field_def)
  qed
  then have "\<exists>m. fold_opt (write_field ui) (zip (fields_spec form) (fstates form)) [] = Some m"
    by (rule fold_opt_total)
  then show ?thesis by (auto simp: to_value_def)
qed

lemma field_on_key_ok [panic_free]:
  "state_ok kd st \<Longrightarrow> \<exists>st'. field_on_key ui st k = Some st' \<and> state_ok kd st'"
  by (cases kd; cases st) (auto split: key_code.split intro: mod_less_divisor)

lemma form_ok_update:
  "form_ok form \<Longrightarrow> i < length (fstates form) \<Longrightarrow> state_ok (fkind (fields_spec form ! i)) st \<Longrightarrow>
   form_ok (form\<lparr>fstates := (fstates form)[i := st]\<rparr>)"
  by (auto simp: form_ok_def list_all2_conv_all_nth nth_list_update)

lemma form_ok_focus:
  "form_ok form \<Longrightarrow> i < max (length (fstates form)) 1 \<Longrightarrow> form_ok (form\<lparr>focused := i\<rparr>)"
  by (simp add: form_ok_def)

lemma advance_focus_ok [keeps]: "form_ok form \<Longrightarrow> form_ok (advance_focus form)"
  by (simp add: advance_focus_def form_ok_focus)

lemma set_operators_ok [keeps]: "form_ok form \<Longrightarrow> form_ok (set_operators form ops)"
proof (cases "operator_list_index form")
  case None
  then show "form_ok form \<Longrightarrow> ?thesis" by (simp add: set_operators_def)
next
  case (Some i)
  assume ok: "form_ok form"
  from Some have kd: "fkind (fields_spec form ! i) = OperatorList"
    by (auto simp: operator_list_index_def dest: position_SomeD)
  show ?thesis
    using ok Some kd form_ok_update [OF ok, of i "OperatorListState ops"]
    by (auto simp: set_operators_def dest: nth_opt_SomeD split: option.split field_edit_state.split)
qed

lemma form_on_key_ok [panic_free]:
  assumes ok: "form_ok form"
  shows "\<exists>form' out. form_on_key ui form k = Some (form', out) \<and> form_ok form'"
proof -
  have typed: "\<exists>form' out. (case nth_opt (fstates form) (focused form) of
       None \<Rightarrow> Some (form, Continue)
     | Some field \<Rightarrow> map_option (\<lambda>field'.
         (form\<lparr>fstates := (fstates form)[focused form := field']\<rparr>, Continue))
         (field_on_key ui field k)) = Some (form', out) \<and> form_ok form'"
  proof (cases "nth_opt (fstates form) (focused form)")
    case None
    with ok show ?thesis by simp
  next
    case (Some field)
    then have i: "focused form < length (fstates form)" and "field = fstates form ! focused form"
      by (auto dest: nth_opt_SomeD)
    then obtain field' where "field_on_key ui field k = Some field'"
      and "state_ok (fkind (fields_spec form ! focused form)) field'"
      using field_on_key_ok form_ok_nth [OF ok i] by blast
    with Some i ok show ?thesis by (simp add: form_ok_update)
  qed
  have "(focused form + 1) mod max (length (fstates form)) 1 < max (length (fstates form)) 1"
    by (rule mod_less_divisor) simp
  then have tab: "form_ok (form\<lparr>focused := (focused form + 1) mod max (length (fstates form)) 1\<rparr>)"
    using ok by (rule form_ok_focus [rotated])
  have "(if focused form = 0 then length (fstates form) - 1 else focused form - 1) <
      max (length (fstates form)) 1"
    using ok by (auto simp: form_ok_def)
  then have bwd: "form_ok (form\<lparr>focused :=
      (if focused form = 0 then length (fstates form) - 1 else focused form - 1)\<rparr>)"
    using ok by (rule form_ok_focus [rotated])
  show ?thesis
    using ok typed tab bwd by (cases "code k") (simp_all add: form_on_key_def)
qed

section \<open>Comma-separated lists\<close>

text \<open>An item survives joining and splitting when it is trimmed, not empty and free of commas.\<close>

definition plain_item :: "string \<Rightarrow> bool" where
  "plain_item t \<longleftrightarrow> t \<noteq> [] \<and> trimmed t \<and> CHR '','' \<notin> set t"

lemma list_items_plain: "list_all plain_item (list_items s)"
proof -
  have "plain_item (trim p)" if "p \<in> set (split_on (CHR '','') s)" "trim p \<noteq> []" for p
    using that split_on_pieces set_trim unfolding plain_item_def by fastforce
  then show ?thesis by (auto simp: list_items_def list_all_iff)
qed

lemma split_on_join:
  "list_all plain_item (x # xs) \<Longrightarrow>
   split_on (CHR '','') (join '', '' (x # xs)) = x # map (Cons (CHR '' '')) xs"
proof (induction xs arbitrary: x)
  case Nil
  then show ?case by (simp add: plain_item_def split_on_no_sep)
next
  case (Cons y ys)
  have "split_on (CHR '','') (join '', '' (x # y # ys)) =
      split_on (CHR '','') (x @ CHR '','' # (CHR '' '' # join '', '' (y # ys)))"
    by simp
  also have "\<dots> = x # split_on (CHR '','') (CHR '' '' # join '', '' (y # ys))"
    using Cons.prems by (intro split_on_append) (simp add: plain_item_def)
  also have "\<dots> = x # map (Cons (CHR '' '')) (y # ys)"
    using Cons by simp
  finally show ?case .
qed

lemma list_items_join: "list_all plain_item items \<Longrightarrow> list_items (join '', '' items) = items"
proof (cases items)
  case Nil
  then show ?thesis by (simp add: list_items_def)
next
  case (Cons x xs)
  assume plain: "list_all plain_item items"
  then have trims: "trim t = t" if "t \<in> set items" for t
    using that by (auto simp: list_all_iff plain_item_def trim_trimmed)
  have "map trim (x # map (Cons (CHR '' '')) xs) = x # xs"
    using trims Cons by (auto simp: trim_blank intro: map_idI)
  moreover have "filter (\<lambda>t. t \<noteq> []) (x # xs) = x # xs"
    using plain Cons by (auto simp: list_all_iff plain_item_def filter_id_conv)
  ultimately show ?thesis
    using plain split_on_join [of x xs] unfolding list_items_def Cons by metis
qed

lemma map_filter_as_str [simp]: "List.map_filter as_str (map JString xs) = xs"
  by (induction xs) simp_all

section \<open>What a form writes\<close>

definition field_writes :: "'i ui \<Rightarrow> 'i form_state \<Rightarrow> (string \<times> json option) list" where
  "field_writes ui form =
     map (\<lambda>(spec, st). (fkey spec, the (field_value ui st)))
       (zip (fields_spec form) (fstates form))"

definition type_writes :: "bool \<Rightarrow> string option \<Rightarrow> (string \<times> json option) list" where
  "type_writes w ty = (if w then [(''type'', map_option JString ty)] else [])"

lemma write_fields_append:
  "write_fields put (ws @ ws') m = write_fields put ws' (write_fields put ws m)"
  by (simp add: write_fields_def)

lemma add_type_key_writes:
  "add_type_key form m = write_fields set_path (type_writes (write_type_key form) (type_name form)) m"
proof -
  have "split_once (CHR ''.'') ''type'' = None" by simp
  then show ?thesis
    by (simp add: add_type_key_def type_writes_def set_path.simps split: option.split)
qed

lemma fold_opt_write_field:
  "list_all (\<lambda>p. field_value ui (snd p) \<noteq> None) ps \<Longrightarrow>
   fold_opt (write_field ui) ps m =
     Some (write_fields set_path (map (\<lambda>(spec, st). (fkey spec, the (field_value ui st))) ps) m)"
proof (induction ps arbitrary: m)
  case Nil
  then show ?case by simp
next
  case (Cons p ps)
  then obtain v where "field_value ui (snd p) = Some v" by auto
  with Cons show ?case by (cases p; cases v) (auto simp: write_field_def)
qed

lemma to_value_writes:
  assumes "form_ok form"
  shows "to_value ui form = Some (JObject (write_fields set_path
    (field_writes ui form @ type_writes (write_type_key form) (type_name form)) []))"
proof -
  have "list_all (\<lambda>p. field_value ui (snd p) \<noteq> None) (zip (fields_spec form) (fstates form))"
    using assms state_ok_field_value [where ui = ui]
    by (fastforce simp: list_all_iff form_ok_def list_all2_iff)
  then show ?thesis
    by (simp add: to_value_def fold_opt_write_field field_writes_def add_type_key_writes
        write_fields_append)
qed

text \<open>The paths of a form are apart, its type key included.\<close>

definition keys_ok :: "bool \<Rightarrow> field_spec list \<Rightarrow> bool" where
  "keys_ok w specs \<longleftrightarrow>
     fields_ok specs \<and> (w \<longrightarrow> list_all (\<lambda>s. paths_apart (fkey s) ''type'') specs)"

lemma writes_apart:
  "keys_ok w specs \<Longrightarrow> map fst ws = map fkey specs \<Longrightarrow>
   sorted_wrt paths_apart (map fst (ws @ type_writes w ty))"
  by (auto simp: keys_ok_def fields_ok_def type_writes_def sorted_wrt_append list_all_iff)

lemma form_ok_length: "form_ok form \<Longrightarrow> length (fstates form) = length (fields_spec form)"
  by (auto simp: form_ok_def dest: list_all2_lengthD)

lemma form_writes_keys:
  "form_ok form \<Longrightarrow> map fst (field_writes ui form) = map fkey (fields_spec form)"
  by (auto simp: field_writes_def form_ok_length intro: nth_equalityI)

lemma field_writes_nth:
  "form_ok form \<Longrightarrow> i < length (fields_spec form) \<Longrightarrow>
   (fkey (fields_spec form ! i), the (field_value ui (fstates form ! i)))
     \<in> set (field_writes ui form)"
  unfolding field_writes_def set_map
  by (rule image_eqI [where x = "zip (fields_spec form) (fstates form) ! i"])
    (simp_all add: form_ok_length in_set_zip, auto simp: form_ok_length)

lemma to_value_get_field:
  assumes "form_ok form" and "keys_ok (write_type_key form) (fields_spec form)"
    and "to_value ui form = Some v"
    and "i < length (fields_spec form)"
  shows "Some (get_path v (fkey (fields_spec form ! i))) = field_value ui (fstates form ! i)"
proof -
  obtain x where x: "field_value ui (fstates form ! i) = Some x"
    using form_ok_nth [OF assms(1), of i] assms(1,4) state_ok_field_value
    by (metis form_ok_length)
  let ?ws = "field_writes ui form @ type_writes (write_type_key form) (type_name form)"
  let ?p = "fkey (fields_spec form ! i)"
  have "(?p, x) \<in> set ?ws"
    using field_writes_nth [OF assms(1,4), of ui] x by simp
  then have "get_path (JObject (write_fields set_path ?ws [])) ?p =
      (case x of None \<Rightarrow> get_path (JObject []) ?p | Some y \<Rightarrow> Some y)"
    by (rule pa.get_write_member [OF writes_apart [OF assms(2) form_writes_keys [OF assms(1)]]])
  then have "get_path v ?p = x"
    using assms(3) unfolding to_value_writes [OF assms(1)]
    by (auto simp: get_path_empty split: option.split)
  with x show ?thesis by simp
qed

lemma to_value_get_other:
  assumes "form_ok form" and "to_value ui form = Some v"
    and "list_all (\<lambda>s. paths_apart (fkey s) q) (fields_spec form)"
    and "write_type_key form \<longrightarrow> paths_apart ''type'' q"
  shows "get_path v q = None"
proof -
  let ?ws = "field_writes ui form @ type_writes (write_type_key form) (type_name form)"
  have "paths_apart (fst w) q" if "w \<in> set ?ws" for w
    using that assms(3,4)
    by (auto simp: field_writes_def type_writes_def list_all_iff dest!: set_zip_leftD split: if_splits)
  then have "get_path (JObject (write_fields set_path ?ws [])) q = get_path (JObject []) q"
    by (rule pa.get_write_apart)
  with assms(1,2) show ?thesis by (simp add: to_value_writes get_path_empty)
qed

section \<open>Opening and submitting\<close>

text \<open>
  The value a component gets when its form is opened and submitted unchanged, and what that
  does to one field.
\<close>

definition submit :: "'i ui \<Rightarrow> string option \<Rightarrow> bool \<Rightarrow> field_spec list \<Rightarrow> json \<Rightarrow> json option" where
  "submit ui ty w specs v = Option.bind (form_new ui ty w specs v) (to_value ui)"

definition submit_field :: "'i ui \<Rightarrow> field_spec \<Rightarrow> json \<Rightarrow> json option option" where
  "submit_field ui spec v = Option.bind (field_edit_state_from ui spec v) (field_value ui)"

lemma submit_field_cong:
  "get_path v (fkey spec) = get_path w (fkey spec) \<Longrightarrow>
   submit_field ui spec v = submit_field ui spec w"
  by (simp add: submit_field_def field_edit_state_from_def)

lemma submit_field_total: "kind_ok (fkind spec) \<Longrightarrow> \<exists>x. submit_field ui spec v = Some x"
  using field_edit_state_from_ok [of spec ui v] state_ok_field_value
  by (fastforce simp: submit_field_def)

lemma form_new_writes:
  assumes "form_new ui ty w specs v = Some form"
  shows "field_writes ui form = map (\<lambda>s. (fkey s, the (submit_field ui s v))) specs"
proof -
  from assms have form: "fields_spec form = specs"
    and states: "list_all2 (\<lambda>s st. field_edit_state_from ui s v = Some st) specs (fstates form)"
    by (auto simp: form_new_def dest: map_opt_SomeD)
  then show ?thesis
    by (auto simp: field_writes_def submit_field_def list_all2_conv_all_nth intro: nth_equalityI)
qed

lemma submit_writes:
  assumes "fields_ok specs"
  shows "submit ui ty w specs v = Some (JObject (write_fields set_path
    (map (\<lambda>s. (fkey s, the (submit_field ui s v))) specs @ type_writes w ty) []))"
proof -
  obtain form where form: "form_new ui ty w specs v = Some form" "form_ok form"
    using form_new_ok [OF assms] by blast
  then have "write_type_key form = w" "type_name form = ty"
    by (auto simp: form_new_def)
  with form show ?thesis
    by (simp add: submit_def to_value_writes form_new_writes)
qed

lemma submit_get:
  assumes "keys_ok w specs" and "submit ui ty w specs v = Some v'" and "s \<in> set specs"
  shows "get_path v' (fkey s) = the (submit_field ui s v)"
proof -
  let ?ws = "map (\<lambda>s. (fkey s, the (submit_field ui s v))) specs @ type_writes w ty"
  have "sorted_wrt paths_apart (map fst ?ws)"
    using assms(1) by (rule writes_apart) (simp add: comp_def)
  moreover have "(fkey s, the (submit_field ui s v)) \<in> set ?ws"
    using assms(3) by simp
  ultimately have "get_path (JObject (write_fields set_path ?ws [])) (fkey s) =
      the (submit_field ui s v)"
    using pa.get_write_member [of ?ws "fkey s" "the (submit_field ui s v)" "[]"]
    by (simp add: get_path_empty split: option.split)
  then show ?thesis
    using assms(1,2) by (simp add: keys_ok_def submit_writes)
qed

text \<open>
  The one field that does not come back as it was: a text shown blank, whose specification has
  a default. Nothing is written for it, so the default shows the next time.
\<close>

definition blank_reset :: "'i ui \<Rightarrow> field_spec \<Rightarrow> json \<Rightarrow> bool" where
  "blank_reset ui spec v \<longleftrightarrow>
     (fkind spec = Str \<or> fkind spec = Duration) \<and>
     (case get_path v (fkey spec) of None \<Rightarrow> False | Some c \<Rightarrow> value_to_display_string ui c = []) \<and>
     (case fdefault spec of None \<Rightarrow> False | Some d \<Rightarrow> d \<noteq> [])"

text \<open>
  The same exception on a form: a text typed blank over a default. Every other field is shown
  again as it was, when the form is opened on the value it was submitted to.
\<close>

fun default_blanked :: "'i ui \<Rightarrow> field_spec \<Rightarrow> 'i field_edit_state \<Rightarrow> bool" where
  "default_blanked ui spec (TextState input) \<longleftrightarrow>
     input_value ui input = [] \<and> fdefault spec \<noteq> None \<and> fdefault spec \<noteq> Some []"
| "default_blanked ui spec _ \<longleftrightarrow> False"

lemma list_items_Nil [simp]: "list_items [] = []"
  by (simp add: list_items_def)

lemma reopen_text:
  assumes "input_laws ui" and "fkind spec = Str \<or> fkind spec = Duration"
    and "\<not> default_blanked ui spec (TextState input)"
    and "Some (get_path v (fkey spec)) = field_value ui (TextState input)"
  shows "submit_field ui spec v = field_value ui (TextState input)"
proof -
  have typed: "get_path v (fkey spec) =
      (if input_value ui input = [] then None else Some (JString (input_value ui input)))"
    using assms(4) by (simp add: Let_def)
  have shown: "submit_field ui spec v =
      (let s = (case get_path v (fkey spec) of
           Some c \<Rightarrow> value_to_display_string ui c
         | None \<Rightarrow> (case fdefault spec of Some d \<Rightarrow> d | None \<Rightarrow> []))
       in Some (if s = [] then None else Some (JString s)))"
    using assms(1,2)
    by (auto simp: submit_field_def field_edit_state_from_def Let_def input_laws_new)
  show ?thesis
    using assms(3) unfolding shown typed
    by (cases "fdefault spec") (auto simp: value_to_display_string_def Let_def)
qed

lemma reopen_enum:
  assumes "kind_ok (fkind spec)" and "fkind spec = Enum options" and "i < length options"
    and "get_path v (fkey spec) = Some (JString (options ! i))"
  shows "submit_field ui spec v = Some (Some (JString (options ! i)))"
proof -
  have "position (\<lambda>opt. opt = options ! i) options = Some i"
    using assms(1-3) by (simp add: position_nth_distinct)
  with assms(2-4) have "field_edit_state_from ui spec v = Some (EnumState options i)"
    by (cases options) (simp_all add: field_edit_state_from_def Let_def
        del: position.simps nth_opt_Cons)
  with assms(3) show ?thesis by (simp add: submit_field_def)
qed

lemma reopen_list:
  assumes "input_laws ui" and "fkind spec = StringList"
    and "Some (get_path v (fkey spec)) = field_value ui (StringListState input)"
  shows "submit_field ui spec v = field_value ui (StringListState input)"
proof -
  define items where "items = list_items (input_value ui input)"
  have typed: "get_path v (fkey spec) = (if items = [] then None else Some (JArray (map JString items)))"
    using assms(3) unfolding items_def by (simp add: Let_def)
  have "list_items (join '', '' items) = items"
    unfolding items_def by (rule list_items_join [OF list_items_plain])
  moreover have "submit_field ui spec v =
      Some (if list_items (join '', '' items) = [] then None
        else Some (JArray (map JString (list_items (join '', '' items)))))"
    using assms(1,2) typed
    by (simp add: submit_field_def field_edit_state_from_def Let_def input_laws_new)
  ultimately show ?thesis by (simp add: items_def Let_def)
qed

lemma reopen_field:
  assumes "input_laws ui" and "kind_ok (fkind spec)" and "state_ok (fkind spec) st"
    and "\<not> default_blanked ui spec st" and "Some (get_path v (fkey spec)) = field_value ui st"
  shows "submit_field ui spec v = field_value ui st"
proof (cases st)
  case (TextState input)
  with assms(3) have "fkind spec = Str \<or> fkind spec = Duration" by (cases "fkind spec") auto
  with assms TextState show ?thesis using reopen_text [of ui spec input v] by simp
next
  case (BoolState b)
  with assms(3) have "fkind spec = Bool" by (cases "fkind spec") auto
  with assms(5) BoolState show ?thesis
    by (simp add: submit_field_def field_edit_state_from_def Let_def)
next
  case (EnumState options i)
  with assms(3) have "fkind spec = Enum options" "i < length options" by (cases "fkind spec"; auto)+
  with assms(2,5) EnumState show ?thesis using reopen_enum [of spec options i v ui] by auto
next
  case (StringListState input)
  with assms(3) have "fkind spec = StringList" by (cases "fkind spec") auto
  with assms(1,5) StringListState show ?thesis using reopen_list [of ui spec v input] by simp
next
  case (OperatorListState ops)
  with assms(3) have "fkind spec = OperatorList" by (cases "fkind spec") auto
  with assms(5) OperatorListState show ?thesis
    by (cases "ops = []") (auto simp: submit_field_def field_edit_state_from_def Let_def)
qed

lemma form_new_blanked:
  assumes "input_laws ui" and "field_edit_state_from ui spec v = Some st" and "default_blanked ui spec st"
  shows "blank_reset ui spec v"
  using assms
  by (cases "get_path v (fkey spec)")
    (auto simp: field_edit_state_from_def blank_reset_def Let_def input_laws_new
      split: field_kind.splits list.splits option.splits)

lemma submit_field_idem:
  assumes "input_laws ui" and "kind_ok (fkind spec)" and "\<not> blank_reset ui spec v"
    and "submit_field ui spec v = Some x" and "get_path w (fkey spec) = x"
  shows "submit_field ui spec w = Some x"
proof -
  obtain st where st: "field_edit_state_from ui spec v = Some st" "state_ok (fkind spec) st"
    using field_edit_state_from_ok [OF assms(2)] by blast
  with assms(4) have "field_value ui st = Some x" by (simp add: submit_field_def)
  moreover have "\<not> default_blanked ui spec st" using form_new_blanked [OF assms(1) st(1)] assms(3) by blast
  ultimately show ?thesis using reopen_field [OF assms(1,2) st(2)] assms(5) by simp
qed

lemma submit_idem:
  assumes "input_laws ui" and "keys_ok w specs"
    and "list_all (\<lambda>s. \<not> blank_reset ui s v) specs"
    and "submit ui ty w specs v = Some v'"
  shows "submit ui ty w specs v' = Some v'"
proof -
  have fields: "fields_ok specs" using assms(2) by (simp add: keys_ok_def)
  have "the (submit_field ui s v') = the (submit_field ui s v)" if s: "s \<in> set specs" for s
  proof -
    from s fields have kd: "kind_ok (fkind s)" by (auto simp: fields_ok_def list_all_iff)
    then obtain x where x: "submit_field ui s v = Some x" using submit_field_total by blast
    have not_reset: "\<not> blank_reset ui s v" using assms(3) s by (simp add: list_all_iff)
    have "get_path v' (fkey s) = x" using submit_get [OF assms(2,4) s] x by simp
    then have "submit_field ui s v' = Some x"
      by (rule submit_field_idem [OF assms(1) kd not_reset x])
    with x show ?thesis by simp
  qed
  then have same: "map (\<lambda>s. (fkey s, the (submit_field ui s v'))) specs =
      map (\<lambda>s. (fkey s, the (submit_field ui s v))) specs"
    by simp
  have "submit ui ty w specs v' = submit ui ty w specs v"
    unfolding submit_writes [OF fields] same ..
  with assms(4) show ?thesis by simp
qed

text \<open>A typed form, opened again on what it was submitted to, shows in every field what it showed.\<close>

lemma form_reopens:
  assumes laws: "input_laws ui" and ok: "form_ok form"
    and keys: "keys_ok (write_type_key form) (fields_spec form)"
    and kept: "list_all2 (\<lambda>spec st. \<not> default_blanked ui spec st) (fields_spec form) (fstates form)"
    and v: "to_value ui form = Some v"
  shows "\<exists>form'. form_new ui ty w (fields_spec form) v = Some form' \<and>
    fields_spec form' = fields_spec form \<and>
    map (field_value ui) (fstates form') = map (field_value ui) (fstates form)"
proof -
  let ?specs = "fields_spec form"
  have fields: "fields_ok ?specs" using ok by (simp add: form_ok_def)
  obtain form' where form': "form_new ui ty w ?specs v = Some form'"
    using form_new_ok [OF fields] by blast
  then have specs: "fields_spec form' = ?specs"
    and states: "list_all2 (\<lambda>s st. field_edit_state_from ui s v = Some st) ?specs (fstates form')"
    by (auto simp: form_new_def dest: map_opt_SomeD)
  have len: "length (fstates form') = length ?specs" "length (fstates form) = length ?specs"
    using states form_ok_length [OF ok] by (auto dest: list_all2_lengthD)
  have "field_value ui (fstates form' ! i) = field_value ui (fstates form ! i)" if i: "i < length ?specs" for i
  proof -
    have "kind_ok (fkind (?specs ! i))" using fields i by (simp add: fields_ok_def list_all_length)
    moreover have "state_ok (fkind (?specs ! i)) (fstates form ! i)" using form_ok_nth [OF ok] i len by simp
    moreover have "\<not> default_blanked ui (?specs ! i) (fstates form ! i)"
      using kept i by (simp add: list_all2_conv_all_nth)
    moreover note to_value_get_field [OF ok keys v i]
    ultimately have "submit_field ui (?specs ! i) v = field_value ui (fstates form ! i)"
      by (rule reopen_field [OF laws])
    moreover have "field_edit_state_from ui (?specs ! i) v = Some (fstates form' ! i)"
      using states i by (simp add: list_all2_conv_all_nth)
    ultimately show ?thesis by (simp add: submit_field_def)
  qed
  then have "map (field_value ui) (fstates form') = map (field_value ui) (fstates form)"
    using len by (intro nth_equalityI) simp_all
  with form' specs show ?thesis by blast
qed

section \<open>Moving the focus and cycling a choice\<close>

lemma tab_cycle: "i < n \<Longrightarrow> (let j = (i + 1) mod n in if j = 0 then n - 1 else j - 1) = i"
  for i n :: nat
  by (cases "i + 1 = n") (auto simp: Let_def)

lemma backtab_cycle: "i < n \<Longrightarrow> ((if i = 0 then n - 1 else i - 1) + 1) mod n = i" for i n :: nat
  by auto

lemma form_tab_backtab:
  assumes "form_ok form"
  shows "form_on_key ui form (key KTab) = Some (form', Continue) \<Longrightarrow>
      form_on_key ui form' (key KBackTab) = Some (form, Continue)"
    and "form_on_key ui form (key KBackTab) = Some (form', Continue) \<Longrightarrow>
      form_on_key ui form' (key KTab) = Some (form, Continue)"
proof -
  show "form_on_key ui form (key KTab) = Some (form', Continue) \<Longrightarrow>
      form_on_key ui form' (key KBackTab) = Some (form, Continue)"
    using assms tab_cycle [of "focused form" "length (fstates form)"]
    by (cases "fstates form = []") (auto simp: form_on_key_def form_ok_def Let_def max_def
        split: if_splits)
  show "form_on_key ui form (key KBackTab) = Some (form', Continue) \<Longrightarrow>
      form_on_key ui form' (key KTab) = Some (form, Continue)"
    using assms backtab_cycle [of "focused form" "length (fstates form)"]
    by (cases "fstates form = []") (auto simp: form_on_key_def form_ok_def max_def
        split: if_splits)
qed

lemma choice_right_left:
  assumes "selected < length options"
  shows "Option.bind (field_on_key ui (EnumState options selected) (key KRight))
      (\<lambda>st. field_on_key ui st (key KLeft)) = Some (EnumState options selected)"
    and "Option.bind (field_on_key ui (EnumState options selected) (key KLeft))
      (\<lambda>st. field_on_key ui st (key KRight)) = Some (EnumState options selected)"
  using assms tab_cycle [OF assms] backtab_cycle [OF assms] by (auto simp: Let_def)

fun press_right :: "nat \<Rightarrow> 'i ui \<Rightarrow> 'i field_edit_state \<Rightarrow> 'i field_edit_state option" where
  "press_right 0 ui st = Some st"
| "press_right (Suc n) ui st = Option.bind (press_right n ui st) (\<lambda>st. field_on_key ui st (key KRight))"

lemma press_right_mod:
  "selected < length options \<Longrightarrow>
   press_right n ui (EnumState options selected) =
     Some (EnumState options ((selected + n) mod length options))"
  by (induction n) (auto simp: mod_Suc_eq)

section \<open>A blank that does not stay blank\<close>

lemma blank_field:
  assumes "input_laws ui" and "blank_reset ui spec v"
  shows "submit_field ui spec v = Some None"
    and "get_path w (fkey spec) = None \<Longrightarrow>
      submit_field ui spec w = Some (map_option JString (fdefault spec))"
proof -
  from assms(2) obtain c d where c: "get_path v (fkey spec) = Some c" "value_to_display_string ui c = []"
    and d: "fdefault spec = Some d" "d \<noteq> []" and kd: "fkind spec = Str \<or> fkind spec = Duration"
    by (auto simp: blank_reset_def split: option.splits)
  show "submit_field ui spec v = Some None"
    using assms(1) c kd by (auto simp: submit_field_def field_edit_state_from_def input_laws_new)
  show "submit_field ui spec w = Some (map_option JString (fdefault spec))"
    if "get_path w (fkey spec) = None"
    using assms(1) that d kd
    by (auto simp: submit_field_def field_edit_state_from_def input_laws_new)
qed

lemma blank_comes_back:
  assumes laws: "input_laws ui" and keys: "keys_ok w specs" and s: "s \<in> set specs"
    and blank: "blank_reset ui s v"
    and first: "submit ui ty w specs v = Some v'" and second: "submit ui ty w specs v' = Some v''"
  shows "get_path v' (fkey s) = None \<and> get_path v'' (fkey s) = map_option JString (fdefault s)"
  using submit_get [OF keys first s] submit_get [OF keys second s] blank_field [OF laws blank]
  by simp

end
