(* ===== verification/Templates.thy ===== *)
theory Templates
imports Form
begin

text \<open>
  The source templates of \<open>editor/templates.rs\<close>: the parameter tables, the functions that
  build a receiver from the parameters, and the list the Receivers tab offers. The lemmas give
  each builder's output in closed form and from it what every template promises: a receiver of
  its type with the type's required fields, a filled-in \<open>operators\<close> list of registered
  operators, and exactly one transport for a syslog receiver.
\<close>

section \<open>Data and shared pieces\<close>

datatype template_category = NetworkSecurity | Generic | Windows | Database | Messaging

definition category_label :: "template_category \<Rightarrow> string" where
  "category_label c =
     (case c of
        NetworkSecurity \<Rightarrow> ''Network & security devices''
      | Database \<Rightarrow> ''Databases''
      | Messaging \<Rightarrow> ''Messaging & big data''
      | Generic \<Rightarrow> ''Generic''
      | Windows \<Rightarrow> ''Windows / Active Directory'')"

record source_template =
  tkey :: string
  ttitle :: string
  tcategory :: template_category
  tdescription :: string
  treceiver_type :: string
  tdefault_id :: string
  tparams :: "field_spec list"
  tbuild :: "json \<Rightarrow> json"

definition param :: "string \<Rightarrow> field_kind \<Rightarrow> bool \<Rightarrow> string option \<Rightarrow> string \<Rightarrow> field_spec" where
  "param k kd req def hlp =
     \<lparr>fkey = k, fkind = kd, frequired = req, fdefault = def, fhelp = hlp\<rparr>"

definition param_str :: "json \<Rightarrow> string \<Rightarrow> string \<Rightarrow> string" where
  "param_str params k fallback =
     (case Option.bind (get_path params k) as_str of Some s \<Rightarrow> s | None \<Rightarrow> fallback)"

definition set_transport :: "json_map \<Rightarrow> json \<Rightarrow> string \<Rightarrow> json_map" where
  "set_transport m params default_addr =
     (let addr = param_str params ''listen_address'' default_addr in
      if param_str params ''transport'' ''udp'' = ''tcp''
      then set_path (set_path m ''tcp.listen_address'' (JString addr))
             ''enable_octet_counting'' (JBool True)
      else set_path m ''udp.listen_address'' (JString addr))"

definition add_op :: "string \<Rightarrow> string \<Rightarrow> json" where
  "add_op field v =
     JObject [(''type'', JString ''add''), (''field'', JString field), (''value'', JString v)]"

definition move_op :: "string \<Rightarrow> string \<Rightarrow> json" where
  "move_op src dst =
     JObject [(''type'', JString ''move''), (''from'', JString src), (''to'', JString dst)]"

section \<open>The templates\<close>

definition TRANSPORT_ENUM :: field_kind where
  "TRANSPORT_ENUM = Enum [''udp'', ''tcp'']"

definition CISCO_ASA_PARAMS :: "field_spec list" where
  "CISCO_ASA_PARAMS =
    [param ''transport'' TRANSPORT_ENUM True (Some ''udp'')
       ''udp or tcp, matching how the ASA is configured to send logs.'',
     param ''listen_address'' Str True (Some ''0.0.0.0:514'')
       ''Address to listen on -- e.g. 0.0.0.0:514. Just a suggested starting port; adjust if this collector already listens on it elsewhere.'']"

definition build_cisco_asa :: "json \<Rightarrow> json" where
  "build_cisco_asa params =
    (let m = [];
         m = set_path m ''protocol'' (JString ''rfc3164'');
         m = set_transport m params ''0.0.0.0:514'';
         m = map_insert m ''operators'' (JArray
         [JObject
             [(''type'', JString ''regex_parser''),
              (''parse_from'', JString ''body''),
              (''parse_to'', JString ''attributes''),
              (''regex'', JString (raw ''^%ASA-(?P<severity>~d)-(?P<msgid>~d+):~s*(?P<message>.*)$'')),
              (''on_error'', JString ''send_quiet'')],
          JObject
             [(''type'', JString ''severity_parser''),
              (''parse_from'', JString ''attributes.severity''),
              (''preset'', JString ''default''),
              (''on_error'', JString ''send_quiet'')],
          add_op ''attributes.datasource'' ''cisco_asa'',
          add_op ''attributes.sourcetype'' ''cisco_asa_ts_parser'',
          move_op ''attributes.message'' ''body''])
     in JObject m)"

definition CISCO_CATALYST_PARAMS :: "field_spec list" where
  "CISCO_CATALYST_PARAMS =
    [param ''transport'' TRANSPORT_ENUM True (Some ''udp'')
       ''udp or tcp, matching how the switch is configured to send logs.'',
     param ''listen_address'' Str True (Some ''0.0.0.0:515'')
       ''Address to listen on -- e.g. 0.0.0.0:515.'']"

definition build_cisco_catalyst :: "json \<Rightarrow> json" where
  "build_cisco_catalyst params =
    (let m = [];
         m = set_path m ''protocol'' (JString ''rfc3164'');
         m = set_transport m params ''0.0.0.0:515'';
         m = map_insert m ''operators'' (JArray
         [JObject
             [(''type'', JString ''regex_parser''),
              (''parse_from'', JString ''body''),
              (''parse_to'', JString ''attributes''),
              (''regex'', JString (raw ''^%(?P<facility>[A-Z0-9_]+)-(?P<severity>~d)-(?P<mnemonic>[A-Z0-9_]+):~s*(?P<message>.*)$'')),
              (''on_error'', JString ''send_quiet'')],
          JObject
             [(''type'', JString ''severity_parser''),
              (''parse_from'', JString ''attributes.severity''),
              (''preset'', JString ''default''),
              (''on_error'', JString ''send_quiet'')],
          add_op ''attributes.datasource'' ''cisco_ios'',
          add_op ''attributes.sourcetype'' ''cisco_catalyst_ts_parser'',
          move_op ''attributes.message'' ''body''])
     in JObject m)"

definition CISCO_MERAKI_PARAMS :: "field_spec list" where
  "CISCO_MERAKI_PARAMS =
    [param ''transport'' TRANSPORT_ENUM True (Some ''udp'')
       ''udp or tcp, matching the syslog server target configured in the Meraki dashboard.'',
     param ''listen_address'' Str True (Some ''0.0.0.0:516'')
       ''Address to listen on -- e.g. 0.0.0.0:516.'']"

definition build_cisco_meraki :: "json \<Rightarrow> json" where
  "build_cisco_meraki params =
    (let m = [];
         m = set_path m ''protocol'' (JString ''none'');
         m = set_transport m params ''0.0.0.0:516'';
         m = map_insert m ''operators'' (JArray
         [JObject
             [(''type'', JString ''regex_parser''),
              (''parse_from'', JString ''body''),
              (''parse_to'', JString ''attributes''),
              (''regex'', JString (raw ''^(?P<timestamp>~S+~s+~S+)~s+(?P<device>~S+)~s+(?P<log_type>~S+)~s+(?P<message>.*)$'')),
              (''on_error'', JString ''send_quiet'')],
          JObject
             [(''type'', JString ''key_value_parser''),
              (''parse_from'', JString ''attributes.message''),
              (''parse_to'', JString ''attributes''),
              (''on_error'', JString ''send_quiet'')],
          add_op ''attributes.datasource'' ''cisco_meraki'',
          add_op ''attributes.sourcetype'' ''cisco_meraki_ts_parser'',
          move_op ''attributes.message'' ''body''])
     in JObject m)"

definition UBIQUITI_PARAMS :: "field_spec list" where
  "UBIQUITI_PARAMS =
    [param ''transport'' TRANSPORT_ENUM True (Some ''udp'')
       ''udp or tcp, matching the UniFi controller/device's remote syslog config.'',
     param ''listen_address'' Str True (Some ''0.0.0.0:517'')
       ''Address to listen on -- e.g. 0.0.0.0:517.'']"

definition build_ubiquiti :: "json \<Rightarrow> json" where
  "build_ubiquiti params =
    (let m = [];
         m = set_path m ''protocol'' (JString ''rfc3164'');
         m = set_transport m params ''0.0.0.0:517'';
         m = map_insert m ''operators'' (JArray
         [add_op ''attributes.datasource'' ''ubiquiti'',
          add_op ''attributes.sourcetype'' ''ubiquiti_ts_parser''])
     in JObject m)"

definition HAPROXY_PARAMS :: "field_spec list" where
  "HAPROXY_PARAMS =
    [param ''transport'' TRANSPORT_ENUM True (Some ''udp'')
       ''udp or tcp, matching HAProxy's log target config.'',
     param ''listen_address'' Str True (Some ''0.0.0.0:518'')
       ''Address to listen on -- e.g. 0.0.0.0:518.'']"

definition build_haproxy :: "json \<Rightarrow> json" where
  "build_haproxy params =
    (let m = [];
         m = set_path m ''protocol'' (JString ''rfc3164'');
         m = set_transport m params ''0.0.0.0:518'';
         m = map_insert m ''operators'' (JArray
         [JObject
             [(''type'', JString ''regex_parser''),
              (''parse_from'', JString ''body''),
              (''parse_to'', JString ''attributes''),
              (''regex'', JString (raw ''^(?P<client_ip>[~d.:a-fA-F]+):(?P<client_port>~d+) ~[(?P<accept_date>[^~]]+)~] (?P<frontend>~S+) (?P<backend>~S+)/(?P<server>~S+) ~S+ (?P<status_code>~d+) (?P<bytes_read>~d+) ~S+ ~S+ ~S+ ~S+ ~S+ \"(?P<http_request>[^\"]*)\"$'')),
              (''on_error'', JString ''send_quiet'')],
          add_op ''attributes.datasource'' ''haproxy'',
          add_op ''attributes.sourcetype'' ''haproxy_ts_parser''])
     in JObject m)"

definition CEF_PARAMS :: "field_spec list" where
  "CEF_PARAMS =
    [param ''transport'' TRANSPORT_ENUM True (Some ''udp'')
       ''udp or tcp, matching the CEF-emitting device's syslog config.'',
     param ''listen_address'' Str True (Some ''0.0.0.0:519'')
       ''Address to listen on -- e.g. 0.0.0.0:519.'']"

definition build_cef :: "json \<Rightarrow> json" where
  "build_cef params =
    (let m = [];
         m = set_path m ''protocol'' (JString ''none'');
         m = set_transport m params ''0.0.0.0:519'';
         m = map_insert m ''operators'' (JArray
         [JObject
             [(''type'', JString ''regex_parser''),
              (''parse_from'', JString ''body''),
              (''parse_to'', JString ''attributes''),
              (''regex'', JString (raw ''^CEF:(?P<cef_version>~d)~|(?P<device_vendor>[^|]*)~|(?P<device_product>[^|]*)~|(?P<device_version>[^|]*)~|(?P<signature_id>[^|]*)~|(?P<name>[^|]*)~|(?P<cef_severity>[^|]*)~|(?P<extension>.*)$'')),
              (''on_error'', JString ''send_quiet'')],
          JObject
             [(''type'', JString ''key_value_parser''),
              (''parse_from'', JString ''attributes.extension''),
              (''parse_to'', JString ''attributes''),
              (''on_error'', JString ''send_quiet'')],
          add_op ''attributes.datasource'' ''cef'',
          add_op ''attributes.sourcetype'' ''cef_ts_parser''])
     in JObject m)"

definition GENERIC_SYSLOG_PARAMS :: "field_spec list" where
  "GENERIC_SYSLOG_PARAMS =
    [param ''transport'' TRANSPORT_ENUM True (Some ''udp'')
       ''udp or tcp, matching the sender's remote-syslog config.'',
     param ''listen_address'' Str True (Some ''0.0.0.0:1514'')
       ''Address to listen on -- e.g. 0.0.0.0:1514.'']"

definition build_generic_syslog :: "json \<Rightarrow> json" where
  "build_generic_syslog params =
    (let m = [];
         m = set_path m ''protocol'' (JString ''rfc5424'');
         m = set_transport m params ''0.0.0.0:1514'';
         m = map_insert m ''operators'' (JArray
         [add_op ''attributes.datasource'' ''generic_syslog'',
          add_op ''attributes.sourcetype'' ''generic_rsyslog'',
          move_op ''attributes.message'' ''body''])
     in JObject m)"

definition FILE_LOG_PARAMS :: "field_spec list" where
  "FILE_LOG_PARAMS =
    [param ''include'' StringList True None
       ''File glob(s) to tail -- e.g. /var/log/myapp/*.log.'',
     param ''sourcetype'' Str True None
       ''Sourcetype tag to add to every event from this file -- e.g. myapp.'']"

definition build_file_log :: "json \<Rightarrow> json" where
  "build_file_log params =
    (let m = [];
         include = (case get_path params ''include'' of Some v \<Rightarrow> v
        | None \<Rightarrow> JArray [(JString ''/var/log/*.log'')]);
         m = map_insert m ''include'' include;
         m = set_path m ''start_at'' (JString ''end'');
         sourcetype = param_str params ''sourcetype'' ''generic'';
         m = map_insert m ''operators'' (JArray
         [add_op ''attributes.sourcetype'' sourcetype])
     in JObject m)"

definition JSON_LOGS_PARAMS :: "field_spec list" where
  "JSON_LOGS_PARAMS =
    [param ''include'' StringList True None
       ''File glob(s) to tail -- e.g. /var/log/myapp/*.jsonl.'',
     param ''sourcetype'' Str False (Some ''json'')
       ''Sourcetype tag to add to every event from this file.'']"

definition build_json_logs :: "json \<Rightarrow> json" where
  "build_json_logs params =
    (let m = [];
         include = (case get_path params ''include'' of Some v \<Rightarrow> v
        | None \<Rightarrow> JArray [(JString ''/var/log/*.jsonl'')]);
         m = map_insert m ''include'' include;
         m = set_path m ''start_at'' (JString ''end'');
         sourcetype = param_str params ''sourcetype'' ''json'';
         m = map_insert m ''operators'' (JArray
         [JObject
             [(''type'', JString ''json_parser''),
              (''parse_from'', JString ''body''),
              (''parse_to'', JString ''attributes''),
              (''on_error'', JString ''send_quiet'')],
          add_op ''attributes.sourcetype'' sourcetype])
     in JObject m)"

definition W3C_LOGS_PARAMS :: "field_spec list" where
  "W3C_LOGS_PARAMS =
    [param ''include'' StringList True (Some (raw ''C:~inetpub~logs~LogFiles~W3SVC1~*.log''))
       (raw ''IIS log file glob(s) -- e.g. C:~inetpub~logs~LogFiles~W3SVC1~*.log.'')]"

definition build_w3c_logs :: "json \<Rightarrow> json" where
  "build_w3c_logs params =
    (let m = [];
         include = (case get_path params ''include'' of Some v \<Rightarrow> v
        | None \<Rightarrow> JArray [(JString (raw ''C:~inetpub~logs~LogFiles~W3SVC1~*.log''))]);
         m = map_insert m ''include'' include;
         m = set_path m ''start_at'' (JString ''end'');
         m = map_insert m ''operators'' (JArray
         [JObject
             [(''type'', JString ''regex_parser''),
              (''parse_from'', JString ''body''),
              (''parse_to'', JString ''attributes''),
              (''regex'', JString (raw ''^(?P<date>~S+) (?P<time>~S+) (?P<s_ip>~S+) (?P<method>~S+) (?P<uri_stem>~S+) (?P<uri_query>~S+) (?P<port>~S+) (?P<username>~S+) (?P<client_ip>~S+) (?P<user_agent>~S+) (?P<referer>~S+) (?P<status>~d+) (?P<substatus>~d+) (?P<win32_status>~d+) (?P<time_taken>~d+)$'')),
              (''on_error'', JString ''send_quiet'')],
          add_op ''attributes.sourcetype'' ''iis_w3c''])
     in JObject m)"

definition NGINX_PARAMS :: "field_spec list" where
  "NGINX_PARAMS =
    [param ''include'' StringList True (Some ''/var/log/nginx/access.log'')
       ''nginx access log file glob(s) -- e.g. /var/log/nginx/access.log.'']"

definition build_nginx :: "json \<Rightarrow> json" where
  "build_nginx params =
    (let m = [];
         include = (case get_path params ''include'' of Some v \<Rightarrow> v
        | None \<Rightarrow> JArray [(JString ''/var/log/nginx/access.log'')]);
         m = map_insert m ''include'' include;
         m = set_path m ''start_at'' (JString ''end'');
         m = map_insert m ''operators'' (JArray
         [JObject
             [(''type'', JString ''regex_parser''),
              (''parse_from'', JString ''body''),
              (''parse_to'', JString ''attributes''),
              (''regex'', JString (raw ''^(?P<remote_addr>~S+) - (?P<remote_user>~S+) ~[(?P<time_local>[^~]]+)~] \"(?P<request>[^\"]*)\" (?P<status>~d+) (?P<bytes_sent>~d+) \"(?P<referer>[^\"]*)\" \"(?P<user_agent>[^\"]*)\"$'')),
              (''on_error'', JString ''send_quiet'')],
          add_op ''attributes.sourcetype'' ''nginx_access''])
     in JObject m)"

definition WINDOWS_DHCP_PARAMS :: "field_spec list" where
  "WINDOWS_DHCP_PARAMS =
    [param ''include'' StringList True (Some (raw ''C:~Windows~System32~dhcp~DhcpSrvLog-*.log''))
       (raw ''DHCP server audit log glob(s) -- e.g. C:~Windows~System32~dhcp~DhcpSrvLog-*.log.'')]"

definition build_windows_dhcp :: "json \<Rightarrow> json" where
  "build_windows_dhcp params =
    (let m = [];
         include = (case get_path params ''include'' of Some v \<Rightarrow> v
        | None \<Rightarrow> JArray [(JString (raw ''C:~Windows~System32~dhcp~DhcpSrvLog-*.log''))]);
         m = map_insert m ''include'' include;
         m = set_path m ''start_at'' (JString ''end'');
         m = map_insert m ''operators'' (JArray
         [JObject
             [(''type'', JString ''regex_parser''),
              (''parse_from'', JString ''body''),
              (''parse_to'', JString ''attributes''),
              (''regex'', JString (raw ''^(?P<event_id>~d+),(?P<date>[^,]*),(?P<time>[^,]*),(?P<description>[^,]*),(?P<ip_address>[^,]*),(?P<host_name>[^,]*),(?P<mac_address>[^,]*),(?P<rest>.*)$'')),
              (''on_error'', JString ''send_quiet'')],
          add_op ''attributes.sourcetype'' ''windows_dhcp''])
     in JObject m)"

definition ACTIVE_DIRECTORY_PARAMS :: "field_spec list" where
  "ACTIVE_DIRECTORY_PARAMS =
    [param ''channel'' Str True (Some ''Security'')
       ''Windows Event Log channel to read -- Security covers logon/account/AD events; some environments also use Directory Service.'']"

definition build_active_directory :: "json \<Rightarrow> json" where
  "build_active_directory params =
    (let m = [];
         channel = param_str params ''channel'' ''Security'';
         m = map_insert m ''channel'' (JString channel);
         m = map_insert m ''query'' (JString ''*'');
         m = map_insert m ''operators'' (JArray
         [add_op ''attributes.sourcetype'' ''windows_security'',
          add_op ''attributes.datasource'' ''active_directory''])
     in JObject m)"

definition MYSQL_PARAMS :: "field_spec list" where
  "MYSQL_PARAMS =
    [param ''include'' StringList True (Some ''/var/log/mysql/error.log'')
       ''MySQL error log glob(s) -- e.g. /var/log/mysql/error.log.'']"

definition build_mysql :: "json \<Rightarrow> json" where
  "build_mysql params =
    (let m = [];
         include = (case get_path params ''include'' of Some v \<Rightarrow> v
        | None \<Rightarrow> JArray [(JString ''/var/log/mysql/error.log'')]);
         m = map_insert m ''include'' include;
         m = set_path m ''start_at'' (JString ''end'');
         m = map_insert m ''operators'' (JArray
         [JObject
             [(''type'', JString ''regex_parser''),
              (''parse_from'', JString ''body''),
              (''parse_to'', JString ''attributes''),
              (''regex'', JString (raw ''^(?P<timestamp>~S+)~s+(?P<thread_id>~d+)~s+~[(?P<level>~w+)~]~s+~[(?P<error_code>[~w-]+)~]~s+~[(?P<subsystem>[~w.]+)~]~s+(?P<message>.*)$'')),
              (''on_error'', JString ''send_quiet'')],
          add_op ''attributes.sourcetype'' ''mysql_error''])
     in JObject m)"

definition POSTGRESQL_PARAMS :: "field_spec list" where
  "POSTGRESQL_PARAMS =
    [param ''include'' StringList True (Some ''/var/log/postgresql/postgresql-*.log'')
       ''PostgreSQL log file glob(s) -- e.g. /var/log/postgresql/postgresql-*.log.'']"

definition build_postgresql :: "json \<Rightarrow> json" where
  "build_postgresql params =
    (let m = [];
         include = (case get_path params ''include'' of Some v \<Rightarrow> v
        | None \<Rightarrow> JArray [(JString ''/var/log/postgresql/postgresql-*.log'')]);
         m = map_insert m ''include'' include;
         m = set_path m ''start_at'' (JString ''end'');
         m = map_insert m ''operators'' (JArray
         [JObject
             [(''type'', JString ''regex_parser''),
              (''parse_from'', JString ''body''),
              (''parse_to'', JString ''attributes''),
              (''regex'', JString (raw ''^(?P<timestamp>~d{4}-~d{2}-~d{2} ~d{2}:~d{2}:~d{2}~.~d+ ~w+) ~[(?P<pid>~d+)~] (?P<level>~w+):~s+(?P<message>.*)$'')),
              (''on_error'', JString ''send_quiet'')],
          add_op ''attributes.sourcetype'' ''postgresql''])
     in JObject m)"

definition SQL_SERVER_PARAMS :: "field_spec list" where
  "SQL_SERVER_PARAMS =
    [param ''include'' StringList True (Some ''/var/opt/mssql/log/errorlog'')
       ''SQL Server error log glob(s) -- e.g. /var/opt/mssql/log/errorlog (Linux/container default) or the ERRORLOG file under Windows's MSSQL log directory.'']"

definition build_sql_server :: "json \<Rightarrow> json" where
  "build_sql_server params =
    (let m = [];
         include = (case get_path params ''include'' of Some v \<Rightarrow> v
        | None \<Rightarrow> JArray [(JString ''/var/opt/mssql/log/errorlog'')]);
         m = map_insert m ''include'' include;
         m = set_path m ''start_at'' (JString ''end'');
         m = map_insert m ''operators'' (JArray
         [JObject
             [(''type'', JString ''regex_parser''),
              (''parse_from'', JString ''body''),
              (''parse_to'', JString ''attributes''),
              (''regex'', JString (raw ''^(?P<date>~d{4}-~d{2}-~d{2}) (?P<time>~d{2}:~d{2}:~d{2}~.~d+) (?P<spid>~S+)~s+(?P<message>.*)$'')),
              (''on_error'', JString ''send_quiet'')],
          add_op ''attributes.sourcetype'' ''sql_server''])
     in JObject m)"

definition KAFKA_PARAMS :: "field_spec list" where
  "KAFKA_PARAMS =
    [param ''include'' StringList True (Some ''/var/log/kafka/server.log'')
       ''Kafka broker log glob(s) -- e.g. /var/log/kafka/server.log.'']"

definition build_kafka :: "json \<Rightarrow> json" where
  "build_kafka params =
    (let m = [];
         include = (case get_path params ''include'' of Some v \<Rightarrow> v
        | None \<Rightarrow> JArray [(JString ''/var/log/kafka/server.log'')]);
         m = map_insert m ''include'' include;
         m = set_path m ''start_at'' (JString ''end'');
         m = map_insert m ''operators'' (JArray
         [JObject
             [(''type'', JString ''regex_parser''),
              (''parse_from'', JString ''body''),
              (''parse_to'', JString ''attributes''),
              (''regex'', JString (raw ''^~[(?P<timestamp>[~d-]+ [~d:,]+)~]~s+(?P<level>~w+)~s+(?P<message>.*?)~s+~((?P<logger>[~w.$]+)~)$'')),
              (''on_error'', JString ''send_quiet'')],
          add_op ''attributes.sourcetype'' ''kafka''])
     in JObject m)"

definition HADOOP_PARAMS :: "field_spec list" where
  "HADOOP_PARAMS =
    [param ''include'' StringList True (Some ''/var/log/hadoop/*.log'')
       ''Hadoop daemon log glob(s) -- e.g. /var/log/hadoop/*.log.'']"

definition build_hadoop :: "json \<Rightarrow> json" where
  "build_hadoop params =
    (let m = [];
         include = (case get_path params ''include'' of Some v \<Rightarrow> v
        | None \<Rightarrow> JArray [(JString ''/var/log/hadoop/*.log'')]);
         m = map_insert m ''include'' include;
         m = set_path m ''start_at'' (JString ''end'');
         m = map_insert m ''operators'' (JArray
         [JObject
             [(''type'', JString ''regex_parser''),
              (''parse_from'', JString ''body''),
              (''parse_to'', JString ''attributes''),
              (''regex'', JString (raw ''^(?P<timestamp>[~d-]+ [~d:,]+)~s+(?P<level>~w+)~s+~[(?P<thread>[^~]]+)~]~s+(?P<logger>~S+):~s+(?P<message>.*)$'')),
              (''on_error'', JString ''send_quiet'')],
          add_op ''attributes.sourcetype'' ''hadoop''])
     in JObject m)"

definition SOURCE_TEMPLATES :: "source_template list" where
  "SOURCE_TEMPLATES =
    [\<lparr>tkey = ''cisco_asa'', ttitle = ''Cisco ASA (syslog)'', tcategory = NetworkSecurity,
      tdescription = ''Cisco ASA firewall, RFC 3164 syslog with the %ASA-severity-msgid: message grammar.'',
      treceiver_type = ''syslog'', tdefault_id = ''syslog/cisco_asa'',
      tparams = CISCO_ASA_PARAMS, tbuild = build_cisco_asa\<rparr>,
     \<lparr>tkey = ''cisco_catalyst'', ttitle = ''Cisco Catalyst / IOS (syslog)'', tcategory = NetworkSecurity,
      tdescription = ''Cisco IOS switches/routers, RFC 3164 syslog with the %FACILITY-severity-MNEMONIC: message grammar.'',
      treceiver_type = ''syslog'', tdefault_id = ''syslog/cisco_catalyst'',
      tparams = CISCO_CATALYST_PARAMS, tbuild = build_cisco_catalyst\<rparr>,
     \<lparr>tkey = ''cisco_meraki'', ttitle = ''Cisco Meraki (syslog)'', tcategory = NetworkSecurity,
      tdescription = ''Meraki dashboard syslog export (flows/events/urls). Best-effort parsing -- Meraki's exact message shape varies by log type.'',
      treceiver_type = ''syslog'', tdefault_id = ''syslog/cisco_meraki'',
      tparams = CISCO_MERAKI_PARAMS, tbuild = build_cisco_meraki\<rparr>,
     \<lparr>tkey = ''ubiquiti'', ttitle = ''Ubiquiti / UniFi (syslog)'', tcategory = NetworkSecurity,
      tdescription = ''UniFi APs/switches/gateways, RFC 3164 syslog. No vendor-specific parsing -- message format varies by device type.'',
      treceiver_type = ''syslog'', tdefault_id = ''syslog/ubiquiti'',
      tparams = UBIQUITI_PARAMS, tbuild = build_ubiquiti\<rparr>,
     \<lparr>tkey = ''haproxy'', ttitle = ''HAProxy (syslog)'', tcategory = NetworkSecurity,
      tdescription = ''HAProxy's default httplog format. HAProxy's log format is configurable, so this covers the common default.'',
      treceiver_type = ''syslog'', tdefault_id = ''syslog/haproxy'',
      tparams = HAPROXY_PARAMS, tbuild = build_haproxy\<rparr>,
     \<lparr>tkey = ''cef'', ttitle = ''CEF -- Common Event Format (syslog)'', tcategory = NetworkSecurity,
      tdescription = ''Any device emitting CEF over syslog (ArcSight-style CEF:0|Vendor|Product|...|Extension).'',
      treceiver_type = ''syslog'', tdefault_id = ''syslog/cef'',
      tparams = CEF_PARAMS, tbuild = build_cef\<rparr>,
     \<lparr>tkey = ''generic_syslog'', ttitle = ''Generic syslog (RFC 5424)'', tcategory = Generic,
      tdescription = ''Modern Linux hosts / rsyslog's default remote-forwarding template -- structured envelope, no vendor-specific regex needed.'',
      treceiver_type = ''syslog'', tdefault_id = ''syslog/generic'',
      tparams = GENERIC_SYSLOG_PARAMS, tbuild = build_generic_syslog\<rparr>,
     \<lparr>tkey = ''file_log'', ttitle = ''Generic file tailing'', tcategory = Generic,
      tdescription = ''Tail any log file with no parsing beyond tagging a sourcetype -- a starting point for a format none of the other templates cover.'',
      treceiver_type = ''file_log'', tdefault_id = ''file_log/app'',
      tparams = FILE_LOG_PARAMS, tbuild = build_file_log\<rparr>,
     \<lparr>tkey = ''json_logs'', ttitle = ''JSON logs'', tcategory = Generic,
      tdescription = ''One JSON object per line -- parsed and merged into attributes.'',
      treceiver_type = ''file_log'', tdefault_id = ''file_log/json'',
      tparams = JSON_LOGS_PARAMS, tbuild = build_json_logs\<rparr>,
     \<lparr>tkey = ''w3c_logs'', ttitle = ''W3C / IIS extended log'', tcategory = Generic,
      tdescription = ''IIS's default W3C extended log field selection.'',
      treceiver_type = ''file_log'', tdefault_id = ''file_log/iis'',
      tparams = W3C_LOGS_PARAMS, tbuild = build_w3c_logs\<rparr>,
     \<lparr>tkey = ''nginx'', ttitle = ''nginx access log'', tcategory = Generic,
      tdescription = ''nginx's default combined log_format.'',
      treceiver_type = ''file_log'', tdefault_id = ''file_log/nginx'',
      tparams = NGINX_PARAMS, tbuild = build_nginx\<rparr>,
     \<lparr>tkey = ''windows_dhcp'', ttitle = ''Windows DHCP server log'', tcategory = Windows,
      tdescription = ''Microsoft DHCP server audit log (flat CSV file, not the Event Log) -- captures the security-relevant lease/host fields.'',
      treceiver_type = ''file_log'', tdefault_id = ''file_log/windows_dhcp'',
      tparams = WINDOWS_DHCP_PARAMS, tbuild = build_windows_dhcp\<rparr>,
     \<lparr>tkey = ''active_directory'', ttitle = ''Active Directory (Windows Event Log)'', tcategory = Windows,
      tdescription = ''Domain controller Security channel events (logon/account/AD activity). Windows-only at runtime, like any windows_event_log receiver.'',
      treceiver_type = ''windows_event_log'', tdefault_id = ''windows_event_log/active_directory'',
      tparams = ACTIVE_DIRECTORY_PARAMS, tbuild = build_active_directory\<rparr>,
     \<lparr>tkey = ''mysql'', ttitle = ''MySQL error log'', tcategory = Database,
      tdescription = ''MySQL 8+'s default error log format ([level] [error_code] [subsystem] message).'',
      treceiver_type = ''file_log'', tdefault_id = ''file_log/mysql'',
      tparams = MYSQL_PARAMS, tbuild = build_mysql\<rparr>,
     \<lparr>tkey = ''postgresql'', ttitle = ''PostgreSQL log'', tcategory = Database,
      tdescription = ''Postgres's common log_line_prefix default (%m [%p] ). log_line_prefix is configurable, so this covers the common default.'',
      treceiver_type = ''file_log'', tdefault_id = ''file_log/postgresql'',
      tparams = POSTGRESQL_PARAMS, tbuild = build_postgresql\<rparr>,
     \<lparr>tkey = ''sql_server'', ttitle = ''SQL Server error log'', tcategory = Database,
      tdescription = ''SQL Server's error log format (date time.ms spid message) -- works for both Linux/container and Windows installs.'',
      treceiver_type = ''file_log'', tdefault_id = ''file_log/sql_server'',
      tparams = SQL_SERVER_PARAMS, tbuild = build_sql_server\<rparr>,
     \<lparr>tkey = ''kafka'', ttitle = ''Kafka broker log'', tcategory = Messaging,
      tdescription = ''Kafka's default log4j pattern ([timestamp] level message (logger)).'',
      treceiver_type = ''file_log'', tdefault_id = ''file_log/kafka'',
      tparams = KAFKA_PARAMS, tbuild = build_kafka\<rparr>,
     \<lparr>tkey = ''hadoop'', ttitle = ''Hadoop daemon log'', tcategory = Messaging,
      tdescription = ''Hadoop's default log4j pattern (timestamp level [thread] logger: message).'',
      treceiver_type = ''file_log'', tdefault_id = ''file_log/hadoop'',
      tparams = HADOOP_PARAMS, tbuild = build_hadoop\<rparr>]"

definition template_find :: "string \<Rightarrow> source_template option" where
  "template_find k = find (\<lambda>t. tkey t = k) SOURCE_TEMPLATES"

section \<open>What a template promises\<close>

text \<open>
  A value fits a component type when it has the type's required fields and no top-level key
  but those of its fields and \<open>type\<close>. For a receiver \<open>except\<close> names the field that a
  transport choice leaves out.
\<close>

definition path_heads :: "field_spec list \<Rightarrow> string list" where
  "path_heads specs = map (\<lambda>s. hd (split_on (CHR ''.'') (fkey s))) specs"

definition fits :: "string list \<Rightarrow> component_type_spec \<Rightarrow> json \<Rightarrow> bool" where
  "fits except spec v \<longleftrightarrow>
     list_all (\<lambda>s. frequired s \<and> \<not> List.member except (fkey s) \<longrightarrow> get_path v (fkey s) \<noteq> None)
       (ct_fields spec) \<and>
     (case v of
        JObject m \<Rightarrow> list_all (List.member (''type'' # path_heads (ct_fields spec))) (map_keys m)
      | _ \<Rightarrow> False)"

definition operator_fits :: "json \<Rightarrow> bool" where
  "operator_fits op \<longleftrightarrow>
     (case Option.bind (json_get op ''type'') as_str of
        None \<Rightarrow> False
      | Some n \<Rightarrow> (case operator_type n of None \<Rightarrow> False | Some s \<Rightarrow> fits [] s op))"

definition operators_fit :: "json list \<Rightarrow> bool" where
  "operators_fit ops \<longleftrightarrow> ops \<noteq> [] \<and> list_all operator_fits ops"

definition one_transport :: "json \<Rightarrow> bool" where
  "one_transport v \<longleftrightarrow>
     (get_path v ''udp.listen_address'' = None) \<noteq> (get_path v ''tcp.listen_address'' = None)"

definition receiver_fits :: "string \<Rightarrow> json \<Rightarrow> bool" where
  "receiver_fits ty v \<longleftrightarrow>
     (case type_spec Receiver ty of
        None \<Rightarrow> False
      | Some s \<Rightarrow> fits [''udp.listen_address''] s v) \<and>
     (ty = ''syslog'' \<longrightarrow> one_transport v) \<and>
     (case json_get v ''operators'' of Some (JArray ops) \<Rightarrow> operators_fit ops | _ \<Rightarrow> False)"

subsection \<open>The builders in closed form\<close>

definition transport_entries :: "json \<Rightarrow> string \<Rightarrow> json_map" where
  "transport_entries params default_addr =
     (let addr = JObject [(''listen_address'', JString (param_str params ''listen_address'' default_addr))] in
      if param_str params ''transport'' ''udp'' = ''tcp''
      then [(''tcp'', addr), (''enable_octet_counting'', JBool True)]
      else [(''udp'', addr)])"

lemma syslog_built:
  "map_insert (set_transport (set_path [] ''protocol'' pr) params addr) ''operators'' ops =
     (''protocol'', pr) # transport_entries params addr @ [(''operators'', ops)]"
  by (simp add: set_transport_def transport_entries_def set_path.simps map_insert_def map_get_def
      Let_def)

lemma file_built:
  "map_insert (set_path (map_insert [] ''include'' inc) ''start_at'' start) ''operators'' ops =
     [(''include'', inc), (''start_at'', start), (''operators'', ops)]"
  by (simp add: set_path.simps map_insert_def map_get_def)

lemma event_log_built:
  "map_insert (map_insert (map_insert [] ''channel'' ch) ''query'' q) ''operators'' ops =
     [(''channel'', ch), (''query'', q), (''operators'', ops)]"
  by (simp add: map_insert_def)

lemma syslog_fits:
  assumes "operators_fit ops"
  shows "receiver_fits ''syslog''
    (JObject ((''protocol'', pr) # transport_entries params addr @ [(''operators'', JArray ops)]))"
proof (cases "param_str params ''transport'' ''udp'' = ''tcp''")
  case True
  with assms show ?thesis
    by (simp add: receiver_fits_def type_spec_def types_for.simps RECEIVER_TYPES_def fits_def
        SYSLOG_FIELDS_def OPERATORS_def path_heads_def get_path_def one_transport_def
        transport_entries_def map_get_def map_keys_def Let_def)
next
  case False
  with assms show ?thesis
    by (simp add: receiver_fits_def type_spec_def types_for.simps RECEIVER_TYPES_def fits_def
        SYSLOG_FIELDS_def OPERATORS_def path_heads_def get_path_def one_transport_def
        transport_entries_def map_get_def map_keys_def Let_def)
qed

lemma file_fits:
  "operators_fit ops \<Longrightarrow> receiver_fits ''file_log''
    (JObject [(''include'', inc), (''start_at'', start), (''operators'', JArray ops)])"
  by (simp add: receiver_fits_def type_spec_def types_for.simps RECEIVER_TYPES_def fits_def
      FILE_LOG_FIELDS_def OPERATORS_def STORAGE_def path_heads_def get_path_def
      map_get_def map_keys_def)

lemma event_log_fits:
  "operators_fit ops \<Longrightarrow> receiver_fits ''windows_event_log''
    (JObject [(''channel'', ch), (''query'', q), (''operators'', JArray ops)])"
  by (simp add: receiver_fits_def type_spec_def types_for.simps RECEIVER_TYPES_def fits_def
      WINDOWS_EVENT_LOG_FIELDS_def OPERATORS_def STORAGE_def path_heads_def get_path_def
      map_get_def map_keys_def)

lemma add_op_fits: "operator_fits (add_op field v)"
  by (simp add: operator_fits_def add_op_def operator_type_def OPERATOR_TYPES_def fits_def
      ADD_FIELDS_def path_heads_def get_path_def map_get_def map_keys_def)

lemma syslog_builders_fit:
  "receiver_fits ''syslog'' (build_cisco_asa p)"
  "receiver_fits ''syslog'' (build_cisco_catalyst p)"
  "receiver_fits ''syslog'' (build_cisco_meraki p)"
  "receiver_fits ''syslog'' (build_ubiquiti p)"
  "receiver_fits ''syslog'' (build_haproxy p)"
  "receiver_fits ''syslog'' (build_cef p)"
  "receiver_fits ''syslog'' (build_generic_syslog p)"
  unfolding build_cisco_asa_def build_cisco_catalyst_def build_cisco_meraki_def build_ubiquiti_def
    build_haproxy_def build_cef_def build_generic_syslog_def Let_def syslog_built
  by (rule syslog_fits, code_simp)+

lemma file_builders_fit:
  "receiver_fits ''file_log'' (build_w3c_logs p)"
  "receiver_fits ''file_log'' (build_nginx p)"
  "receiver_fits ''file_log'' (build_windows_dhcp p)"
  "receiver_fits ''file_log'' (build_mysql p)"
  "receiver_fits ''file_log'' (build_postgresql p)"
  "receiver_fits ''file_log'' (build_sql_server p)"
  "receiver_fits ''file_log'' (build_kafka p)"
  "receiver_fits ''file_log'' (build_hadoop p)"
  unfolding build_w3c_logs_def build_nginx_def build_windows_dhcp_def build_mysql_def
    build_postgresql_def build_sql_server_def build_kafka_def build_hadoop_def Let_def file_built
  by (rule file_fits, code_simp)+

lemma tagging_builders_fit:
  "receiver_fits ''file_log'' (build_file_log p)"
  "receiver_fits ''file_log'' (build_json_logs p)"
  "receiver_fits ''windows_event_log'' (build_active_directory p)"
proof -
  have json_parser: "operator_fits (JObject
    [(''type'', JString ''json_parser''), (''parse_from'', JString ''body''),
     (''parse_to'', JString ''attributes''), (''on_error'', JString ''send_quiet'')])"
    by code_simp
  show "receiver_fits ''file_log'' (build_file_log p)"
    unfolding build_file_log_def Let_def file_built
    by (rule file_fits) (simp add: operators_fit_def add_op_fits)
  show "receiver_fits ''file_log'' (build_json_logs p)"
    unfolding build_json_logs_def Let_def file_built
    by (rule file_fits) (simp add: operators_fit_def add_op_fits json_parser)
  show "receiver_fits ''windows_event_log'' (build_active_directory p)"
    unfolding build_active_directory_def Let_def event_log_built
    by (rule event_log_fits) (simp add: operators_fit_def add_op_fits)
qed

lemma template_fits:
  "t \<in> set SOURCE_TEMPLATES \<Longrightarrow> receiver_fits (treceiver_type t) (tbuild t p)"
  unfolding SOURCE_TEMPLATES_def
  by (auto simp: syslog_builders_fit file_builders_fit tagging_builders_fit)

subsection \<open>The table\<close>

definition template_ok :: "source_template \<Rightarrow> bool" where
  "template_ok t \<longleftrightarrow>
     component_type (tdefault_id t) = treceiver_type t \<and>
     tdefault_id t \<noteq> treceiver_type t \<and>
     type_spec Receiver (treceiver_type t) \<noteq> None \<and>
     ttitle t \<noteq> [] \<and> tdescription t \<noteq> [] \<and>
     tparams t \<noteq> [] \<and> fields_ok (tparams t) \<and>
     list_all (\<lambda>s. fhelp s \<noteq> [] \<and> fkind s \<noteq> OperatorList) (tparams t)"

lemma templates_ok: "list_all template_ok SOURCE_TEMPLATES"
  by code_simp

lemma template_keys_distinct: "distinct (map tkey SOURCE_TEMPLATES)"
  by code_simp

interpretation templates: keyed_table SOURCE_TEMPLATES tkey template_find
  by unfold_locales (simp_all add: template_keys_distinct template_find_def)

lemma template_find_ok:
  "template_find k = Some t \<Longrightarrow> template_ok t"
  using templates_ok by (auto dest!: templates.lookup_SomeD simp: list_all_iff)

lemma template_params_keys_ok: "list_all (\<lambda>t. keys_ok False (tparams t)) SOURCE_TEMPLATES"
  by code_simp

lemma syslog_keys_ok: "keys_ok False SYSLOG_FIELDS"
  by code_simp

lemma operator_keys_ok: "list_all (\<lambda>s. keys_ok True (ct_fields s)) operator_types"
  by code_simp

lemma component_keys_ok: "s \<in> set (types_for category) \<Longrightarrow> keys_ok False (ct_fields s)"
  using types_for_nth_fields_ok by (simp add: keys_ok_def)

section \<open>A TCP receiver opened in its form\<close>

text \<open>
  \<open>udp.listen_address\<close> has a default, which the form shows and then writes when the value has
  none: opening and submitting a receiver that listens over TCP adds a UDP listener.
\<close>

lemma udp_field:
  "\<exists>s \<in> set SYSLOG_FIELDS. fkey s = ''udp.listen_address'' \<and> fkind s = Str \<and>
     fdefault s = Some ''0.0.0.0:514''"
  "\<exists>s \<in> set SYSLOG_FIELDS. fkey s = ''tcp.listen_address'' \<and> fkind s = Str \<and> fdefault s = None"
  by (simp_all add: SYSLOG_FIELDS_def)

lemma tcp_receiver_reopened:
  assumes "input_laws ui"
    and "get_path v ''udp.listen_address'' = None"
    and "get_path v ''tcp.listen_address'' = Some (JString a)" and "a \<noteq> []"
    and sub: "submit ui ty False SYSLOG_FIELDS v = Some v'"
  shows "get_path v' ''udp.listen_address'' = Some (JString ''0.0.0.0:514'') \<and>
    get_path v' ''tcp.listen_address'' = Some (JString a)"
proof -
  obtain s where s: "s \<in> set SYSLOG_FIELDS" "fkey s = ''udp.listen_address''" "fkind s = Str"
    "fdefault s = Some ''0.0.0.0:514''"
    using udp_field(1) by blast
  have "submit_field ui s v = Some (Some (JString ''0.0.0.0:514''))"
    using s assms(1,2)
    by (simp add: submit_field_def field_edit_state_from_def input_laws_new)
  with submit_get [OF syslog_keys_ok sub s(1)] s(2)
  have udp: "get_path v' ''udp.listen_address'' = Some (JString ''0.0.0.0:514'')" by simp
  obtain t where t: "t \<in> set SYSLOG_FIELDS" "fkey t = ''tcp.listen_address''" "fkind t = Str"
    using udp_field(2) by blast
  have "submit_field ui t v = Some (Some (JString a))"
    using t assms(1,3,4)
    by (simp add: submit_field_def field_edit_state_from_def input_laws_new
        value_to_display_string_def)
  with submit_get [OF syslog_keys_ok sub t(1)] t(2) udp show ?thesis by simp
qed

end
