(* ===== verification/Document.thy ===== *)
theory Document
imports Schema
begin

text \<open>
  The document of \<open>editor/model.rs\<close>: \<open>EditorDoc\<close>, its conversion from and to a JSON
  value, the references from pipelines to components, and the placeholder copy that is
  validated. Reading and writing the file is in the theory Persist.
\<close>

section \<open>The document\<close>

record editor_doc =
  receivers :: json_map
  exporters :: json_map
  extensions :: json_map
  pipelines :: json_map

definition doc_new :: editor_doc where
  "doc_new = \<lparr>receivers = [], exporters = [], extensions = [], pipelines = []\<rparr>"

text \<open>The body of \<open>parse\<close> after the YAML text has become a value.\<close>

definition object_of :: "json option \<Rightarrow> json_map" where
  "object_of v = (case Option.bind v as_object of Some m \<Rightarrow> m | None \<Rightarrow> [])"

definition doc_of_value :: "json \<Rightarrow> editor_doc" where
  "doc_of_value doc =
     (let obj = object_of (Some doc);
          get_map = (\<lambda>k. object_of (map_get obj k))
      in \<lparr>receivers = get_map ''receivers'',
          exporters = get_map ''exporters'',
          extensions = get_map ''extensions'',
          pipelines = object_of
            (Option.bind (map_get obj ''service'') (\<lambda>s. json_get s ''pipelines''))\<rparr>)"

text \<open>\<open>EditorDoc::to_value\<close>: every defined extension is listed, sorted.\<close>

definition doc_to_value :: "editor_doc \<Rightarrow> json" where
  "doc_to_value doc =
     (let extension_ids = sort (map_keys (extensions doc)) in
      JObject
        [(''receivers'', JObject (receivers doc)),
         (''exporters'', JObject (exporters doc)),
         (''extensions'', JObject (extensions doc)),
         (''service'', JObject
            [(''extensions'', JArray (map JString extension_ids)),
             (''pipelines'', JObject (pipelines doc))])])"

section \<open>References from pipelines\<close>

definition category_key :: "component_category \<Rightarrow> string option" where
  "category_key category =
     (case category of
        Receiver \<Rightarrow> Some ''receivers''
      | Exporter \<Rightarrow> Some ''exporters''
      | Extension \<Rightarrow> None)"

text \<open>The closure of \<open>pipelines_referencing\<close>: does the list under \<open>k\<close> mention \<open>cid\<close>?\<close>

definition references :: "string \<Rightarrow> string \<Rightarrow> json \<Rightarrow> bool" where
  "references k cid def =
     (case Option.bind (json_get def k) as_array of
        Some arr \<Rightarrow> list_ex (\<lambda>v. as_str v = Some cid) arr
      | None \<Rightarrow> False)"

definition pipelines_referencing ::
  "editor_doc \<Rightarrow> component_category \<Rightarrow> string \<Rightarrow> string list" where
  "pipelines_referencing doc category cid =
     (case category_key category of
        None \<Rightarrow> []
      | Some k \<Rightarrow> sort (map fst (filter (\<lambda>p. references k cid (snd p)) (pipelines doc))))"

text \<open>\<open>Vec::retain\<close> on the list under \<open>k\<close>, if there is one.\<close>

definition strip_def :: "string \<Rightarrow> string \<Rightarrow> json \<Rightarrow> json" where
  "strip_def k cid def =
     (case def of
        JObject m \<Rightarrow>
          (case map_get m k of
             Some (JArray arr) \<Rightarrow>
               JObject (map_insert m k (JArray (filter (\<lambda>v. as_str v \<noteq> Some cid) arr)))
           | _ \<Rightarrow> def)
      | _ \<Rightarrow> def)"

definition strip_from_pipelines ::
  "component_category \<Rightarrow> string \<Rightarrow> editor_doc \<Rightarrow> editor_doc" where
  "strip_from_pipelines category cid doc =
     (case category_key category of
        None \<Rightarrow> doc
      | Some k \<Rightarrow> doc\<lparr>pipelines := map (\<lambda>(name, def). (name, strip_def k cid def)) (pipelines doc)\<rparr>)"

section \<open>The copy that is validated\<close>

fun placeholder_for_validation :: "json \<Rightarrow> json" where
  "placeholder_for_validation (JString s) =
     (if str_contains ''${'' s then JString ''placeholder-value'' else JString s)"
| "placeholder_for_validation (JObject m) =
     JObject (map_collect (map (\<lambda>(k, v). (k, placeholder_for_validation v)) m))"
| "placeholder_for_validation (JArray arr) = JArray (map placeholder_for_validation arr)"
| "placeholder_for_validation other = other"

section \<open>Lemmas\<close>

subsection \<open>Round trip\<close>

lemma doc_of_to_value: "doc_of_value (doc_to_value doc) = doc"
  by (simp add: doc_of_value_def doc_to_value_def object_of_def map_get_def Let_def)

text \<open>What a value loses when it passes through the document.\<close>

lemma doc_to_value_keys:
  "map_keys (object_of (Some (doc_to_value doc))) =
     [''receivers'', ''exporters'', ''extensions'', ''service'']"
  by (simp add: doc_to_value_def object_of_def map_keys_def Let_def)

lemma doc_to_value_service_keys:
  "Option.bind (json_get (doc_to_value doc) ''service'') as_object =
     Some [(''extensions'', JArray (map JString (sort (map_keys (extensions doc))))),
           (''pipelines'', JObject (pipelines doc))]"
  by (simp add: doc_to_value_def map_get_def Let_def)

subsection \<open>Well-formed documents\<close>

definition doc_ok :: "editor_doc \<Rightarrow> bool" where
  "doc_ok doc \<longleftrightarrow>
     map_ok (receivers doc) \<and> map_ok (exporters doc) \<and> map_ok (extensions doc) \<and>
     map_ok (pipelines doc)"

lemma doc_ok_new [simp]: "doc_ok doc_new"
  by (simp add: doc_ok_def doc_new_def)

subsection \<open>Stripping references\<close>

lemma json_get_scalar [simp]:
  "json_get JNull k = None" "json_get (JBool b) k = None" "json_get (JNumber n) k = None"
  "json_get (JString s) k = None" "json_get (JArray arr) k = None"
  by (simp_all add: json_get_def)

lemma references_strip_same [simp]: "\<not> references k cid (strip_def k cid def)"
  by (auto simp: references_def strip_def_def map_get_insert list_ex_iff
      split: json.split option.split)

lemma list_ex_filter_other:
  "cid' \<noteq> cid \<Longrightarrow>
   list_ex (\<lambda>v. as_str v = Some cid') (filter (\<lambda>v. as_str v \<noteq> Some cid) arr) =
   list_ex (\<lambda>v. as_str v = Some cid') arr"
  by (auto simp: list_ex_iff)

lemma references_strip_other [simp]:
  "k' \<noteq> k \<or> cid' \<noteq> cid \<Longrightarrow> references k' cid' (strip_def k cid def) = references k' cid' def"
  by (auto simp: references_def strip_def_def map_get_insert list_ex_filter_other
      split: json.split option.split)

lemma strip_keeps [doc_simps]:
  "receivers (strip_from_pipelines c cid doc) = receivers doc"
  "exporters (strip_from_pipelines c cid doc) = exporters doc"
  "extensions (strip_from_pipelines c cid doc) = extensions doc"
  "map_keys (pipelines (strip_from_pipelines c cid doc)) = map_keys (pipelines doc)"
  by (auto simp: strip_from_pipelines_def map_keys_def split: option.split)

lemma strip_doc_ok [keeps]: "doc_ok doc \<Longrightarrow> doc_ok (strip_from_pipelines c cid doc)"
  by (simp add: doc_ok_def doc_simps) (simp add: map_ok_def doc_simps)

lemma category_key_inj: "category_key c = Some k \<Longrightarrow> category_key c' = Some k \<Longrightarrow> c' = c"
  by (auto simp: category_key_def split: component_category.splits)

lemma strip_names_none:
  "filter (\<lambda>p. references k cid (snd p)) (map (\<lambda>(name, def). (name, strip_def k cid def)) ps) = []"
  by (induction ps) auto

lemma strip_names_other:
  assumes "k' \<noteq> k \<or> cid' \<noteq> cid"
  shows "map fst (filter (\<lambda>p. references k' cid' (snd p))
     (map (\<lambda>(name, def). (name, strip_def k cid def)) ps)) =
   map fst (filter (\<lambda>p. references k' cid' (snd p)) ps)"
  by (induction ps) (auto simp: references_strip_other [OF assms])

lemma strip_no_reference:
  "pipelines_referencing (strip_from_pipelines c cid doc) c cid = []"
proof (cases "category_key c")
  case None
  then show ?thesis by (simp add: pipelines_referencing_def)
next
  case (Some k)
  then show ?thesis
    by (simp add: pipelines_referencing_def strip_from_pipelines_def strip_names_none)
qed

lemma strip_other_references:
  assumes "c' \<noteq> c \<or> cid' \<noteq> cid"
  shows "pipelines_referencing (strip_from_pipelines c cid doc) c' cid' =
    pipelines_referencing doc c' cid'"
proof (cases "category_key c")
  case None
  then show ?thesis by (simp add: strip_from_pipelines_def)
next
  case (Some k)
  show ?thesis
  proof (cases "category_key c'")
    case None
    then show ?thesis by (simp add: pipelines_referencing_def)
  next
    case (Some k')
    then have "k' \<noteq> k \<or> cid' \<noteq> cid"
      using assms category_key_inj [OF \<open>category_key c = Some k\<close>] by blast
    with Some \<open>category_key c = Some k\<close> show ?thesis
      by (simp add: pipelines_referencing_def strip_from_pipelines_def strip_names_other)
  qed
qed

lemma pipelines_referencing_iff:
  "name \<in> set (pipelines_referencing doc c cid) \<longleftrightarrow>
     (\<exists>k def. category_key c = Some k \<and> (name, def) \<in> set (pipelines doc) \<and> references k cid def)"
  by (cases "category_key c") (force simp: pipelines_referencing_def)+

lemma pipelines_referencing_sorted: "sorted (pipelines_referencing doc c cid)"
  by (simp add: pipelines_referencing_def split: option.split)

lemma pipelines_referencing_distinct: "doc_ok doc \<Longrightarrow> distinct (pipelines_referencing doc c cid)"
  by (auto simp: pipelines_referencing_def doc_ok_def map_ok_def map_keys_def
      intro: distinct_map_filter split: option.split)

subsection \<open>What mentioning a component, and losing it, means\<close>

text \<open>
  The terms in which the removals are specified, apart from the functions of the source: the
  list a pipeline has under a key, whether it mentions a component, and how a pipeline changes
  when a component is taken out of it: the entries of that name are gone from the one list, the
  others keep their order, and everything else in the pipeline is as it was.
\<close>

definition list_under :: "string \<Rightarrow> json \<Rightarrow> json list" where
  "list_under k def = (case json_get def k of Some (JArray arr) \<Rightarrow> arr | _ \<Rightarrow> [])"

fun mentions :: "component_category \<Rightarrow> string \<Rightarrow> json \<Rightarrow> bool" where
  "mentions Receiver cid def \<longleftrightarrow> JString cid \<in> set (list_under ''receivers'' def)"
| "mentions Exporter cid def \<longleftrightarrow> JString cid \<in> set (list_under ''exporters'' def)"
| "mentions Extension cid def \<longleftrightarrow> False"

definition entry_dropped :: "string \<Rightarrow> string \<Rightarrow> json \<Rightarrow> json \<Rightarrow> bool" where
  "entry_dropped k cid def def' \<longleftrightarrow>
     (case (def, def') of
        (JObject m, JObject m') \<Rightarrow>
          map_keys m' = map_keys m \<and>
          list_all (\<lambda>q. map_get m' q =
            (case map_get m q of
               Some (JArray arr) \<Rightarrow>
                 Some (JArray (if q = k then filter (\<lambda>v. v \<noteq> JString cid) arr else arr))
             | other \<Rightarrow> other)) (map_keys m)
      | _ \<Rightarrow> def' = def)"

fun component_dropped :: "component_category \<Rightarrow> string \<Rightarrow> json \<Rightarrow> json \<Rightarrow> bool" where
  "component_dropped Receiver cid def def' \<longleftrightarrow> entry_dropped ''receivers'' cid def def'"
| "component_dropped Exporter cid def def' \<longleftrightarrow> entry_dropped ''exporters'' cid def def'"
| "component_dropped Extension cid def def' \<longleftrightarrow> def' = def"

lemma as_str_eq: "as_str v = Some cid \<longleftrightarrow> v = JString cid"
  by (cases v) auto

lemma references_list_under: "references k cid def \<longleftrightarrow> JString cid \<in> set (list_under k def)"
proof (cases "json_get def k")
  case (Some v)
  then show ?thesis by (cases v) (auto simp: references_def list_under_def as_str_eq list_ex_iff)
qed (simp add: references_def list_under_def)

lemma mentions_references:
  "mentions c cid def \<longleftrightarrow> (case category_key c of None \<Rightarrow> False | Some k \<Rightarrow> references k cid def)"
  by (cases c) (simp_all add: category_key_def references_list_under)

lemma listed_mention:
  assumes "doc_ok doc"
  shows "sorted (pipelines_referencing doc c cid)" and "distinct (pipelines_referencing doc c cid)"
    and "set (pipelines_referencing doc c cid) =
      {name. \<exists>def. map_get (pipelines doc) name = Some def \<and> mentions c cid def}"
proof -
  have "map_ok (pipelines doc)" using assms by (simp add: doc_ok_def)
  then show "set (pipelines_referencing doc c cid) =
      {name. \<exists>def. map_get (pipelines doc) name = Some def \<and> mentions c cid def}"
  proof (cases "category_key c")
    case None
    then show ?thesis by (simp add: pipelines_referencing_def mentions_references)
  next
    case (Some k)
    with \<open>map_ok (pipelines doc)\<close> show ?thesis
      by (force simp: pipelines_referencing_iff mentions_references map_get_Some_iff)
  qed
qed (rule pipelines_referencing_sorted pipelines_referencing_distinct [OF assms])+

lemma none_listed:
  "pipelines_referencing doc c cid = [] \<longleftrightarrow> (\<forall>p \<in> set (pipelines doc). \<not> mentions c cid (snd p))"
proof (cases "category_key c")
  case (Some k)
  have "sort xs = [] \<longleftrightarrow> xs = []" for xs :: "string list"
    by (metis set_empty set_sort)
  with Some show ?thesis
    by (simp add: pipelines_referencing_def mentions_references filter_empty_conv)
qed (simp add: pipelines_referencing_def mentions_references)

lemma map_insert_keys: "map_get m k \<noteq> None \<Longrightarrow> map_keys (map_insert m k v) = map_keys m"
  by (induction m) (auto simp: map_insert_def map_keys_def map_get_def)

lemma strip_def_dropped: "entry_dropped k cid def (strip_def k cid def)"
proof (cases def)
  case (JObject m)
  then show ?thesis
    by (auto simp: entry_dropped_def strip_def_def as_str_eq map_get_insert map_insert_keys list_all_iff
        split: option.split json.split)
qed (simp_all add: entry_dropped_def strip_def_def)

lemma strip_dropped:
  "list_all2 (\<lambda>(name, def) (name', def'). name' = name \<and> component_dropped c cid def def')
     (pipelines doc) (pipelines (strip_from_pipelines c cid doc))"
proof -
  have "component_dropped c cid def
      (case category_key c of None \<Rightarrow> def | Some k \<Rightarrow> strip_def k cid def)" for def
    by (cases c) (simp_all add: category_key_def strip_def_dropped)
  then show ?thesis
    by (cases "category_key c")
      (auto simp: strip_from_pipelines_def list_all2_conv_all_nth split_beta list.rel_refl)
qed

subsection \<open>Placeholders\<close>

text \<open>Every string value, at any depth, satisfies \<open>P\<close>; and every object's keys are distinct.\<close>

fun all_strings :: "(string \<Rightarrow> bool) \<Rightarrow> json \<Rightarrow> bool" where
  "all_strings P (JString s) = P s"
| "all_strings P (JArray arr) = list_all (all_strings P) arr"
| "all_strings P (JObject m) = list_all (\<lambda>p. all_strings P (snd p)) m"
| "all_strings P _ = True"

fun keys_distinct :: "json \<Rightarrow> bool" where
  "keys_distinct (JArray arr) = list_all keys_distinct arr"
| "keys_distinct (JObject m) = (map_ok m \<and> list_all (\<lambda>p. keys_distinct (snd p)) m)"
| "keys_distinct _ = True"

text \<open>Two values of the same shape: equal but for what their strings hold.\<close>

fun same_shape :: "json \<Rightarrow> json \<Rightarrow> bool" where
  "same_shape (JString _) w = (case w of JString _ \<Rightarrow> True | _ \<Rightarrow> False)"
| "same_shape (JArray vs) w = (case w of JArray ws \<Rightarrow> list_all2 same_shape vs ws | _ \<Rightarrow> False)"
| "same_shape (JObject m) w =
     (case w of
        JObject n \<Rightarrow> list_all2 (\<lambda>p q. fst p = fst q \<and> same_shape (snd p) (snd q)) m n
      | _ \<Rightarrow> False)"
| "same_shape v w = (v = w)"

lemma placeholder_object:
  "map_ok m \<Longrightarrow> placeholder_for_validation (JObject m) =
     JObject (map (\<lambda>(k, v). (k, placeholder_for_validation v)) m)"
  by (simp add: map_collect_distinct map_ok_def map_keys_def comp_def case_prod_unfold)

lemma map_collect_entries: "set (map_collect ps) \<subseteq> set ps"
proof -
  have update: "set (AList.update k v m) \<subseteq> insert (k, v) (set m)" for k :: 'a and v :: 'b and m
    by (induction m) auto
  have "set (fold (\<lambda>(k, v) m. map_insert m k v) ps m) \<subseteq> set m \<union> set ps" for m
  proof (induction ps arbitrary: m)
    case Nil
    then show ?case by simp
  next
    case (Cons p ps)
    obtain k v where p: "p = (k, v)" by (cases p)
    from Cons [of "map_insert m k v"] update [of k v m] show ?case
      by (auto simp: p map_insert_def)
  qed
  from this [of "[]"] show ?thesis by (simp add: map_collect_def)
qed

lemma placeholder_no_variable:
  "all_strings (\<lambda>s. \<not> str_contains ''${'' s) (placeholder_for_validation v)"
proof (induction v rule: placeholder_for_validation.induct)
  case (2 m)
  then show ?case
    using map_collect_entries [of "map (\<lambda>(k, v). (k, placeholder_for_validation v)) m"]
    by (fastforce simp: list_all_iff)
next
  case (3 arr)
  then show ?case by (auto simp: list_all_iff)
qed auto

lemma placeholder_shape: "same_shape v (placeholder_for_validation v)" if "keys_distinct v"
  using that
proof (induction v rule: placeholder_for_validation.induct)
  case (2 m)
  then have "map_ok m" by simp
  with 2 show ?case
    unfolding placeholder_object [OF \<open>map_ok m\<close>]
    by (auto simp: list_all_iff list_all2_map2 list.rel_refl list_all2_same)
next
  case (3 arr)
  then show ?case by (auto simp: list_all_iff list_all2_map2 list_all2_same)
qed auto

lemma placeholder_id:
  "placeholder_for_validation v = v"
  if "keys_distinct v" and "all_strings (\<lambda>s. \<not> str_contains ''${'' s) v"
  using that
proof (induction v rule: placeholder_for_validation.induct)
  case (2 m)
  then have "map_ok m" by simp
  have "map (\<lambda>(k, v). (k, placeholder_for_validation v)) m = m"
    using 2 by (intro map_idI) (fastforce simp: list_all_iff)
  then show ?case unfolding placeholder_object [OF \<open>map_ok m\<close>] by simp
next
  case (3 arr)
  then show ?case by (auto simp: list_all_iff intro: map_idI)
qed auto

lemma list_all2_list_all:
  "list_all2 P xs ys \<Longrightarrow> (\<And>x y. x \<in> set xs \<Longrightarrow> P x y \<Longrightarrow> Q y) \<Longrightarrow> list_all Q ys"
  by (induction xs ys rule: list_all2_induct) auto

lemma same_shape_keys_distinct: "same_shape v w \<Longrightarrow> keys_distinct v \<Longrightarrow> keys_distinct w"
proof (induction v arbitrary: w rule: keys_distinct.induct)
  case (1 arr)
  then obtain ws where w: "w = JArray ws" and rel: "list_all2 same_shape arr ws"
    by (cases w) auto
  have "list_all keys_distinct ws"
    by (rule list_all2_list_all [OF rel]) (use 1 in \<open>auto simp: list_all_iff\<close>)
  with w show ?case by simp
next
  case (2 m)
  then obtain n where w: "w = JObject n"
    and rel: "list_all2 (\<lambda>p q. fst p = fst q \<and> same_shape (snd p) (snd q)) m n"
    by (cases w) auto
  then have "map fst n = map fst m"
    by (auto simp: list_all2_conv_all_nth intro: nth_equalityI)
  moreover have "list_all (\<lambda>p. keys_distinct (snd p)) n"
    by (rule list_all2_list_all [OF rel]) (use 2 in \<open>auto simp: list_all_iff\<close>)
  ultimately show ?case
    using 2 w by (simp add: map_ok_def map_keys_def)
qed (auto split: json.splits)

lemma placeholder_idem:
  "keys_distinct v \<Longrightarrow>
   placeholder_for_validation (placeholder_for_validation v) = placeholder_for_validation v"
  by (intro placeholder_id placeholder_no_variable same_shape_keys_distinct [OF placeholder_shape])

text \<open>The copy that is validated.\<close>

lemma placeholder_copy:
  "all_strings (\<lambda>s. \<not> str_contains ''${'' s) (placeholder_for_validation v) \<and>
   (keys_distinct v \<longrightarrow> same_shape v (placeholder_for_validation v) \<and>
     placeholder_for_validation (placeholder_for_validation v) = placeholder_for_validation v)"
  using placeholder_no_variable [of v] placeholder_shape [of v] placeholder_idem [of v] by blast

end
