(* ===== verification/Disk.thy ===== *)
theory Disk
imports Prelude
begin

text \<open>
  The part of the operating system that saving a file touches, and \<open>atomic_write\<close> of
  \<open>editor/model.rs\<close> on it. Paths follow \<open>std::path\<close> on Unix. The disk separates what a
  process reads from what a power failure may leave: the bytes of a file are durable only once
  it has been synced, and no call syncs a directory, so a failure may bring back any earlier
  table of names, but never a table that did not exist.
  Symbolic links, \<open>..\<close> and other processes are not modelled: a file is known by the spelling
  of its path.
\<close>

section \<open>Paths\<close>

text \<open>\<open>Path::components\<close>: whether the path starts at the root, and its components.\<close>

type_synonym location = "bool \<times> string list"

definition components :: "string \<Rightarrow> location" where
  "components path =
     (let parts = split_on (CHR ''/'') path;
          rooted = prefix ''/'' path;
          normal = filter (\<lambda>s. s \<noteq> [] \<and> s \<noteq> ''.'') parts
      in (rooted, if \<not> rooted \<and> hd parts = ''.'' then ''.'' # normal else normal))"

definition file_name :: "location \<Rightarrow> string option" where
  "file_name loc =
     (if snd loc = [] \<or> last (snd loc) = ''.'' \<or> last (snd loc) = ''..'' then None
      else Some (last (snd loc)))"

definition parent :: "location \<Rightarrow> location option" where
  "parent loc = (if snd loc = [] then None else Some (fst loc, butlast (snd loc)))"

text \<open>The name up to its last dot, unless that dot is the first character.\<close>

definition file_stem :: "string \<Rightarrow> string" where
  "file_stem n =
     (case split_once (CHR ''.'') (rev n) of
        None \<Rightarrow> n
      | Some (_, before) \<Rightarrow> if before = [] then n else rev before)"

definition with_extension :: "location \<Rightarrow> string \<Rightarrow> location" where
  "with_extension loc ext =
     (case file_name loc of
        None \<Rightarrow> loc
      | Some n \<Rightarrow> (fst loc, butlast (snd loc) @ [file_stem n @ ''.'' @ ext]))"

lemma file_stem_split:
  "CHR ''.'' \<notin> set ext \<Longrightarrow> stem \<noteq> [] \<Longrightarrow> file_stem (stem @ CHR ''.'' # ext) = stem"
proof -
  assume ext: "CHR ''.'' \<notin> set ext" and stem: "stem \<noteq> []"
  have "split_once c (xs @ c # ys) = Some (xs, ys)" if "c \<notin> set xs" for c xs ys
    using that by (induction xs) auto
  then have "split_once (CHR ''.'') (rev ext @ CHR ''.'' # rev stem) = Some (rev ext, rev stem)"
    using ext by simp
  with stem show ?thesis by (simp add: file_stem_def)
qed

lemma split_once_append: "split_once c s = Some (a, b) \<Longrightarrow> s = a @ c # b \<and> c \<notin> set a"
  by (induction c s arbitrary: a b rule: split_once.induct) (auto split: if_splits)

text \<open>The temporary name is never the name itself, as long as there is a name.\<close>

lemma file_stem_cases:
  obtains "file_stem n = n" | ext where "n = file_stem n @ CHR ''.'' # ext" "CHR ''.'' \<notin> set ext"
proof (cases "split_once (CHR ''.'') (rev n)")
  case None
  then show ?thesis using that(1) by (simp add: file_stem_def)
next
  case (Some p)
  obtain a b where p: "p = (a, b)" by (cases p)
  with Some have rev_n: "rev n = a @ CHR ''.'' # b" and a: "CHR ''.'' \<notin> set a"
    using split_once_append by blast+
  from rev_n have "rev (rev n) = rev b @ CHR ''.'' # rev a" by simp
  then have n: "n = rev b @ CHR ''.'' # rev a" by simp
  show ?thesis
  proof (cases "b = []")
    case True
    then show ?thesis using that(1) Some p by (simp add: file_stem_def)
  next
    case False
    then have "file_stem n = rev b" using Some p by (simp add: file_stem_def)
    with n a that(2) [of "rev a"] show ?thesis by simp
  qed
qed

lemma tmp_differs:
  assumes "file_name loc \<noteq> None"
  shows "with_extension loc ''yaml.tmp'' \<noteq> loc"
proof
  assume eq: "with_extension loc ''yaml.tmp'' = loc"
  obtain n where n: "file_name loc = Some n" using assms by blast
  then have cs: "snd loc \<noteq> []" "last (snd loc) = n" by (auto simp: file_name_def split: if_splits)
  from eq n have "snd loc = butlast (snd loc) @ [file_stem n @ ''.yaml.tmp'']"
    by (cases loc) (simp add: with_extension_def)
  with cs have name: "n = file_stem n @ ''.yaml.tmp''" by (metis last_snoc)
  show False
  proof (cases n rule: file_stem_cases)
    case 1
    with name show False by simp
  next
    case (2 ext)
    with name have "CHR ''.'' # ext = ''.yaml.tmp''" by (metis same_append_eq)
    with 2(2) show False by auto
  qed
qed

section \<open>The disk\<close>

text \<open>An error has the kind the sources test for, and its text.\<close>

datatype io_error = NotFound string | OtherError string

fun io_text :: "io_error \<Rightarrow> string" where
  "io_text (NotFound s) = s"
| "io_text (OtherError s) = s"

text \<open>The bytes a process reads, and those known to be on the medium, if any are.\<close>

record inode =
  bytes :: string
  synced :: "string option"

record disk =
  names :: "location \<Rightarrow> nat option"
  past :: "(location \<Rightarrow> nat option) list"
  dirs :: "location set"
  inodes :: "nat \<Rightarrow> inode"
  fresh :: nat

definition is_dir :: "disk \<Rightarrow> location \<Rightarrow> bool" where
  "is_dir d loc \<longleftrightarrow>
     snd loc = [] \<or> last (snd loc) = ''.'' \<or> last (snd loc) = ''..'' \<or> loc \<in> dirs d"

definition read_disk :: "disk \<Rightarrow> location \<Rightarrow> string option" where
  "read_disk d loc = map_option (\<lambda>i. bytes (inodes d i)) (names d loc)"

text \<open>
  What the environment does to one call: nothing, an error after \<open>n\<close> units of its work, or
  a power failure at that point, after which nothing runs.
\<close>

datatype fault = NoFault | Fails io_error nat | PowerLoss nat

datatype 'a outcome = Done 'a | Failed io_error | Crashed

type_synonym 'a io = "disk \<Rightarrow> 'a outcome \<times> disk"

text \<open>Sequencing with \<open>?\<close>: the first error returns, and a crash ends the run.\<close>

definition and_then :: "'a io \<Rightarrow> ('a \<Rightarrow> 'b io) \<Rightarrow> 'b io" where
  "and_then m k d =
     (case m d of
        (Done x, d') \<Rightarrow> k x d'
      | (Failed e, d') \<Rightarrow> (Failed e, d')
      | (Crashed, d') \<Rightarrow> (Crashed, d'))"

definition done_with :: "'a \<Rightarrow> 'a io" where
  "done_with x d = (Done x, d)"

text \<open>\<open>fs::create_dir_all\<close>: each ancestor in turn, the first \<open>n\<close> of them when it is cut short.\<close>

fun create_dirs :: "bool \<Rightarrow> string list \<Rightarrow> string list \<Rightarrow> unit io" where
  "create_dirs rooted done_part [] d = (Done (), d)"
| "create_dirs rooted done_part (c # cs) d =
     (let loc = (rooted, done_part @ [c]) in
      if is_dir d loc then create_dirs rooted (done_part @ [c]) cs d
      else if names d loc \<noteq> None then (Failed (OtherError ''File exists (os error 17)''), d)
      else create_dirs rooted (done_part @ [c]) cs (d\<lparr>dirs := insert loc (dirs d)\<rparr>))"

definition create_dir_all :: "fault \<Rightarrow> location \<Rightarrow> unit io" where
  "create_dir_all fault loc d =
     (case fault of
        NoFault \<Rightarrow> create_dirs (fst loc) [] (snd loc) d
      | Fails e n \<Rightarrow> (Failed e, snd (create_dirs (fst loc) [] (take n (snd loc)) d))
      | PowerLoss n \<Rightarrow> (Crashed, snd (create_dirs (fst loc) [] (take n (snd loc)) d)))"

text \<open>A new table of names; the old one may still be what the medium holds.\<close>

definition rebind :: "(location \<Rightarrow> nat option) \<Rightarrow> disk \<Rightarrow> disk" where
  "rebind nt d = d\<lparr>names := nt, past := names d # past d\<rparr>"

text \<open>\<open>File::create\<close> makes a new file or truncates the present one; the result is its handle.\<close>

definition file_create :: "fault \<Rightarrow> location \<Rightarrow> nat io" where
  "file_create fault loc d =
     (case fault of
        Fails e _ \<Rightarrow> (Failed e, d)
      | PowerLoss _ \<Rightarrow> (Crashed, d)
      | NoFault \<Rightarrow>
          (if is_dir d loc then (Failed (OtherError ''Is a directory (os error 21)''), d)
           else if \<not> is_dir d (fst loc, butlast (snd loc))
           then (Failed (NotFound ''No such file or directory (os error 2)''), d)
           else
             (let i = (case names d loc of Some i \<Rightarrow> i | None \<Rightarrow> fresh d);
                  d' = (case names d loc of
                      Some _ \<Rightarrow> d
                    | None \<Rightarrow> (rebind ((names d)(loc \<mapsto> i)) d)\<lparr>fresh := Suc i\<rparr>)
              in (Done i, d'\<lparr>inodes := (inodes d')(i := \<lparr>bytes = [], synced = None\<rparr>)\<rparr>))))"

definition append_bytes :: "nat \<Rightarrow> string \<Rightarrow> disk \<Rightarrow> disk" where
  "append_bytes i s d =
     d\<lparr>inodes := (inodes d)(i := \<lparr>bytes = bytes (inodes d i) @ s, synced = None\<rparr>)\<rparr>"

definition write_all :: "fault \<Rightarrow> nat \<Rightarrow> string \<Rightarrow> unit io" where
  "write_all fault i s d =
     (case fault of
        NoFault \<Rightarrow> (Done (), append_bytes i s d)
      | Fails e n \<Rightarrow> (Failed e, append_bytes i (take n s) d)
      | PowerLoss n \<Rightarrow> (Crashed, append_bytes i (take n s) d))"

definition sync_all :: "fault \<Rightarrow> nat \<Rightarrow> unit io" where
  "sync_all fault i d =
     (case fault of
        NoFault \<Rightarrow>
          (Done (), d\<lparr>inodes := (inodes d)(i := (inodes d i)\<lparr>synced := Some (bytes (inodes d i))\<rparr>)\<rparr>)
      | Fails e _ \<Rightarrow> (Failed e, d)
      | PowerLoss _ \<Rightarrow> (Crashed, d))"

definition rename_file :: "fault \<Rightarrow> location \<Rightarrow> location \<Rightarrow> unit io" where
  "rename_file fault src dst d =
     (case fault of
        Fails e _ \<Rightarrow> (Failed e, d)
      | PowerLoss _ \<Rightarrow> (Crashed, d)
      | NoFault \<Rightarrow>
          (case names d src of
             None \<Rightarrow> (Failed (NotFound ''No such file or directory (os error 2)''), d)
           | Some i \<Rightarrow>
               (if is_dir d dst then (Failed (OtherError ''Is a directory (os error 21)''), d)
                else if src = dst then (Done (), d)
                else (Done (), rebind (((names d)(src := None))(dst \<mapsto> i)) d))))"

section \<open>The atomic write\<close>

text \<open>The calls are numbered in their order; \<open>faults\<close> says what happens to each.\<close>

definition tmp_of :: "location \<Rightarrow> location" where
  "tmp_of loc = with_extension loc ''yaml.tmp''"

definition make_parent :: "fault \<Rightarrow> location \<Rightarrow> unit io" where
  "make_parent fault loc =
     (case parent loc of
        Some dir \<Rightarrow> if dir \<noteq> (False, []) then create_dir_all fault dir else done_with ()
      | None \<Rightarrow> done_with ())"

definition write_tmp :: "(nat \<Rightarrow> fault) \<Rightarrow> location \<Rightarrow> string \<Rightarrow> unit io" where
  "write_tmp faults tmp contents =
     and_then (file_create (faults 1) tmp) (\<lambda>file.
     and_then (write_all (faults 2) file contents) (\<lambda>_.
     sync_all (faults 3) file))"

definition atomic_write :: "(nat \<Rightarrow> fault) \<Rightarrow> string \<Rightarrow> string \<Rightarrow> unit io" where
  "atomic_write faults path contents =
     (let loc = components path; tmp_path = tmp_of loc in
      and_then (make_parent (faults 0) loc) (\<lambda>_.
      and_then (write_tmp faults tmp_path contents) (\<lambda>_.
      rename_file (faults 4) tmp_path loc)))"

section \<open>What survives a power failure\<close>

definition tables :: "disk \<Rightarrow> (location \<Rightarrow> nat option) set" where
  "tables d = set (names d # past d)"

inductive survives :: "disk \<Rightarrow> location \<Rightarrow> string option \<Rightarrow> bool" where
  absent: "nt \<in> tables d \<Longrightarrow> nt loc = None \<Longrightarrow> survives d loc None"
| durable: "nt \<in> tables d \<Longrightarrow> nt loc = Some i \<Longrightarrow> synced (inodes d i) = Some s \<Longrightarrow>
    survives d loc (Some s)"
| torn: "nt \<in> tables d \<Longrightarrow> nt loc = Some i \<Longrightarrow> synced (inodes d i) = None \<Longrightarrow>
    survives d loc (Some s)"

inductive_cases survives_NoneE: "survives d loc None"
inductive_cases survives_SomeE: "survives d loc (Some s)"

text \<open>
  The standing condition on a disk: unused inodes are bound nowhere, and the file under the
  temporary name is not also the target, now or in a table a failure may bring back.
\<close>

definition unbound :: "disk \<Rightarrow> location \<Rightarrow> nat \<Rightarrow> bool" where
  "unbound d loc i \<longleftrightarrow> (\<forall>nt \<in> tables d. nt loc \<noteq> Some i)"

definition disk_ok :: "disk \<Rightarrow> location \<Rightarrow> location \<Rightarrow> bool" where
  "disk_ok d tmp loc \<longleftrightarrow>
     (\<forall>nt \<in> tables d. \<forall>l i. nt l = Some i \<longrightarrow> i < fresh d) \<and>
     (\<forall>i. names d tmp = Some i \<longrightarrow> unbound d loc i)"

section \<open>What a call leaves of a file\<close>

text \<open>
  \<open>d'\<close> is as \<open>d\<close> at \<open>loc\<close>: the same binding now, the same bindings over all tables,
  and untouched contents of every file that was ever bound there.
\<close>

definition kept :: "location \<Rightarrow> disk \<Rightarrow> disk \<Rightarrow> bool" where
  "kept loc d d' \<longleftrightarrow>
     names d' loc = names d loc \<and>
     (\<lambda>nt. nt loc) ` tables d' = (\<lambda>nt. nt loc) ` tables d \<and>
     (\<forall>i. \<not> unbound d loc i \<longrightarrow> inodes d' i = inodes d i)"

lemma unbound_image: "unbound d loc i \<longleftrightarrow> Some i \<notin> (\<lambda>nt. nt loc) ` tables d"
  by (simp add: unbound_def image_iff eq_commute [of "Some i"])

lemma kept_refl [simp]: "kept loc d d"
  by (simp add: kept_def)

lemma kept_unbound: "kept loc d d' \<Longrightarrow> unbound d' loc i = unbound d loc i"
  by (simp add: kept_def unbound_image)

lemma kept_trans: "kept loc d d' \<Longrightarrow> kept loc d' d'' \<Longrightarrow> kept loc d d''"
  using kept_unbound [of loc d d'] by (simp add: kept_def)

lemma names_bound: "names d loc = Some i \<Longrightarrow> \<not> unbound d loc i"
  by (auto simp: unbound_def tables_def)

lemma kept_read: "kept loc d d' \<Longrightarrow> read_disk d' loc = read_disk d loc"
  using names_bound [of d loc] by (cases "names d loc") (auto simp: kept_def read_disk_def)

lemma kept_survives_back:
  assumes "kept loc d d'" and "survives d' loc c"
  shows "survives d loc c"
proof -
  have same: "\<exists>nt0 \<in> tables d. nt0 loc = nt loc" if "nt \<in> tables d'" for nt
  proof -
    have "nt loc \<in> (\<lambda>nt. nt loc) ` tables d"
      using assms(1) that by (auto simp: kept_def)
    then show ?thesis by force
  qed
  have inode: "inodes d' i = inodes d i" if "nt \<in> tables d" "nt loc = Some i" for nt i
    using assms(1) that unfolding kept_def unbound_def by blast
  from assms(2) show ?thesis
  proof cases
    case (absent nt)
    with same obtain nt0 where "nt0 \<in> tables d" "nt0 loc = None" by metis
    with absent(1) show ?thesis by (auto intro: survives.absent)
  next
    case (durable nt i s)
    with same obtain nt0 where nt0: "nt0 \<in> tables d" "nt0 loc = Some i" by metis
    with durable inode show ?thesis by (auto intro: survives.durable)
  next
    case (torn nt i s)
    with same obtain nt0 where nt0: "nt0 \<in> tables d" "nt0 loc = Some i" by metis
    with torn inode show ?thesis by (auto intro: survives.torn)
  qed
qed

lemma kept_sym: "kept loc d d' \<Longrightarrow> kept loc d' d"
  using kept_unbound [of loc d d'] by (simp add: kept_def)

lemma kept_survives: "kept loc d d' \<Longrightarrow> survives d' loc c = survives d loc c"
  using kept_survives_back kept_sym by blast

lemma tables_rebind [simp]: "tables (rebind nt d) = insert nt (tables d)"
  by (simp add: tables_def rebind_def)

lemma names_rebind [simp]: "names (rebind nt d) = nt" "inodes (rebind nt d) = inodes d"
  "fresh (rebind nt d) = fresh d" "dirs (rebind nt d) = dirs d"
  by (simp_all add: rebind_def)

lemma tables_update [simp]:
  "tables (d\<lparr>inodes := f\<rparr>) = tables d" "tables (d\<lparr>fresh := n\<rparr>) = tables d"
  "tables (d\<lparr>dirs := ds\<rparr>) = tables d"
  by (simp_all add: tables_def)

lemma names_in_tables [simp]: "names d \<in> tables d"
  by (simp add: tables_def)

lemma unbound_update [simp]:
  "unbound (d\<lparr>inodes := f\<rparr>) loc i = unbound d loc i"
  "unbound (d\<lparr>fresh := n\<rparr>) loc i = unbound d loc i"
  "unbound (d\<lparr>dirs := ds\<rparr>) loc i = unbound d loc i"
  by (simp_all add: unbound_def)

lemma kept_inode: "unbound d loc i \<Longrightarrow> kept loc d (d\<lparr>inodes := (inodes d)(i := x)\<rparr>)"
  by (auto simp: kept_def)

lemma kept_rebind: "nt loc = names d loc \<Longrightarrow> kept loc d (rebind nt d)"
  by (auto simp: kept_def image_iff intro: names_in_tables)

lemma kept_fresh: "kept loc d (d\<lparr>fresh := n\<rparr>)"
  by (simp add: kept_def)

text \<open>The whole of what changes when only directories are made.\<close>

definition dirs_only :: "disk \<Rightarrow> disk \<Rightarrow> bool" where
  "dirs_only d d' \<longleftrightarrow> (\<exists>ds. d' = d\<lparr>dirs := ds\<rparr>)"

lemma dirs_only_refl [simp]: "dirs_only d d"
  unfolding dirs_only_def by (rule exI [of _ "dirs d"]) simp

lemma dirs_only_insert: "dirs_only (d\<lparr>dirs := ds\<rparr>) d' \<Longrightarrow> dirs_only d d'"
  by (auto simp: dirs_only_def)

lemma create_dirs_only [simp]: "dirs_only d (snd (create_dirs r ps cs d))"
  by (induction r ps cs d rule: create_dirs.induct) (auto simp: Let_def intro: dirs_only_insert)

lemma make_parent_only: "dirs_only d (snd (make_parent fault loc d))"
  by (simp add: make_parent_def create_dir_all_def done_with_def split: option.split fault.split)

lemma kept_dirs: "kept loc d (d\<lparr>dirs := ds\<rparr>)"
  by (simp add: kept_def)

lemma disk_ok_dirs [simp]: "disk_ok (d\<lparr>dirs := ds\<rparr>) tmp loc = disk_ok d tmp loc"
  by (simp add: disk_ok_def)

lemma disk_ok_inodes [simp]: "disk_ok (d\<lparr>inodes := f\<rparr>) tmp loc = disk_ok d tmp loc"
  by (simp add: disk_ok_def)

lemma fresh_unbound: "disk_ok d tmp loc \<Longrightarrow> unbound d l (fresh d)"
  unfolding disk_ok_def unbound_def by blast

text \<open>\<open>i\<close> is the temporary file: bound under its name only.\<close>

lemma file_create_keeps:
  assumes "disk_ok d tmp loc" and "tmp \<noteq> loc" and "file_create fault tmp d = (out, d')"
  shows "kept loc d d' \<and> disk_ok d' tmp loc \<and>
    (\<forall>i. out = Done i \<longrightarrow> names d' tmp = Some i \<and> unbound d' loc i \<and> bytes (inodes d' i) = [])"
proof (cases "fault = NoFault \<and> \<not> is_dir d tmp \<and> is_dir d (fst tmp, butlast (snd tmp))")
  case False
  with assms show ?thesis by (auto simp: file_create_def split: fault.splits if_splits)
next
  case True
  show ?thesis
  proof (cases "names d tmp")
    case (Some i)
    with assms(1) have unb: "unbound d loc i" by (simp add: disk_ok_def)
    with True Some assms show ?thesis
      by (auto simp: file_create_def Let_def kept_inode)
  next
    case None
    define d1 where "d1 = (rebind ((names d)(tmp \<mapsto> fresh d)) d)\<lparr>fresh := Suc (fresh d)\<rparr>"
    define d2 where "d2 = d1\<lparr>inodes := (inodes d1)(fresh d := \<lparr>bytes = [], synced = None\<rparr>)\<rparr>"
    have res: "out = Done (fresh d)" "d' = d2"
      using assms(3) True None by (auto simp: file_create_def Let_def d1_def d2_def)
    have k1: "kept loc d d1"
      unfolding d1_def by (rule kept_trans [OF kept_rebind kept_fresh]) (use assms(2) in simp)
    have unb: "unbound d1 loc (fresh d)"
      using fresh_unbound [OF assms(1), of loc] kept_unbound [OF k1] by simp
    then have k2: "kept loc d1 d2" unfolding d2_def by (rule kept_inode)
    have old: "i < fresh d" if "nt \<in> tables d" "nt l = Some i" for nt l i
      by (rule assms(1) [unfolded disk_ok_def, THEN conjunct1, rule_format, OF that])
    have "i < Suc (fresh d)" if "nt \<in> tables d1" "nt l = Some i" for nt l i
    proof (cases "nt \<in> tables d")
      case True
      with old [OF True that(2)] show ?thesis by simp
    next
      case False
      with that have "l = tmp \<and> i = fresh d \<or> names d l = Some i"
        by (auto simp: d1_def split: if_splits)
      with old [OF names_in_tables, of l i] show ?thesis by auto
    qed
    then have ok: "disk_ok d2 tmp loc"
      using unb unfolding disk_ok_def by (simp add: d1_def d2_def)
    show ?thesis
      using res kept_trans [OF k1 k2] ok unb by (simp add: d2_def d1_def)
  qed
qed

lemma write_tmp_keeps:
  assumes ok: "disk_ok d tmp loc" and ne: "tmp \<noteq> loc"
    and run: "write_tmp faults tmp contents d = (out, d')"
  shows "kept loc d d' \<and> disk_ok d' tmp loc \<and>
    (out = Done () \<longrightarrow>
      (\<exists>i. names d' tmp = Some i \<and> inodes d' i = \<lparr>bytes = contents, synced = Some contents\<rparr>))"
proof -
  obtain out1 d1 where c: "file_create (faults 1) tmp d = (out1, d1)" by force
  note k1 = file_create_keeps [OF ok ne c]
  show ?thesis
  proof (cases out1)
    case (Done i)
    with k1 have i: "names d1 tmp = Some i" "unbound d1 loc i" "bytes (inodes d1 i) = []" by auto
    have upd: "kept loc d (d1\<lparr>inodes := (inodes d1)(i := x)\<rparr>)" for x
      using k1 kept_inode [OF i(2)] kept_trans by blast
    show ?thesis
      using run c Done k1 i upd
      by (auto simp: write_tmp_def and_then_def write_all_def sync_all_def append_bytes_def
          split: fault.splits)
  next
    case (Failed e)
    with run c k1 show ?thesis by (auto simp: write_tmp_def and_then_def)
  next
    case Crashed
    with run c k1 show ?thesis by (auto simp: write_tmp_def and_then_def)
  qed
qed

section \<open>Correctness of the atomic write\<close>

text \<open>No call takes a table away, so what a power failure may bring back stays possible.\<close>

lemma survives_more:
  assumes "survives d loc c" and "tables d \<subseteq> tables d'" and "inodes d' = inodes d"
  shows "survives d' loc c"
  using assms by (cases rule: survives.cases) (auto intro: survives.intros)

lemma rename_keeps:
  assumes tmp: "names d tmp = Some i" "inodes d i = \<lparr>bytes = contents, synced = Some contents\<rparr>"
    and ne: "tmp \<noteq> loc" and run: "rename_file fault tmp loc d = (out, d')"
  shows "(out \<noteq> Done () \<and> d' = d) \<or>
    (out = Done () \<and> read_disk d' loc = Some contents \<and> names d' tmp = None \<and>
      inodes d' = inodes d \<and> (\<forall>q. q \<noteq> tmp \<longrightarrow> q \<noteq> loc \<longrightarrow> names d' q = names d q) \<and>
      (\<forall>c. survives d' loc c \<longleftrightarrow> survives d loc c \<or> c = Some contents))"
proof (cases "fault = NoFault \<and> \<not> is_dir d loc")
  case False
  with run show ?thesis by (auto simp: rename_file_def tmp(1) split: fault.splits if_splits)
next
  case True
  define nt where "nt = ((names d)(tmp := None))(loc \<mapsto> i)"
  have res: "out = Done ()" "d' = rebind nt d"
    using run True ne tmp(1) by (auto simp: rename_file_def nt_def)
  have "survives d loc c \<or> c = Some contents" if "survives (rebind nt d) loc c" for c
    using that
  proof cases
    case (absent nt')
    then have "nt' \<in> tables d" by (auto simp: nt_def)
    with absent show ?thesis by (auto intro: survives.absent)
  next
    case (durable nt' j s)
    show ?thesis
    proof (cases "nt' = nt")
      case True
      with durable tmp(2) show ?thesis by (auto simp: nt_def)
    next
      case False
      with durable show ?thesis by (auto intro: survives.durable)
    qed
  next
    case (torn nt' j s)
    with tmp(2) have "nt' \<noteq> nt" by (auto simp: nt_def)
    with torn show ?thesis by (auto intro: survives.torn)
  qed
  moreover have "survives (rebind nt d) loc c" if "survives d loc c" for c
    using that by (rule survives_more) auto
  moreover have "survives (rebind nt d) loc (Some contents)"
    by (rule survives.durable [of nt _ _ i]) (use tmp(2) in \<open>simp_all add: nt_def\<close>)
  ultimately show ?thesis using res ne tmp(2) by (auto simp: read_disk_def nt_def)
qed

text \<open>
  Everything an atomic write does, whatever happens to its calls: unless it completes the file
  reads as before, and a power failure leaves exactly what it might have left before or, once it
  completed, the new text.
\<close>

lemma atomic_write_spec:
  assumes ok: "disk_ok d (tmp_of loc) loc" and name: "file_name loc \<noteq> None"
    and loc: "components path = loc"
    and run: "atomic_write faults path contents d = (out, d')"
  shows "(\<forall>c. survives d' loc c \<longleftrightarrow>
      survives d loc c \<or> out = Done () \<and> c = Some contents) \<and>
    (out = Done () \<longrightarrow> read_disk d' loc = Some contents \<and> names d' (tmp_of loc) = None) \<and>
    (out \<noteq> Done () \<longrightarrow> read_disk d' loc = read_disk d loc)"
proof -
  have ne: "tmp_of loc \<noteq> loc" using tmp_differs [OF name] by (simp add: tmp_of_def)
  obtain out1 d1 where mk: "make_parent (faults 0) loc d = (out1, d1)" by force
  then obtain ds where d1: "d1 = d\<lparr>dirs := ds\<rparr>"
    using make_parent_only [of d "faults 0" loc] by (auto simp: dirs_only_def)
  have k1: "kept loc d d1" using d1 kept_dirs by simp
  have ok1: "disk_ok d1 (tmp_of loc) loc" using ok d1 by simp
  obtain out2 d2 where wr: "write_tmp faults (tmp_of loc) contents d1 = (out2, d2)" by force
  note w = write_tmp_keeps [OF ok1 ne wr]
  then have k2: "kept loc d d2" using kept_trans [OF k1] by blast
  consider (early) "out \<noteq> Done ()" "d' = d1 \<or> d' = d2"
    | (late) "out2 = Done ()" "rename_file (faults 4) (tmp_of loc) loc d2 = (out, d')"
    using run mk wr loc
    by (cases out1; cases out2) (auto simp: atomic_write_def and_then_def Let_def)
  then show ?thesis
  proof cases
    case early
    then have "kept loc d d'" using k1 k2 by auto
    with early show ?thesis by (simp add: kept_read kept_survives)
  next
    case late
    with w obtain i where "names d2 (tmp_of loc) = Some i"
      "inodes d2 i = \<lparr>bytes = contents, synced = Some contents\<rparr>" by auto
    from rename_keeps [OF this ne late(2)] k2 show ?thesis
      by (auto simp: kept_read kept_survives)
  qed
qed

subsection \<open>The condition is kept, so it holds for every later write\<close>

lemma rename_ok:
  assumes "disk_ok d tmp loc" and "tmp \<noteq> loc" and "rename_file fault tmp loc d = (out, d')"
  shows "disk_ok d' tmp loc"
proof (cases "out = Done ()")
  case False
  with assms show ?thesis by (auto simp: rename_file_def split: fault.splits option.splits if_splits)
next
  case True
  with assms obtain i where i: "names d tmp = Some i"
    and d': "d' = rebind (((names d)(tmp := None))(loc \<mapsto> i)) d"
    by (auto simp: rename_file_def split: fault.splits option.splits if_splits)
  have old: "j < fresh d" if "nt \<in> tables d" "nt l = Some j" for nt l j
    by (rule assms(1) [unfolded disk_ok_def, THEN conjunct1, rule_format, OF that])
  have "j < fresh d" if "nt \<in> tables d'" "nt l = Some j" for nt l j
  proof (cases "nt \<in> tables d")
    case True
    with old that(2) show ?thesis by blast
  next
    case False
    with that d' have "names d l = Some j \<or> names d tmp = Some j"
      by (auto simp: i split: if_splits)
    with old [OF names_in_tables] show ?thesis by blast
  qed
  with d' assms(2) show ?thesis unfolding disk_ok_def by simp
qed

lemma atomic_write_ok:
  assumes ok: "disk_ok d (tmp_of loc) loc" and name: "file_name loc \<noteq> None"
    and loc: "components path = loc"
    and run: "atomic_write faults path contents d = (out, d')"
  shows "disk_ok d' (tmp_of loc) loc"
proof -
  have ne: "tmp_of loc \<noteq> loc" using tmp_differs [OF name] by (simp add: tmp_of_def)
  obtain out1 d1 where mk: "make_parent (faults 0) loc d = (out1, d1)" by force
  then have ok1: "disk_ok d1 (tmp_of loc) loc"
    using make_parent_only [of d "faults 0" loc] ok by (auto simp: dirs_only_def)
  obtain out2 d2 where wr: "write_tmp faults (tmp_of loc) contents d1 = (out2, d2)" by force
  note w = write_tmp_keeps [OF ok1 ne wr]
  consider "d' = d1 \<or> d' = d2" | "rename_file (faults 4) (tmp_of loc) loc d2 = (out, d')"
    using run mk wr loc
    by (cases out1; cases out2) (auto simp: atomic_write_def and_then_def Let_def)
  then show ?thesis
  proof cases
    case 1
    with ok1 w show ?thesis by auto
  next
    case 2
    with w ne show ?thesis by (auto intro: rename_ok)
  qed
qed

text \<open>A run of writes to one path, each with its faults, until the power fails.\<close>

fun write_run :: "string \<Rightarrow> ((nat \<Rightarrow> fault) \<times> string) list \<Rightarrow> disk \<Rightarrow> disk" where
  "write_run path [] d = d"
| "write_run path ((faults, contents) # ws) d =
     (case atomic_write faults path contents d of
        (Crashed, d') \<Rightarrow> d'
      | (_, d') \<Rightarrow> write_run path ws d')"

lemma write_run_survives:
  assumes "disk_ok d (tmp_of (components path)) (components path)"
    and name: "file_name (components path) \<noteq> None"
    and "survives (write_run path ws d) (components path) c"
  shows "survives d (components path) c \<or> c \<in> Some ` snd ` set ws"
  using assms(1,3)
proof (induction ws arbitrary: d)
  case Nil
  then show ?case by simp
next
  case (Cons w ws)
  obtain faults contents where w: "w = (faults, contents)" by (cases w)
  obtain out d' where run: "atomic_write faults path contents d = (out, d')" by force
  note spec = atomic_write_spec [OF Cons.prems(1) name refl run]
  note ok = atomic_write_ok [OF Cons.prems(1) name refl run]
  show ?case
  proof (cases "out = Crashed")
    case True
    with Cons.prems(2) w run spec show ?thesis by auto
  next
    case False
    with Cons.prems(2) w run have "survives (write_run path ws d') (components path) c"
      by (cases out) auto
    then have "survives d' (components path) c \<or> c \<in> Some ` snd ` set ws"
      by (rule Cons.IH [OF ok])
    with spec w show ?thesis by auto
  qed
qed

subsection \<open>The write completes\<close>

lemma create_dirs_done:
  assumes "\<And>k. k < length cs \<Longrightarrow> names d (r, ps @ take (Suc k) cs) = None"
    and "is_dir d (r, ps)"
  shows "\<exists>d'. create_dirs r ps cs d = (Done (), d') \<and> is_dir d' (r, ps @ cs) \<and>
    dirs d' \<subseteq> dirs d \<union> {(r, qs) |qs. length qs \<le> length ps + length cs}"
  using assms
proof (induction cs arbitrary: ps d)
  case Nil
  then show ?case by simp
next
  case (Cons c cs)
  define d1 where "d1 = (if is_dir d (r, ps @ [c]) then d
    else d\<lparr>dirs := insert (r, ps @ [c]) (dirs d)\<rparr>)"
  have step: "create_dirs r ps (c # cs) d = create_dirs r (ps @ [c]) cs d1"
    using Cons.prems(1) [of 0] by (simp add: d1_def Let_def)
  have "names d1 = names d" by (simp add: d1_def)
  moreover have "is_dir d1 (r, ps @ [c])" by (auto simp: d1_def is_dir_def)
  ultimately obtain d' where d': "create_dirs r (ps @ [c]) cs d1 = (Done (), d')"
    "is_dir d' (r, ps @ c # cs)"
    "dirs d' \<subseteq> dirs d1 \<union> {(r, qs) |qs. length qs \<le> length (ps @ [c]) + length cs}"
    using Cons.IH [of d1 "ps @ [c]"] Cons.prems(1) [of "Suc _"] by auto
  moreover have "dirs d1 \<subseteq> insert (r, ps @ [c]) (dirs d)" by (auto simp: d1_def)
  ultimately have "dirs d' \<subseteq> dirs d \<union> {(r, qs) |qs. length qs \<le> length ps + length (c # cs)}"
    by auto
  with step d' show ?case by simp
qed

text \<open>No regular file where a directory is needed, and no directory where a file is.\<close>

definition writable :: "disk \<Rightarrow> location \<Rightarrow> bool" where
  "writable d loc \<longleftrightarrow>
     list_all (\<lambda>k. names d (fst loc, take (Suc k) (snd loc)) = None) [0..<length (snd loc) - 1] \<and>
     \<not> is_dir d loc \<and> \<not> is_dir d (tmp_of loc)"

lemma make_parent_done:
  assumes "writable d loc" and "snd loc \<noteq> []"
  shows "\<exists>d'. make_parent NoFault loc d = (Done (), d') \<and> names d' = names d \<and>
    is_dir d' (fst loc, butlast (snd loc)) \<and>
    dirs d' \<subseteq> dirs d \<union> {(fst loc, qs) |qs. length qs < length (snd loc)}"
proof (cases "(fst loc, butlast (snd loc)) = (False, [])")
  case True
  with assms(2) show ?thesis
    by (auto simp: make_parent_def parent_def done_with_def is_dir_def)
next
  case False
  have "names d (fst loc, [] @ take (Suc k) (butlast (snd loc))) = None"
    if "k < length (butlast (snd loc))" for k
    using assms(1) that by (auto simp: writable_def list_all_iff take_butlast)
  from create_dirs_done [OF this] obtain d' where
    d': "create_dirs (fst loc) [] (butlast (snd loc)) d = (Done (), d')"
    "is_dir d' (fst loc, butlast (snd loc))"
    "dirs d' \<subseteq> dirs d \<union> {(fst loc, qs) |qs. length qs \<le> length (butlast (snd loc))}"
    by (auto simp: is_dir_def)
  have "names d' = names d"
    using create_dirs_only [of d "fst loc" "[]" "butlast (snd loc)"] d'(1)
    by (auto simp: dirs_only_def)
  moreover have "length (butlast (snd loc)) < length (snd loc)" using assms(2) by simp
  then have "dirs d' \<subseteq> dirs d \<union> {(fst loc, qs) |qs. length qs < length (snd loc)}"
    using d'(3) by force
  ultimately show ?thesis
    using d' False assms(2) by (simp add: make_parent_def parent_def create_dir_all_def)
qed

lemma tmp_of_shape:
  assumes "file_name loc = Some n"
  shows "tmp_of loc = (fst loc, butlast (snd loc) @ [file_stem n @ ''.yaml.tmp''])"
  using assms by (simp add: tmp_of_def with_extension_def)

lemma write_tmp_done:
  assumes "\<not> is_dir d tmp" and "is_dir d (fst tmp, butlast (snd tmp))"
  shows "\<exists>d' i. write_tmp (\<lambda>_. NoFault) tmp contents d = (Done (), d') \<and>
    names d' tmp = Some i \<and> dirs d' = dirs d"
  using assms
  by (cases "names d tmp")
    (auto simp: write_tmp_def and_then_def file_create_def write_all_def sync_all_def
      append_bytes_def Let_def)

lemma atomic_write_done:
  assumes ok: "writable d (components path)" and name: "file_name (components path) = Some n"
  shows "fst (atomic_write (\<lambda>_. NoFault) path contents d) = Done ()"
proof -
  define loc where "loc = components path"
  have cs: "snd loc \<noteq> []" using name by (auto simp: file_name_def loc_def split: if_splits)
  from make_parent_done [OF ok [folded loc_def] cs] obtain d1 where
    d1: "make_parent NoFault loc d = (Done (), d1)" "is_dir d1 (fst loc, butlast (snd loc))"
    "dirs d1 \<subseteq> dirs d \<union> {(fst loc, qs) |qs. length qs < length (snd loc)}"
    by blast
  have keep: "\<not> is_dir d1 l" if "\<not> is_dir d l" "length (snd l) = length (snd loc)" for l
    using that d1(3) by (auto simp: is_dir_def)
  have shape: "tmp_of loc = (fst loc, butlast (snd loc) @ [file_stem n @ ''.yaml.tmp''])"
    by (rule tmp_of_shape) (use name in \<open>simp add: loc_def\<close>)
  have "\<not> is_dir d1 (tmp_of loc)"
    using keep [of "tmp_of loc"] ok cs by (simp add: writable_def loc_def [symmetric] shape)
  then obtain d2 i where
    d2: "write_tmp (\<lambda>_. NoFault) (tmp_of loc) contents d1 = (Done (), d2)"
    "names d2 (tmp_of loc) = Some i" "dirs d2 = dirs d1"
    using write_tmp_done [of d1 "tmp_of loc" contents] d1(2) shape by auto
  have "\<not> is_dir d2 loc"
    using keep [of loc] ok d2(3) by (simp add: writable_def loc_def is_dir_def)
  then show ?thesis
    using d1(1) d2
    by (simp add: atomic_write_def and_then_def Let_def loc_def [symmetric] rename_file_def)
qed

section \<open>Directories on the way\<close>

text \<open>Only directories on the way to the file are made: paths shorter than its own.\<close>

lemma create_dirs_new:
  "l \<in> dirs (snd (create_dirs r ps cs d)) \<Longrightarrow> l \<in> dirs d \<or> length (snd l) \<le> length ps + length cs"
proof (induction r ps cs d rule: create_dirs.induct)
  case (1 r ps d)
  then show ?case by simp
next
  case (2 r ps c cs d)
  then show ?case by (auto simp: Let_def split: if_splits)
qed

lemma create_dirs_mono: "l \<in> dirs d \<Longrightarrow> l \<in> dirs (snd (create_dirs r ps cs d))"
  by (induction r ps cs d rule: create_dirs.induct) (auto simp: Let_def)

definition dirs_below :: "location \<Rightarrow> disk \<Rightarrow> disk \<Rightarrow> bool" where
  "dirs_below loc d d' \<longleftrightarrow>
     dirs d \<subseteq> dirs d' \<and> (\<forall>l. l \<in> dirs d' \<longrightarrow> l \<in> dirs d \<or> length (snd l) < length (snd loc))"

lemma make_parent_dirs: "dirs_below loc d (snd (make_parent fault loc d))"
proof (cases "snd loc")
  case Nil
  then show ?thesis by (simp add: dirs_below_def make_parent_def parent_def done_with_def)
next
  case (Cons c cs)
  have below: "dirs_below loc d (snd (create_dirs r [] qs d))" if "length qs \<le> length cs" for r qs
    unfolding dirs_below_def
  proof (intro conjI allI impI subsetI)
    show "l \<in> dirs (snd (create_dirs r [] qs d))" if "l \<in> dirs d" for l
      using that by (rule create_dirs_mono)
    show "l \<in> dirs d \<or> length (snd l) < length (snd loc)"
      if "l \<in> dirs (snd (create_dirs r [] qs d))" for l
      using create_dirs_new [OF that] Cons \<open>length qs \<le> length cs\<close> by auto
  qed
  have "length (butlast (c # cs)) \<le> length cs" "length (take n (butlast (c # cs))) \<le> length cs" for n
    by simp_all
  then have "dirs_below loc d (snd (create_dir_all fault (r, butlast (c # cs)) d))" for r
    unfolding create_dir_all_def by (cases fault) (simp_all only: below fault.case fst_conv snd_conv)
  moreover have "dirs_below loc d d" by (simp add: dirs_below_def)
  ultimately show ?thesis
    using Cons by (simp add: make_parent_def parent_def done_with_def)
qed

lemma write_tmp_dirs: "dirs (snd (write_tmp faults tmp contents d)) = dirs d"
  by (auto simp: write_tmp_def and_then_def file_create_def write_all_def sync_all_def
      append_bytes_def Let_def split: prod.split outcome.split fault.split option.split)

lemma rename_dirs: "dirs (snd (rename_file fault a b d)) = dirs d"
  by (simp add: rename_file_def split: fault.split option.split)

lemma and_then_dirs:
  assumes "\<And>x d. dirs (snd (k x d)) = dirs d"
  shows "dirs (snd (and_then m k d)) = dirs (snd (m d))"
  using assms by (simp add: and_then_def split: prod.split outcome.split)

lemma atomic_write_is_dir:
  "is_dir (snd (atomic_write faults path contents d)) (components path) = is_dir d (components path)"
proof -
  let ?d1 = "snd (make_parent (faults 0) (components path) d)"
  have same: "dirs (snd (atomic_write faults path contents d)) = dirs ?d1"
    by (simp add: atomic_write_def Let_def and_then_dirs rename_dirs write_tmp_dirs)
  have "components path \<in> dirs ?d1 \<longleftrightarrow> components path \<in> dirs d"
    using make_parent_dirs [of "components path" d "faults 0"] unfolding dirs_below_def by blast
  with same show ?thesis by (simp add: is_dir_def)
qed

end
