(* ===== verification/Persist.thy ===== *)
theory Persist
imports Document Disk
begin

text \<open>
  Loading, validating and saving the document: \<open>EditorDoc::load\<close>, \<open>parse\<close>,
  \<open>validate_with_binary\<close>, \<open>save\<close> and \<open>otelcol_binary_path\<close> of \<open>editor/model.rs\<close>. The
  YAML crate, the temporary-file crate and the validator process are not in the repository:
  they are the records \<open>yaml\<close> and \<open>os\<close>, passed as arguments, with the one law used, that
  a printed value parses back, as the hypothesis \<open>yaml_round_trips\<close>. The temporary copy lives
  outside the directories of \<open>disk\<close> and is gone when the call returns; what matters of it is
  the text the validator is run on.
\<close>

section \<open>Errors\<close>

datatype editor_error =
    Io string string
  | Parse string
  | Serialize string
  | Invalid string

text \<open>The \<open>Display\<close> of an error.\<close>

fun error_text :: "editor_error \<Rightarrow> string" where
  "error_text (Io path e) = ''failed to read '' @ path @ '': '' @ e"
| "error_text (Parse e) = ''failed to parse YAML: '' @ e"
| "error_text (Serialize e) = ''failed to serialize YAML: '' @ e"
| "error_text (Invalid e) = ''invalid config: '' @ e"

section \<open>What is called\<close>

record yaml =
  yaml_parse :: "string \<Rightarrow> string + json"
  yaml_print :: "json \<Rightarrow> string + string"

text \<open>The output of a process: its status, and standard error decoded lossily.\<close>

record process_output =
  exit_success :: bool
  exit_text :: string
  stderr_text :: string

text \<open>
  \<open>bin_var\<close> is the variable \<open>SGCIA_OTELCOL_BIN\<close>, when it is set to valid Unicode;
  \<open>tmp_file\<close> the path of the temporary file or the error of making it; \<open>tmp_write\<close> and
  \<open>tmp_flush\<close> the errors of writing it, if any; \<open>run\<close> a process, from its program, its
  arguments and the text in the temporary file.
\<close>

record os =
  bin_var :: "string option"
  tmp_file :: "io_error + string"
  tmp_write :: "io_error option"
  tmp_flush :: "io_error option"
  run :: "string \<Rightarrow> string list \<Rightarrow> string \<Rightarrow> io_error + process_output"

section \<open>Loading\<close>

text \<open>The bytes a Rust \<open>String\<close> may hold: well-formed UTF-8.\<close>

definition byte :: "char \<Rightarrow> nat" where
  "byte c = of_char c"

definition in_range :: "nat \<Rightarrow> nat \<Rightarrow> char \<Rightarrow> bool" where
  "in_range lo hi c \<longleftrightarrow> lo \<le> byte c \<and> byte c \<le> hi"

fun utf8_ok :: "string \<Rightarrow> bool" where
  "utf8_ok [] = True"
| "utf8_ok (a # s) =
     (if in_range 0 0x7F a then utf8_ok s
      else if in_range 0xC2 0xDF a then
        (case s of b # s' \<Rightarrow> in_range 0x80 0xBF b \<and> utf8_ok s' | _ \<Rightarrow> False)
      else if in_range 0xE0 0xEF a then
        (case s of
           b # c # s' \<Rightarrow>
             in_range (if byte a = 0xE0 then 0xA0 else 0x80) (if byte a = 0xED then 0x9F else 0xBF) b \<and>
             in_range 0x80 0xBF c \<and> utf8_ok s'
         | _ \<Rightarrow> False)
      else if in_range 0xF0 0xF4 a then
        (case s of
           b # c # d # s' \<Rightarrow>
             in_range (if byte a = 0xF0 then 0x90 else 0x80) (if byte a = 0xF4 then 0x8F else 0xBF) b \<and>
             in_range 0x80 0xBF c \<and> in_range 0x80 0xBF d \<and> utf8_ok s'
         | _ \<Rightarrow> False)
      else False)"

text \<open>\<open>fs::read_to_string\<close>; \<open>fault\<close> is an error of the read itself.\<close>

definition read_to_string :: "io_error option \<Rightarrow> string \<Rightarrow> disk \<Rightarrow> io_error + string" where
  "read_to_string fault path d =
     (case fault of
        Some e \<Rightarrow> Inl e
      | None \<Rightarrow>
          (if is_dir d (components path) then Inl (OtherError ''Is a directory (os error 21)'')
           else (case read_disk d (components path) of
              None \<Rightarrow> Inl (NotFound ''No such file or directory (os error 2)'')
            | Some s \<Rightarrow>
                (if utf8_ok s then Inr s
                 else Inl (OtherError ''stream did not contain valid UTF-8'')))))"

definition parse_doc :: "yaml \<Rightarrow> string \<Rightarrow> editor_error + editor_doc" where
  "parse_doc y text =
     (case yaml_parse y text of
        Inl e \<Rightarrow> Inl (Parse e)
      | Inr doc \<Rightarrow> Inr (doc_of_value doc))"

definition load_doc ::
  "yaml \<Rightarrow> io_error option \<Rightarrow> string \<Rightarrow> disk \<Rightarrow> editor_error + editor_doc" where
  "load_doc y fault path d =
     (case read_to_string fault path d of
        Inr text \<Rightarrow> parse_doc y text
      | Inl (NotFound _) \<Rightarrow> Inr doc_new
      | Inl e \<Rightarrow> Inl (Io path (io_text e)))"

section \<open>Validating\<close>

definition validate_with_binary ::
  "os \<Rightarrow> yaml \<Rightarrow> string \<Rightarrow> editor_doc \<Rightarrow> editor_error + unit" where
  "validate_with_binary os y bin doc =
     (case yaml_print y (placeholder_for_validation (doc_to_value doc)) of
        Inl e \<Rightarrow> Inl (Serialize e)
      | Inr yaml_text \<Rightarrow>
     (case tmp_file os of
        Inl e \<Rightarrow> Inl (Io ''temp file'' (io_text e))
      | Inr tmp \<Rightarrow>
     (case tmp_write os of
        Some e \<Rightarrow> Inl (Io tmp (io_text e))
      | None \<Rightarrow>
     (case tmp_flush os of
        Some e \<Rightarrow> Inl (Io tmp (io_text e))
      | None \<Rightarrow>
     (case run os bin [''validate'', ''--config'', ''file:'' @ tmp] yaml_text of
        Inl e \<Rightarrow> Inl (Invalid
          (''couldn't run '' @ [CHR 0x27] @ bin @ '' validate'' @ [CHR 0x27] @
           '' (set SGCIA_OTELCOL_BIN if it's not on PATH): '' @ io_text e))
      | Inr output \<Rightarrow>
          (if \<not> exit_success output then
             (let message = trim (stderr_text output) in
              Inl (Invalid (if message = []
                then bin @ '' validate exited with '' @ exit_text output
                else message)))
           else Inr ()))))))"

text \<open>\<open>Path::exists\<close> on the development path is a read of the disk.\<close>

definition otelcol_binary_path :: "os \<Rightarrow> disk \<Rightarrow> string" where
  "otelcol_binary_path os d =
     (case bin_var os of
        Some p \<Rightarrow> p
      | None \<Rightarrow>
          (let dev_path = ''otelcol/dist/sgcia-otelcol'' in
           if names d (components dev_path) \<noteq> None \<or> is_dir d (components dev_path)
           then dev_path else ''sgcia-otelcol''))"

section \<open>Saving\<close>

text \<open>The result is \<open>None\<close> when the power fails on the way.\<close>

definition save_with_binary ::
  "os \<Rightarrow> yaml \<Rightarrow> (nat \<Rightarrow> fault) \<Rightarrow> string \<Rightarrow> string \<Rightarrow> editor_doc \<Rightarrow> disk \<Rightarrow>
   (editor_error + unit) option \<times> disk" where
  "save_with_binary os y faults path bin doc d =
     (case validate_with_binary os y bin doc of
        Inl e \<Rightarrow> (Some (Inl e), d)
      | Inr _ \<Rightarrow>
          (case yaml_print y (doc_to_value doc) of
             Inl e \<Rightarrow> (Some (Inl (Serialize e)), d)
           | Inr yaml_text \<Rightarrow>
               (case atomic_write faults path yaml_text d of
                  (Done _, d') \<Rightarrow> (Some (Inr ()), d')
                | (Failed e, d') \<Rightarrow> (Some (Inl (Io path (io_text e))), d')
                | (Crashed, d') \<Rightarrow> (None, d'))))"

definition save_doc ::
  "os \<Rightarrow> yaml \<Rightarrow> (nat \<Rightarrow> fault) \<Rightarrow> string \<Rightarrow> editor_doc \<Rightarrow> disk \<Rightarrow>
   (editor_error + unit) option \<times> disk" where
  "save_doc os y faults path doc d =
     save_with_binary os y faults path (otelcol_binary_path os d) doc d"

section \<open>Lemmas\<close>

subsection \<open>Validation\<close>

text \<open>The validator's verdict on a document: it ran on the placeholder copy and accepted it.\<close>

definition accepted :: "os \<Rightarrow> yaml \<Rightarrow> string \<Rightarrow> editor_doc \<Rightarrow> bool" where
  "accepted os y bin doc \<longleftrightarrow>
     (case (yaml_print y (placeholder_for_validation (doc_to_value doc)), tmp_file os) of
        (Inr text, Inr tmp) \<Rightarrow>
          tmp_write os = None \<and> tmp_flush os = None \<and>
          (case run os bin [''validate'', ''--config'', ''file:'' @ tmp] text of
             Inr output \<Rightarrow> exit_success output
           | Inl _ \<Rightarrow> False)
      | _ \<Rightarrow> False)"

lemma validate_accepts: "validate_with_binary os y bin doc = Inr () \<longleftrightarrow> accepted os y bin doc"
  by (auto simp: validate_with_binary_def accepted_def Let_def split: sum.split option.split)

lemma validate_message:
  assumes "yaml_print y (placeholder_for_validation (doc_to_value doc)) = Inr text"
    and "tmp_file os = Inr tmp" and "tmp_write os = None" and "tmp_flush os = None"
    and "run os bin [''validate'', ''--config'', ''file:'' @ tmp] text = Inr output"
    and "\<not> exit_success output"
  shows "\<exists>msg. validate_with_binary os y bin doc = Inl (Invalid msg) \<and> msg \<noteq> [] \<and>
    (trim (stderr_text output) \<noteq> [] \<longrightarrow> msg = trim (stderr_text output))"
  using assms by (simp add: validate_with_binary_def Let_def)

subsection \<open>Saving\<close>

lemma save_cases:
  assumes "save_with_binary os y faults path bin doc d = (res, d')"
  obtains (rejected) e where "res = Some (Inl e)" "d' = d"
  | (wrote) yaml out where "accepted os y bin doc" "yaml_print y (doc_to_value doc) = Inr yaml"
      "atomic_write faults path yaml d = (out, d')"
      "res = (case out of Done _ \<Rightarrow> Some (Inr ()) | Failed e \<Rightarrow> Some (Inl (Io path (io_text e)))
        | Crashed \<Rightarrow> None)"
proof (cases "validate_with_binary os y bin doc")
  case (Inl e)
  with assms have "res = Some (Inl e)" "d' = d" by (simp_all add: save_with_binary_def)
  then show ?thesis by (rule rejected)
next
  case (Inr u)
  then have acc: "accepted os y bin doc" using validate_accepts by simp
  show ?thesis
  proof (cases "yaml_print y (doc_to_value doc)")
    case (Inl e)
    with assms Inr have "res = Some (Inl (Serialize e))" "d' = d"
      by (simp_all add: save_with_binary_def)
    then show ?thesis by (rule rejected)
  next
    case yaml: (Inr yaml)
    obtain out d2 where run: "atomic_write faults path yaml d = (out, d2)" by force
    with assms Inr yaml have "d2 = d'"
      "res = (case out of Done _ \<Rightarrow> Some (Inr ()) | Failed e \<Rightarrow> Some (Inl (Io path (io_text e)))
        | Crashed \<Rightarrow> None)"
      by (auto simp: save_with_binary_def split: outcome.splits)
    with wrote [OF acc yaml] run show ?thesis by simp
  qed
qed

lemma save_result:
  assumes ok: "disk_ok d (tmp_of (components path)) (components path)"
    and name: "file_name (components path) \<noteq> None"
    and run: "save_with_binary os y faults path bin doc d = (res, d')"
  shows "(res = Some (Inr ()) \<longrightarrow> accepted os y bin doc \<and>
      (\<exists>text. yaml_print y (doc_to_value doc) = Inr text \<and>
        read_disk d' (components path) = Some text)) \<and>
    (res \<noteq> Some (Inr ()) \<longrightarrow> read_disk d' (components path) = read_disk d (components path))"
  using run
proof (cases rule: save_cases)
  case (rejected e)
  then show ?thesis by simp
next
  case (wrote yaml out)
  with atomic_write_spec [OF ok name refl wrote(3)] show ?thesis by (cases out) auto
qed

text \<open>
  A power failure during or after a save leaves a text that was there before, or the printed
  form of a document the validator accepted.
\<close>

lemma save_crash:
  assumes ok: "disk_ok d (tmp_of (components path)) (components path)"
    and name: "file_name (components path) \<noteq> None"
    and run: "save_with_binary os y faults path bin doc d = (res, d')"
    and left: "survives d' (components path) c"
  shows "survives d (components path) c \<or>
    (accepted os y bin doc \<and> (\<exists>text. yaml_print y (doc_to_value doc) = Inr text \<and> c = Some text))"
  using run
proof (cases rule: save_cases)
  case (rejected e)
  with left show ?thesis by simp
next
  case (wrote yaml out)
  with atomic_write_spec [OF ok name refl wrote(3)] left show ?thesis by auto
qed

text \<open>The law of the YAML crate at one value: what it prints is UTF-8 and parses back.\<close>

definition yaml_round_trips :: "yaml \<Rightarrow> json \<Rightarrow> bool" where
  "yaml_round_trips y v \<longleftrightarrow>
     (case yaml_print y v of Inl _ \<Rightarrow> True | Inr text \<Rightarrow> utf8_ok text \<and> yaml_parse y text = Inr v)"

lemma names_not_dir_written:
  "atomic_write faults path text d = (Done (), d') \<Longrightarrow> \<not> is_dir d' (components path)"
  by (auto simp: atomic_write_def and_then_def Let_def rename_file_def is_dir_def
      split: prod.splits outcome.splits fault.splits option.splits if_splits)

lemma save_load:
  assumes ok: "disk_ok d (tmp_of (components path)) (components path)"
    and name: "file_name (components path) \<noteq> None"
    and law: "yaml_round_trips y (doc_to_value doc)"
    and run: "save_with_binary os y faults path bin doc d = (Some (Inr ()), d')"
  shows "load_doc y None path d' = Inr doc"
  using run
proof (cases rule: save_cases)
  case (rejected e)
  then show ?thesis by simp
next
  case (wrote yaml out)
  then have fin: "out = Done ()" by (cases out) auto
  note spec = atomic_write_spec [OF ok name refl wrote(3)]
  have "\<not> is_dir d' (components path)" using wrote(3) fin by (simp add: names_not_dir_written)
  with spec fin law wrote(2) show ?thesis
    by (simp add: load_doc_def read_to_string_def parse_doc_def yaml_round_trips_def doc_of_to_value)
qed

text \<open>A save that nothing stands in the way of.\<close>

lemma save_completes:
  assumes "accepted os y (otelcol_binary_path os d) dc" and "yaml_print y (doc_to_value dc) = Inr contents"
    and ok: "disk_ok d (tmp_of (components path)) (components path)" and writable: "writable d (components path)"
    and name: "file_name (components path) \<noteq> None"
  shows "\<exists>d'. save_doc os y (\<lambda>_. NoFault) path dc d = (Some (Inr ()), d') \<and>
    read_disk d' (components path) = Some contents"
proof -
  obtain n where n: "file_name (components path) = Some n" using name by blast
  obtain out d' where run: "atomic_write (\<lambda>_. NoFault) path contents d = (out, d')" by force
  with atomic_write_done [OF writable n, of contents] have out: "out = Done ()" by simp
  from assms(1) have "validate_with_binary os y (otelcol_binary_path os d) dc = Inr ()"
    by (simp add: validate_accepts)
  then have "save_doc os y (\<lambda>_. NoFault) path dc d = (Some (Inr ()), d')"
    using assms(2) run out by (simp add: save_doc_def save_with_binary_def)
  moreover have "read_disk d' (components path) = Some contents"
    using atomic_write_spec [OF ok name refl run] out by simp
  ultimately show ?thesis by blast
qed

lemma load_missing:
  "names d (components path) = None \<Longrightarrow> \<not> is_dir d (components path) \<Longrightarrow>
   load_doc y None path d = Inr doc_new"
  by (simp add: load_doc_def read_to_string_def read_disk_def)

section \<open>Loaded documents are well-formed\<close>

text \<open>A parsed value's objects have distinct keys, as those of a \<open>Map\<close> do.\<close>

definition yaml_maps_ok :: "yaml \<Rightarrow> bool" where
  "yaml_maps_ok y \<longleftrightarrow>
     (\<forall>text. case yaml_parse y text of Inl _ \<Rightarrow> True | Inr v \<Rightarrow> keys_distinct v)"

lemma keys_distinct_get: "keys_distinct v \<Longrightarrow> json_get v k = Some x \<Longrightarrow> keys_distinct x"
  by (cases v) (auto simp: json_get_def map_get_def list_all_iff dest!: map_of_SomeD)

lemma object_of_ok: "(\<And>v. e = Some v \<Longrightarrow> keys_distinct v) \<Longrightarrow> map_ok (object_of e)"
proof (cases e)
  case (Some v)
  assume "\<And>v. e = Some v \<Longrightarrow> keys_distinct v"
  with Some show ?thesis by (cases v) (auto simp: object_of_def)
qed (simp add: object_of_def)

lemma object_of_get: "map_get (object_of (Some v)) k = json_get v k"
  by (cases v) (simp_all add: object_of_def map_get_def)

lemma doc_of_value_ok:
  assumes "keys_distinct v"
  shows "doc_ok (doc_of_value v)"
proof -
  have "map_ok (object_of (json_get v k))" for k
    using keys_distinct_get [OF assms] by (intro object_of_ok)
  moreover have "map_ok (object_of (Option.bind (json_get v ''service'') (\<lambda>s. json_get s ''pipelines'')))"
  proof (rule object_of_ok)
    fix p assume "Option.bind (json_get v ''service'') (\<lambda>s. json_get s ''pipelines'') = Some p"
    then obtain s where s: "json_get v ''service'' = Some s" "json_get s ''pipelines'' = Some p"
      by (cases "json_get v ''service''") auto
    show "keys_distinct p" by (rule keys_distinct_get [OF keys_distinct_get [OF assms s(1)] s(2)])
  qed
  ultimately show ?thesis
    by (simp add: doc_ok_def doc_of_value_def Let_def object_of_get)
qed

lemma load_doc_ok:
  assumes "yaml_maps_ok y" and "load_doc y fault path d = Inr dc"
  shows "doc_ok dc"
proof -
  have "doc_ok (doc_of_value v)" if "yaml_parse y t = Inr v" for t v
  proof -
    from assms(1) have "case yaml_parse y t of Inl _ \<Rightarrow> True | Inr v \<Rightarrow> keys_distinct v"
      by (simp add: yaml_maps_ok_def)
    with that show ?thesis by (simp add: doc_of_value_ok)
  qed
  with assms(2) show ?thesis
    by (auto simp: load_doc_def parse_doc_def split: sum.splits io_error.splits)
qed

end
