(* ===== verification/Editor.thy ===== *)
theory Editor
imports Templates Persist
begin

text \<open>
  The editor's state machine, \<open>App\<close> and \<open>Screen\<close> of \<open>editor/app.rs\<close>: one handler per
  screen, composed by \<open>handle_key\<close> and \<open>on_key\<close> as in the source. A handler that can panic
  has an option type; the whole step works on the disk as well, since one key saves.
\<close>

section \<open>Tabs\<close>

datatype top_tab = Receivers | Exporters | Extensions | Pipelines

fun tab_category :: "top_tab \<Rightarrow> component_category option" where
  "tab_category Receivers = Some Receiver"
| "tab_category Exporters = Some Exporter"
| "tab_category Extensions = Some Extension"
| "tab_category Pipelines = None"

fun tab_next :: "top_tab \<Rightarrow> top_tab" where
  "tab_next Receivers = Exporters"
| "tab_next Exporters = Extensions"
| "tab_next Extensions = Pipelines"
| "tab_next Pipelines = Receivers"

fun tab_prev :: "top_tab \<Rightarrow> top_tab" where
  "tab_prev Receivers = Pipelines"
| "tab_prev Exporters = Receivers"
| "tab_prev Extensions = Exporters"
| "tab_prev Pipelines = Extensions"

fun tab_label :: "top_tab \<Rightarrow> string" where
  "tab_label Receivers = ''Receivers''"
| "tab_label Exporters = ''Exporters''"
| "tab_label Extensions = ''Extensions''"
| "tab_label Pipelines = ''Pipelines''"

fun tab_for :: "component_category \<Rightarrow> top_tab" where
  "tab_for Receiver = Receivers"
| "tab_for Exporter = Exporters"
| "tab_for Extension = Extensions"

definition PIPELINE_FIELDS :: "field_spec list" where
  "PIPELINE_FIELDS =
     [\<lparr>fkey = ''receivers'', fkind = StringList, frequired = False, fdefault = None,
       fhelp = ''Which receivers feed this pipeline, by id -- e.g. syslog/udp, file_log/app. Comma-separate multiple.''\<rparr>,
      \<lparr>fkey = ''exporters'', fkind = StringList, frequired = False, fdefault = None,
       fhelp = ''Where processed events get sent, by exporter id -- e.g. splunk_hec/sentinelone. Comma-separate multiple to fan out to more than one.''\<rparr>]"

section \<open>Screens and the application\<close>

datatype 'i screen =
    TopLevel top_tab nat
  | PickType component_category nat
  | NameNewComponent component_category string 'i
  | NameNewPipeline 'i
  | EditComponent component_category string "'i form_state"
  | EditPipeline string "'i form_state"
  | ConfirmRemove component_category string "string list"
  | OperatorListScreen component_category string "'i form_state" nat
  | OperatorPickType component_category string "'i form_state" nat
  | OperatorEdit component_category string "'i form_state" "nat option" "'i form_state"
  | TemplateBrowse nat
  | NameTemplateReceiver string 'i
  | EditTemplateParams string string "'i form_state"
  | ReviewTemplateReceiver string string json json

record 'i app =
  config_path :: string
  doc :: editor_doc
  screen :: "'i screen"
  status_message :: "string option"
  dirty :: bool
  should_quit :: bool
  show_help :: bool

definition screen_default :: "'i screen" where
  "screen_default = TopLevel Receivers 0"

definition app_new :: "string \<Rightarrow> editor_doc \<Rightarrow> 'i app" where
  "app_new path document =
     \<lparr>config_path = path, doc = document, screen = screen_default, status_message = None,
      dirty = False, should_quit = False, show_help = False\<rparr>"

fun screen_accepts_help_hotkey :: "'i screen \<Rightarrow> bool" where
  "screen_accepts_help_hotkey (TopLevel _ _) = True"
| "screen_accepts_help_hotkey (PickType _ _) = True"
| "screen_accepts_help_hotkey (ConfirmRemove _ _ _) = True"
| "screen_accepts_help_hotkey (OperatorListScreen _ _ _ _) = True"
| "screen_accepts_help_hotkey (OperatorPickType _ _ _ _) = True"
| "screen_accepts_help_hotkey (TemplateBrowse _) = True"
| "screen_accepts_help_hotkey _ = False"

fun map_for :: "component_category \<Rightarrow> editor_doc \<Rightarrow> json_map" where
  "map_for Receiver document = receivers document"
| "map_for Exporter document = exporters document"
| "map_for Extension document = extensions document"

text \<open>A write through \<open>map_for_mut\<close>.\<close>

fun with_map_for ::
  "component_category \<Rightarrow> (json_map \<Rightarrow> json_map) \<Rightarrow> editor_doc \<Rightarrow> editor_doc" where
  "with_map_for Receiver f document = document\<lparr>receivers := f (receivers document)\<rparr>"
| "with_map_for Exporter f document = document\<lparr>exporters := f (exporters document)\<rparr>"
| "with_map_for Extension f document = document\<lparr>extensions := f (extensions document)\<rparr>"

definition ids_for_tab :: "editor_doc \<Rightarrow> top_tab \<Rightarrow> string list" where
  "ids_for_tab document tab =
     sort (case tab_category tab of
       Some category \<Rightarrow> map_keys (map_for category document)
     | None \<Rightarrow> map_keys (pipelines document))"

definition save_error_hint :: "string \<Rightarrow> string option" where
  "save_error_hint message =
     (if str_contains ''windows_event_log'' message
      then Some '' -- windows_event_log only works if sgcia-otelcol runs on Windows; remove it and its pipeline to test elsewhere''
      else None)"

section \<open>The handlers\<close>

text \<open>Moving a selection over a list of \<open>n\<close> entries.\<close>

definition select_down :: "nat \<Rightarrow> nat \<Rightarrow> nat" where
  "select_down n selected = (if n = 0 then 0 else min (selected + 1) (n - 1))"

definition select_up :: "nat \<Rightarrow> nat" where
  "select_up selected = selected - 1"

definition with_status :: "string \<Rightarrow> 'i app \<Rightarrow> 'i app" where
  "with_status s app = app\<lparr>status_message := Some s\<rparr>"

definition taken_message :: "string \<Rightarrow> string" where
  "taken_message cid = [CHR 0x27] @ cid @ [CHR 0x27] @ '' is empty or already exists''"

definition updated_message :: "string \<Rightarrow> string" where
  "updated_message cid =
     cid @ '' updated (press '' @ [CHR 0x27] @ ''s'' @ [CHR 0x27] @ '' to save to disk)''"

definition created_message :: "string \<Rightarrow> string" where
  "created_message cid =
     cid @ '' created from template (press '' @ [CHR 0x27] @ ''s'' @ [CHR 0x27] @ '' to save to disk)''"

text \<open>A change of the document, marked and reported.\<close>

definition change_doc :: "(editor_doc \<Rightarrow> editor_doc) \<Rightarrow> string \<Rightarrow> 'i app \<Rightarrow> 'i app" where
  "change_doc f message app =
     app\<lparr>doc := f (doc app), dirty := True, status_message := Some message\<rparr>"

type_synonym 'i handled = "('i app \<times> 'i screen) option"

definition handle_name_component ::
  "'i ui \<Rightarrow> 'i app \<Rightarrow> component_category \<Rightarrow> string \<Rightarrow> 'i \<Rightarrow> key_event \<Rightarrow> 'i handled" where
  "handle_name_component ui app category ty input k =
     (case code k of
        KEsc \<Rightarrow> Some (app, TopLevel (tab_for category) 0)
      | KEnter \<Rightarrow>
          (let cid = trim (input_value ui input) in
           if cid = [] \<or> contains_key (map_for category (doc app)) cid
           then Some (with_status (taken_message cid) app, NameNewComponent category ty input)
           else
             Option.bind (type_spec category ty) (\<lambda>spec.
             let seed = minimal_value spec in
             Option.bind (form_new ui (Some ty) False (ct_fields spec) seed) (\<lambda>form.
             Some (app, EditComponent category cid form))))
      | _ \<Rightarrow> Some (app, NameNewComponent category ty (input_handle ui input k)))"

definition handle_name_pipeline :: "'i ui \<Rightarrow> 'i app \<Rightarrow> 'i \<Rightarrow> key_event \<Rightarrow> 'i handled" where
  "handle_name_pipeline ui app input k =
     (case code k of
        KEsc \<Rightarrow> Some (app, TopLevel Pipelines 0)
      | KEnter \<Rightarrow>
          (let cid = trim (input_value ui input) in
           if cid = [] \<or> contains_key (pipelines (doc app)) cid
           then Some (with_status (taken_message cid) app, NameNewPipeline input)
           else Option.bind (form_new ui None False PIPELINE_FIELDS (JObject [])) (\<lambda>form.
             Some (app, EditPipeline cid form)))
      | _ \<Rightarrow> Some (app, NameNewPipeline (input_handle ui input k)))"

definition handle_edit_component ::
  "'i ui \<Rightarrow> 'i app \<Rightarrow> component_category \<Rightarrow> string \<Rightarrow> 'i form_state \<Rightarrow> key_event \<Rightarrow> 'i handled" where
  "handle_edit_component ui app category cid form k =
     (if code k = KEnter \<and> focused_kind form = Some OperatorList
      then Some (app, OperatorListScreen category cid form 0)
      else
        Option.bind (form_on_key ui form k) (\<lambda>(form, out).
        case out of
          Continue \<Rightarrow> Some (app, EditComponent category cid form)
        | Cancel \<Rightarrow> Some (app, TopLevel (tab_for category) 0)
        | Submit \<Rightarrow>
            Option.bind (to_value ui form) (\<lambda>v.
            Some (change_doc (with_map_for category (\<lambda>m. map_insert m cid v)) (updated_message cid) app,
              TopLevel (tab_for category) 0))))"

definition handle_edit_pipeline ::
  "'i ui \<Rightarrow> 'i app \<Rightarrow> string \<Rightarrow> 'i form_state \<Rightarrow> key_event \<Rightarrow> 'i handled" where
  "handle_edit_pipeline ui app cid form k =
     Option.bind (form_on_key ui form k) (\<lambda>(form, out).
     case out of
       Continue \<Rightarrow> Some (app, EditPipeline cid form)
     | Cancel \<Rightarrow> Some (app, TopLevel Pipelines 0)
     | Submit \<Rightarrow>
         Option.bind (to_value ui form) (\<lambda>v.
         Some (change_doc (\<lambda>dc. dc\<lparr>pipelines := map_insert (pipelines dc) cid v\<rparr>)
             (updated_message cid) app,
           TopLevel Pipelines 0)))"

definition handle_confirm_remove ::
  "'i app \<Rightarrow> component_category \<Rightarrow> string \<Rightarrow> key_event \<Rightarrow> 'i handled" where
  "handle_confirm_remove app category cid k =
     (if code k = KChar ''y''
      then Some (change_doc
          (\<lambda>dc. with_map_for category (\<lambda>m. map_remove m cid) (strip_from_pipelines category cid dc))
          (''removed '' @ cid) app,
        TopLevel (tab_for category) 0)
      else Some (app, TopLevel (tab_for category) 0))"

definition handle_operator_list ::
  "'i ui \<Rightarrow> 'i app \<Rightarrow> component_category \<Rightarrow> string \<Rightarrow> 'i form_state \<Rightarrow> nat \<Rightarrow> key_event \<Rightarrow>
   'i handled" where
  "handle_operator_list ui app category cid form selected k =
     (let ops = operators form;
          stay = OperatorListScreen category cid form selected;
          remove = OperatorListScreen category cid
            (if selected < length ops then set_operators form (remove_nth selected ops) else form) 0
      in case code k of
        KEsc \<Rightarrow> Some (app, EditComponent category cid (advance_focus form))
      | KDown \<Rightarrow>
          Some (app, OperatorListScreen category cid form (select_down (length ops) selected))
      | KUp \<Rightarrow> Some (app, OperatorListScreen category cid form (select_up selected))
      | KEnter \<Rightarrow>
          (case nth_opt ops selected of
             None \<Rightarrow> Some (app, stay)
           | Some op_value \<Rightarrow>
               (let ty = (case Option.bind (json_get op_value ''type'') as_str of
                    Some s \<Rightarrow> s | None \<Rightarrow> [])
                in case operator_type ty of
                     None \<Rightarrow> Some (app, stay)
                   | Some spec \<Rightarrow>
                       Option.bind (form_new ui (Some (ct_name spec)) True (ct_fields spec) op_value)
                         (\<lambda>op_form. Some (app, OperatorEdit category cid form (Some selected) op_form))))
      | KChar c \<Rightarrow>
          (if c = ''a'' then Some (app, OperatorPickType category cid form 0)
           else if c = ''d'' then Some (app, remove)
           else Some (app, stay))
      | KDelete \<Rightarrow> Some (app, remove)
      | _ \<Rightarrow> Some (app, stay))"

definition handle_operator_pick_type ::
  "'i ui \<Rightarrow> 'i app \<Rightarrow> component_category \<Rightarrow> string \<Rightarrow> 'i form_state \<Rightarrow> nat \<Rightarrow> key_event \<Rightarrow>
   'i handled" where
  "handle_operator_pick_type ui app category cid form selected k =
     (let types = operator_types in
      case code k of
        KEsc \<Rightarrow> Some (app, OperatorListScreen category cid form 0)
      | KDown \<Rightarrow>
          Some (app, OperatorPickType category cid form (select_down (length types) selected))
      | KUp \<Rightarrow> Some (app, OperatorPickType category cid form (select_up selected))
      | KEnter \<Rightarrow>
          (case nth_opt types selected of
             None \<Rightarrow> Some (app, OperatorPickType category cid form selected)
           | Some spec \<Rightarrow>
               Option.bind (form_new ui (Some (ct_name spec)) True (ct_fields spec)
                   (minimal_value spec))
                 (\<lambda>op_form. Some (app, OperatorEdit category cid form None op_form)))
      | _ \<Rightarrow> Some (app, OperatorPickType category cid form selected))"

text \<open>The list after a submitted operator form, and the entry selected in it.\<close>

definition place_operator :: "nat option \<Rightarrow> json \<Rightarrow> json list \<Rightarrow> json list \<times> nat" where
  "place_operator index v ops =
     (case index of
        Some i \<Rightarrow>
          if i < length ops then (ops[i := v], i) else (ops @ [v], length (ops @ [v]) - 1)
      | None \<Rightarrow> (ops @ [v], length (ops @ [v]) - 1))"

definition handle_operator_edit ::
  "'i ui \<Rightarrow> 'i app \<Rightarrow> component_category \<Rightarrow> string \<Rightarrow> 'i form_state \<Rightarrow> nat option \<Rightarrow>
   'i form_state \<Rightarrow> key_event \<Rightarrow> 'i handled" where
  "handle_operator_edit ui app category cid form index op_form k =
     Option.bind (form_on_key ui op_form k) (\<lambda>(op_form, out).
     case out of
       Continue \<Rightarrow> Some (app, OperatorEdit category cid form index op_form)
     | Cancel \<Rightarrow>
         Some (app, OperatorListScreen category cid form (case index of Some i \<Rightarrow> i | None \<Rightarrow> 0))
     | Submit \<Rightarrow>
         Option.bind (to_value ui op_form) (\<lambda>v.
         let (ops, selected) = place_operator index v (operators form) in
         Some (app, OperatorListScreen category cid (set_operators form ops) selected)))"

definition handle_pick_type ::
  "'i ui \<Rightarrow> 'i app \<Rightarrow> component_category \<Rightarrow> nat \<Rightarrow> key_event \<Rightarrow> 'i handled" where
  "handle_pick_type ui app category selected k =
     (let types = types_for category in
      case code k of
        KEsc \<Rightarrow> Some (app, TopLevel (tab_for category) 0)
      | KDown \<Rightarrow> Some (app, PickType category (select_down (length types) selected))
      | KUp \<Rightarrow> Some (app, PickType category (select_up selected))
      | KEnter \<Rightarrow>
          (case nth_opt types selected of
             None \<Rightarrow> Some (app, PickType category selected)
           | Some spec \<Rightarrow> Some (app, NameNewComponent category (ct_name spec) (input_default ui)))
      | _ \<Rightarrow> Some (app, PickType category selected))"

definition handle_template_browse :: "'i ui \<Rightarrow> 'i app \<Rightarrow> nat \<Rightarrow> key_event \<Rightarrow> 'i handled" where
  "handle_template_browse ui app selected k =
     (case code k of
        KEsc \<Rightarrow> Some (app, TopLevel Receivers 0)
      | KDown \<Rightarrow> Some (app, TemplateBrowse (select_down (length SOURCE_TEMPLATES) selected))
      | KUp \<Rightarrow> Some (app, TemplateBrowse (select_up selected))
      | KEnter \<Rightarrow>
          (case nth_opt SOURCE_TEMPLATES selected of
             None \<Rightarrow> Some (app, TemplateBrowse selected)
           | Some t \<Rightarrow> Some (app, NameTemplateReceiver (tkey t) (input_new ui (tdefault_id t))))
      | _ \<Rightarrow> Some (app, TemplateBrowse selected))"

definition handle_name_template ::
  "'i ui \<Rightarrow> 'i app \<Rightarrow> string \<Rightarrow> 'i \<Rightarrow> key_event \<Rightarrow> 'i handled" where
  "handle_name_template ui app template_key input k =
     (case code k of
        KEsc \<Rightarrow> Some (app, TopLevel Receivers 0)
      | KEnter \<Rightarrow>
          (let cid = trim (input_value ui input) in
           if cid = [] \<or> contains_key (receivers (doc app)) cid
           then Some (with_status (taken_message cid) app, NameTemplateReceiver template_key input)
           else
             Option.bind (template_find template_key) (\<lambda>template.
             Option.bind (form_new ui None False (tparams template) (JObject [])) (\<lambda>form.
             Some (app, EditTemplateParams template_key cid form))))
      | _ \<Rightarrow> Some (app, NameTemplateReceiver template_key (input_handle ui input k)))"

definition handle_template_params ::
  "'i ui \<Rightarrow> 'i app \<Rightarrow> string \<Rightarrow> string \<Rightarrow> 'i form_state \<Rightarrow> key_event \<Rightarrow> 'i handled" where
  "handle_template_params ui app template_key cid form k =
     Option.bind (form_on_key ui form k) (\<lambda>(form, out).
     case out of
       Continue \<Rightarrow> Some (app, EditTemplateParams template_key cid form)
     | Cancel \<Rightarrow> Some (app, TopLevel Receivers 0)
     | Submit \<Rightarrow>
         Option.bind (template_find template_key) (\<lambda>template.
         Option.bind (to_value ui form) (\<lambda>params.
         Some (app, ReviewTemplateReceiver template_key cid params (tbuild template params)))))"

definition handle_template_review ::
  "'i ui \<Rightarrow> 'i app \<Rightarrow> string \<Rightarrow> string \<Rightarrow> json \<Rightarrow> json \<Rightarrow> key_event \<Rightarrow> 'i handled" where
  "handle_template_review ui app template_key cid params receiver k =
     (case code k of
        KEnter \<Rightarrow>
          Some (change_doc (\<lambda>dc. dc\<lparr>receivers := map_insert (receivers dc) cid receiver\<rparr>)
              (created_message cid) app,
            TopLevel Receivers 0)
      | KEsc \<Rightarrow>
          Option.bind (template_find template_key) (\<lambda>template.
          Option.bind (form_new ui None False (tparams template) params) (\<lambda>form.
          Some (app, EditTemplateParams template_key cid form)))
      | _ \<Rightarrow> Some (app, ReviewTemplateReceiver template_key cid params receiver))"

subsection \<open>The top level\<close>

text \<open>
  Enter opens the selected entry; \<open>self.map_for(category)[&id]\<close> panics on an absent key. An id
  of an unregistered type is edited with the first type of its category.
\<close>

definition open_selected ::
  "'i ui \<Rightarrow> 'i app \<Rightarrow> top_tab \<Rightarrow> nat \<Rightarrow> 'i handled" where
  "open_selected ui app tab selected =
     (case nth_opt (ids_for_tab (doc app) tab) selected of
        None \<Rightarrow> Some (app, TopLevel tab selected)
      | Some cid \<Rightarrow>
          (case tab_category tab of
             Some category \<Rightarrow>
               Option.bind (map_get (map_for category (doc app)) cid) (\<lambda>v.
               case (case type_spec category (component_type cid) of
                       Some spec \<Rightarrow> Some spec
                     | None \<Rightarrow> nth_opt (types_for category) 0) of
                 None \<Rightarrow> Some (app, TopLevel tab selected)
               | Some spec \<Rightarrow>
                   Option.bind (form_new ui (Some (ct_name spec)) False (ct_fields spec) v)
                     (\<lambda>form. Some (app, EditComponent category cid form)))
           | None \<Rightarrow>
               Option.bind (map_get (pipelines (doc app)) cid) (\<lambda>v.
               Option.bind (form_new ui None False PIPELINE_FIELDS v) (\<lambda>form.
               Some (app, EditPipeline cid form)))))"

definition delete_selected :: "'i app \<Rightarrow> top_tab \<Rightarrow> nat \<Rightarrow> 'i handled" where
  "delete_selected app tab selected =
     (case nth_opt (ids_for_tab (doc app) tab) selected of
        None \<Rightarrow> Some (app, TopLevel tab selected)
      | Some cid \<Rightarrow>
          (case tab_category tab of
             Some category \<Rightarrow>
               (let blocking = pipelines_referencing (doc app) category cid in
                if blocking = []
                then Some (change_doc (with_map_for category (\<lambda>m. map_remove m cid))
                    (''removed '' @ cid) app, TopLevel tab 0)
                else Some (app, ConfirmRemove category cid blocking))
           | None \<Rightarrow>
               Some (change_doc (\<lambda>dc. dc\<lparr>pipelines := map_remove (pipelines dc) cid\<rparr>)
                 (''removed '' @ cid) app, TopLevel tab 0)))"

text \<open>What a save leaves in the application; the screen stays.\<close>

definition after_save :: "editor_error + unit \<Rightarrow> 'i app \<Rightarrow> 'i app" where
  "after_save result app =
     (case result of
        Inr _ \<Rightarrow> app\<lparr>dirty := False, status_message := Some (''saved '' @ config_path app)\<rparr>
      | Inl e \<Rightarrow>
          (let message = ''save failed: '' @ error_text e
           in app\<lparr>status_message := Some
             (case save_error_hint message of
                Some hint \<Rightarrow> message @ hint
              | None \<Rightarrow> message)\<rparr>))"

text \<open>The keys of the top level that stay in memory: all but \<open>s\<close>.\<close>

definition top_level_key ::
  "'i ui \<Rightarrow> 'i app \<Rightarrow> top_tab \<Rightarrow> nat \<Rightarrow> key_event \<Rightarrow> 'i handled" where
  "top_level_key ui app tab selected k =
     (let n = length (ids_for_tab (doc app) tab) in
      case code k of
        KEsc \<Rightarrow> Some (app\<lparr>should_quit := True\<rparr>, TopLevel tab selected)
      | KTab \<Rightarrow> Some (app, TopLevel (tab_next tab) 0)
      | KBackTab \<Rightarrow> Some (app, TopLevel (tab_prev tab) 0)
      | KDown \<Rightarrow> Some (app, TopLevel tab (select_down n selected))
      | KUp \<Rightarrow> Some (app, TopLevel tab (select_up selected))
      | KEnter \<Rightarrow> open_selected ui app tab selected
      | KDelete \<Rightarrow> delete_selected app tab selected
      | KChar c \<Rightarrow>
          (if c = ''q'' then Some (app\<lparr>should_quit := True\<rparr>, TopLevel tab selected)
           else if c = ''a'' then
             (case tab_category tab of
                Some category \<Rightarrow> Some (app, PickType category 0)
              | None \<Rightarrow> Some (app, NameNewPipeline (input_default ui)))
           else if c = ''T'' \<and> tab = Receivers then Some (app, TemplateBrowse 0)
           else if c = ''d'' then delete_selected app tab selected
           else Some (app, TopLevel tab selected))
      | _ \<Rightarrow> Some (app, TopLevel tab selected))"

section \<open>One key\<close>

text \<open>
  The environment of one key press: the processes and files the validator needs, and what
  happens to the calls of the write. A step ends with the application and its new screen, with
  a panic, or with a power failure in the middle of a save.
\<close>

record world =
  world_os :: os
  world_faults :: "nat \<Rightarrow> fault"

datatype stop = Panic | PowerOff

fun of_handled :: "('a \<times> 'b) option \<Rightarrow> stop + 'a \<times> 'b" where
  "of_handled None = Inl Panic"
| "of_handled (Some r) = Inr r"

definition save_key ::
  "yaml \<Rightarrow> world \<Rightarrow> 'i app \<Rightarrow> 'i screen \<Rightarrow> disk \<Rightarrow> (stop + 'i app \<times> 'i screen) \<times> disk" where
  "save_key y w app stay d =
     (case save_doc (world_os w) y (world_faults w) (config_path app) (doc app) d of
        (None, d') \<Rightarrow> (Inl PowerOff, d')
      | (Some result, d') \<Rightarrow> (Inr (after_save result app, stay), d'))"

definition handle_top_level ::
  "'i ui \<Rightarrow> yaml \<Rightarrow> world \<Rightarrow> 'i app \<Rightarrow> top_tab \<Rightarrow> nat \<Rightarrow> key_event \<Rightarrow> disk \<Rightarrow>
   (stop + 'i app \<times> 'i screen) \<times> disk" where
  "handle_top_level ui y w app tab selected k d =
     (if code k = KChar ''s'' then save_key y w app (TopLevel tab selected) d
      else (of_handled (top_level_key ui app tab selected k), d))"

definition handle_key ::
  "'i ui \<Rightarrow> yaml \<Rightarrow> world \<Rightarrow> 'i app \<Rightarrow> 'i screen \<Rightarrow> key_event \<Rightarrow> disk \<Rightarrow>
   (stop + 'i app \<times> 'i screen) \<times> disk" where
  "handle_key ui y w app scr k d =
     (case scr of
        TopLevel tab selected \<Rightarrow> handle_top_level ui y w app tab selected k d
      | PickType category selected \<Rightarrow>
          (of_handled (handle_pick_type ui app category selected k), d)
      | NameNewComponent category ty input \<Rightarrow>
          (of_handled (handle_name_component ui app category ty input k), d)
      | NameNewPipeline input \<Rightarrow> (of_handled (handle_name_pipeline ui app input k), d)
      | EditComponent category cid form \<Rightarrow>
          (of_handled (handle_edit_component ui app category cid form k), d)
      | EditPipeline cid form \<Rightarrow> (of_handled (handle_edit_pipeline ui app cid form k), d)
      | ConfirmRemove category cid blocking \<Rightarrow>
          (of_handled (handle_confirm_remove app category cid k), d)
      | OperatorListScreen category cid form selected \<Rightarrow>
          (of_handled (handle_operator_list ui app category cid form selected k), d)
      | OperatorPickType category cid form selected \<Rightarrow>
          (of_handled (handle_operator_pick_type ui app category cid form selected k), d)
      | OperatorEdit category cid form index op_form \<Rightarrow>
          (of_handled (handle_operator_edit ui app category cid form index op_form k), d)
      | TemplateBrowse selected \<Rightarrow> (of_handled (handle_template_browse ui app selected k), d)
      | NameTemplateReceiver tk input \<Rightarrow> (of_handled (handle_name_template ui app tk input k), d)
      | EditTemplateParams tk cid form \<Rightarrow>
          (of_handled (handle_template_params ui app tk cid form k), d)
      | ReviewTemplateReceiver tk cid params receiver \<Rightarrow>
          (of_handled (handle_template_review ui app tk cid params receiver k), d))"

text \<open>
  \<open>App::on_key\<close>: a key dismisses the help overlay, or opens it, or goes to the screen. The
  screen is taken out of the application and the default left in its place while it is handled.
\<close>

definition on_key ::
  "'i ui \<Rightarrow> yaml \<Rightarrow> world \<Rightarrow> key_event \<Rightarrow> 'i app \<times> disk \<Rightarrow> (stop + 'i app) \<times> disk" where
  "on_key ui y w k s =
     (let (app, d) = s in
      if show_help app then (Inr (app\<lparr>show_help := False\<rparr>), d)
      else if code k = KChar ''?'' \<and> screen_accepts_help_hotkey (screen app)
      then (Inr (app\<lparr>show_help := True\<rparr>), d)
      else
        (case handle_key ui y w (app\<lparr>screen := screen_default\<rparr>) (screen app) k d of
           (Inl stop, d') \<Rightarrow> (Inl stop, d')
         | (Inr (app', scr), d') \<Rightarrow> (Inr (app'\<lparr>screen := scr\<rparr>), d')))"

text \<open>
  The loop of \<open>run_app\<close> in \<open>editor/mod.rs\<close>: it returns at the first draw after a key that
  quits, and a key read once that has happened is not handled.
\<close>

fun run_keys ::
  "'i ui \<Rightarrow> yaml \<Rightarrow> (world \<times> key_event) list \<Rightarrow> 'i app \<times> disk \<Rightarrow> (stop + 'i app) \<times> disk" where
  "run_keys ui y [] (app, d) = (Inr app, d)"
| "run_keys ui y ((w, k) # ks) (app, d) =
     (if should_quit app then (Inr app, d)
      else (case on_key ui y w k (app, d) of
         (Inl stop, d') \<Rightarrow> (Inl stop, d')
       | (Inr app', d') \<Rightarrow> run_keys ui y ks (app', d')))"

text \<open>\<open>editor::run\<close>: load, then the loop; a load error is returned before anything is drawn.\<close>

definition editor_run ::
  "'i ui \<Rightarrow> yaml \<Rightarrow> io_error option \<Rightarrow> (world \<times> key_event) list \<Rightarrow> string \<Rightarrow> disk \<Rightarrow>
   editor_error + (stop + 'i app) \<times> disk" where
  "editor_run ui y read_fault ks path d =
     (case load_doc y read_fault path d of
        Inl e \<Rightarrow> Inl e
      | Inr document \<Rightarrow> Inr (run_keys ui y ks (app_new path document, d)))"

end
