(* ===== verification/Editor_Safety.thy ===== *)
theory Editor_Safety
imports Editor
begin

text \<open>
  The editor's invariant: what every screen may assume of the document and of the forms it
  carries. One lemma per handler shows that the handler keeps it and cannot panic (the
  \<open>expect\<close>s, the map index and the option index of the source are all reachable code), and
  \<open>on_key_ok\<close> composes them.
\<close>

section \<open>Well-formed screens\<close>

text \<open>
  A form shows the fields of a registered type of its category; a template form those of its
  template; a selection is in range (or 0 on an empty list); a new id is not blank.
\<close>

definition component_form :: "component_category \<Rightarrow> 'i form_state \<Rightarrow> bool" where
  "component_form category form \<longleftrightarrow>
     form_ok form \<and> \<not> write_type_key form \<and>
     map_option ct_fields (Option.bind (type_name form) (type_spec category)) =
       Some (fields_spec form)"

definition operator_form :: "'i form_state \<Rightarrow> bool" where
  "operator_form form \<longleftrightarrow>
     form_ok form \<and> write_type_key form \<and>
     map_option ct_fields (Option.bind (type_name form) operator_type) = Some (fields_spec form)"

definition pipeline_form :: "'i form_state \<Rightarrow> bool" where
  "pipeline_form form \<longleftrightarrow>
     form_ok form \<and> \<not> write_type_key form \<and> fields_spec form = PIPELINE_FIELDS"

definition template_form :: "string \<Rightarrow> 'i form_state \<Rightarrow> bool" where
  "template_form tk form \<longleftrightarrow>
     form_ok form \<and> \<not> write_type_key form \<and>
     map_option tparams (template_find tk) = Some (fields_spec form)"

definition new_id :: "json_map \<Rightarrow> string \<Rightarrow> bool" where
  "new_id m cid \<longleftrightarrow> cid \<noteq> [] \<and> trimmed cid \<and> \<not> contains_key m cid"

definition usable_id :: "json_map \<Rightarrow> string \<Rightarrow> bool" where
  "usable_id m cid \<longleftrightarrow> contains_key m cid \<or> new_id m cid"

fun screen_ok :: "editor_doc \<Rightarrow> 'i screen \<Rightarrow> bool" where
  "screen_ok dc (TopLevel tab selected) = (selected < max (length (ids_for_tab dc tab)) 1)"
| "screen_ok dc (PickType category selected) = (selected < length (types_for category))"
| "screen_ok dc (NameNewComponent category ty _) = (type_spec category ty \<noteq> None)"
| "screen_ok dc (NameNewPipeline _) = True"
| "screen_ok dc (EditComponent category cid form) =
     (component_form category form \<and> usable_id (map_for category dc) cid)"
| "screen_ok dc (EditPipeline cid form) = (pipeline_form form \<and> usable_id (pipelines dc) cid)"
| "screen_ok dc (ConfirmRemove category cid blocking) =
     (contains_key (map_for category dc) cid \<and> blocking \<noteq> [] \<and>
      blocking = pipelines_referencing dc category cid)"
| "screen_ok dc (OperatorListScreen category cid form selected) =
     (component_form category form \<and> usable_id (map_for category dc) cid \<and>
      operator_list_index form \<noteq> None \<and> selected < max (length (operators form)) 1)"
| "screen_ok dc (OperatorPickType category cid form selected) =
     (component_form category form \<and> usable_id (map_for category dc) cid \<and>
      operator_list_index form \<noteq> None \<and> selected < length operator_types)"
| "screen_ok dc (OperatorEdit category cid form index op_form) =
     (component_form category form \<and> usable_id (map_for category dc) cid \<and>
      operator_list_index form \<noteq> None \<and> operator_form op_form \<and>
      (case index of Some i \<Rightarrow> i < length (operators form) | None \<Rightarrow> True))"
| "screen_ok dc (TemplateBrowse selected) = (selected < length SOURCE_TEMPLATES)"
| "screen_ok dc (NameTemplateReceiver tk _) = (template_find tk \<noteq> None)"
| "screen_ok dc (EditTemplateParams tk cid form) =
     (template_form tk form \<and> new_id (receivers dc) cid)"
| "screen_ok dc (ReviewTemplateReceiver tk cid params receiver) =
     (new_id (receivers dc) cid \<and>
      map_option (\<lambda>t. tbuild t params) (template_find tk) = Some receiver)"

text \<open>
  Whether the panic is impossible and the invariant kept: the shape of every handler's lemma.
\<close>

definition handled_ok :: "'i handled \<Rightarrow> bool" where
  "handled_ok r \<longleftrightarrow>
     (case r of
        Some (app, scr) \<Rightarrow> doc_ok (doc app) \<and> screen_ok (doc app) scr
      | None \<Rightarrow> False)"

lemma handled_ok_Some [simp]:
  "handled_ok (Some (app, scr)) \<longleftrightarrow> doc_ok (doc app) \<and> screen_ok (doc app) scr"
  by (simp add: handled_ok_def)

subsection \<open>Forms opened by a screen\<close>

lemma form_new_fields:
  "form_new ui ty w specs v = Some form \<Longrightarrow>
   fields_spec form = specs \<and> type_name form = ty \<and> write_type_key form = w"
  by (auto simp: form_new_def)

lemma form_on_key_frame:
  "form_on_key ui form k = Some (form', out) \<Longrightarrow>
   fields_spec form' = fields_spec form \<and> type_name form' = type_name form \<and>
   write_type_key form' = write_type_key form \<and> length (fstates form') = length (fstates form)"
  by (auto simp: form_on_key_def split: key_code.splits option.splits)

lemma set_operators_frame:
  "fields_spec (set_operators form ops) = fields_spec form"
  "type_name (set_operators form ops) = type_name form"
  "write_type_key (set_operators form ops) = write_type_key form"
  by (simp_all add: set_operators_def split: option.split field_edit_state.split)

lemma advance_focus_frame:
  "fields_spec (advance_focus form) = fields_spec form"
  "type_name (advance_focus form) = type_name form"
  "write_type_key (advance_focus form) = write_type_key form"
  by (simp_all add: advance_focus_def)

lemma set_operators_index:
  "operator_list_index (set_operators form ops) = operator_list_index form"
  by (simp add: operator_list_index_def set_operators_frame)

text \<open>The operators of a form that has the field: a \<open>set\<close> is read back.\<close>

lemma operators_set:
  assumes "form_ok form" and "operator_list_index form \<noteq> None"
  shows "operators (set_operators form ops) = ops"
proof -
  obtain i where i: "operator_list_index form = Some i" using assms(2) by blast
  then have less: "i < length (fields_spec form)" and kd: "fkind (fields_spec form ! i) = OperatorList"
    by (auto simp: operator_list_index_def dest: position_SomeD)
  then have "i < length (fstates form)" using form_ok_length [OF assms(1)] by simp
  moreover from form_ok_nth [OF assms(1) this] kd
  obtain old where "fstates form ! i = OperatorListState old"
    by (auto split: field_edit_state.splits)
  ultimately have "set_operators form ops = form\<lparr>fstates := (fstates form)[i := OperatorListState ops]\<rparr>"
    using i by (simp add: set_operators_def)
  with \<open>i < length (fstates form)\<close> i show ?thesis
    by (simp add: operators_def operator_list_index_def)
qed

lemma component_form_new:
  assumes "s \<in> set (types_for category)"
  shows "\<exists>form. form_new ui (Some (ct_name s)) False (ct_fields s) v = Some form \<and>
    component_form category form"
  using form_new_ok [OF types_for_nth_fields_ok [OF assms], of ui "Some (ct_name s)" False v]
    types.lookup_member [OF assms] form_new_fields
  by (fastforce simp: component_form_def)

lemma operator_form_new:
  assumes "s \<in> set operator_types"
  shows "\<exists>form. form_new ui (Some (ct_name s)) True (ct_fields s) v = Some form \<and>
    operator_form form"
  using form_new_ok [OF operator_types_nth_fields_ok [OF assms], of ui "Some (ct_name s)" True v]
    ops.lookup_member [OF assms] form_new_fields
  by (fastforce simp: operator_form_def)

lemma pipeline_fields_ok: "fields_ok PIPELINE_FIELDS"
  by code_simp

lemma pipeline_form_new:
  "\<exists>form. form_new ui None False PIPELINE_FIELDS v = Some form \<and> pipeline_form form"
  using form_new_ok [OF pipeline_fields_ok, of ui None False v] form_new_fields
  by (fastforce simp: pipeline_form_def)

lemma template_form_new:
  assumes "template_find tk = Some t"
  shows "\<exists>form. form_new ui None False (tparams t) v = Some form \<and> template_form tk form"
proof -
  have "fields_ok (tparams t)" using template_find_ok [OF assms] by (simp add: template_ok_def)
  from form_new_ok [OF this, of ui None False v] assms form_new_fields show ?thesis
    by (fastforce simp: template_form_def)
qed

lemma form_key_kept:
  assumes "form_on_key ui form k = Some (form', out)" and "form_ok form"
  shows "component_form category form \<Longrightarrow> component_form category form'"
    and "operator_form form \<Longrightarrow> operator_form form'"
    and "pipeline_form form \<Longrightarrow> pipeline_form form'"
    and "template_form tk form \<Longrightarrow> template_form tk form'"
  using form_on_key_frame [OF assms(1)] form_on_key_ok [OF assms(2), of ui k] assms(1)
  by (simp_all add: component_form_def operator_form_def pipeline_form_def template_form_def)

lemma component_form_frame [keeps]:
  "component_form category form \<Longrightarrow> component_form category (set_operators form ops)"
  "component_form category form \<Longrightarrow> component_form category (advance_focus form)"
  by (simp_all add: component_form_def set_operators_frame advance_focus_frame set_operators_ok
      advance_focus_ok)

subsection \<open>Selections\<close>

lemma select_down_less: "0 < n \<Longrightarrow> select_down n selected < n"
  by (auto simp: select_down_def)

lemma select_down_max: "select_down n selected < max n (Suc 0)"
  by (auto simp: select_down_def)

lemma select_up_le: "select_up selected \<le> selected"
  by (simp add: select_up_def)

lemma select_up_less: "selected < n \<Longrightarrow> select_up selected < n"
  by (simp add: select_up_def)

section \<open>Every handler keeps the invariant and cannot panic\<close>

lemma app_update_doc [simp]:
  "doc (change_doc f msg app) = f (doc app)" "doc (with_status msg app) = doc app"
  by (simp_all add: change_doc_def with_status_def)

lemma map_for_ok: "doc_ok dc \<Longrightarrow> map_ok (map_for category dc)"
  by (cases category) (simp_all add: doc_ok_def)

lemma with_map_for_ok [keeps]:
  "doc_ok dc \<Longrightarrow> map_ok (f (map_for category dc)) \<Longrightarrow> doc_ok (with_map_for category f dc)"
  by (cases category) (simp_all add: doc_ok_def)

lemma pipelines_ok [keeps]: "doc_ok dc \<Longrightarrow> map_ok m \<Longrightarrow> doc_ok (dc\<lparr>pipelines := m\<rparr>)"
  by (simp add: doc_ok_def)

lemma receivers_ok [keeps]: "doc_ok dc \<Longrightarrow> map_ok m \<Longrightarrow> doc_ok (dc\<lparr>receivers := m\<rparr>)"
  by (simp add: doc_ok_def)

lemma zero_less_max [simp]: "0 < max n (Suc 0)"
  by simp

text \<open>An entry of a tab's list is a key of the tab's map.\<close>

lemma ids_for_tab_category:
  "tab_category tab = Some category \<Longrightarrow> ids_for_tab dc tab = sort (map_keys (map_for category dc))"
  by (simp add: ids_for_tab_def)

lemma ids_for_tab_pipelines: "tab_category tab = None \<Longrightarrow> ids_for_tab dc tab = sort (map_keys (pipelines dc))"
  by (simp add: ids_for_tab_def)

lemma sorted_key_get:
  "nth_opt (sort (map_keys m)) i = Some cid \<Longrightarrow> \<exists>v. map_get m cid = Some v"
  using jm.sorted_keys_get [of i m] by (auto dest: nth_opt_SomeD)

lemma contains_get: "map_get m k = Some v \<Longrightarrow> contains_key m k"
  by (simp add: contains_key_def)

lemma usable_new: "cid \<noteq> [] \<Longrightarrow> trimmed cid \<Longrightarrow> \<not> contains_key m cid \<Longrightarrow> usable_id m cid"
  by (simp add: usable_id_def new_id_def)

lemma name_component_ok [panic_free]:
  assumes "doc_ok (doc app)" and "screen_ok (doc app) (NameNewComponent category ty input)"
  shows "handled_ok (handle_name_component ui app category ty input k)"
proof (cases "code k = KEnter \<and> trim (input_value ui input) \<noteq> [] \<and>
    \<not> contains_key (map_for category (doc app)) (trim (input_value ui input))")
  case True
  from assms(2) obtain s where s: "type_spec category ty = Some s" by auto
  then have "s \<in> set (types_for category)" and "ct_name s = ty"
    using types.lookup_SomeD by blast+
  then obtain form where "form_new ui (Some ty) False (ct_fields s) (minimal_value s) = Some form"
    and "component_form category form"
    using component_form_new [of s category ui "minimal_value s"] by blast
  with True s assms(1) show ?thesis
    by (simp add: handle_name_component_def usable_new)
next
  case False
  with assms show ?thesis
    by (cases "code k") (auto simp: handle_name_component_def Let_def)
qed

lemma name_pipeline_ok [panic_free]:
  assumes "doc_ok (doc app)"
  shows "handled_ok (handle_name_pipeline ui app input k)"
proof -
  obtain form where "form_new ui None False PIPELINE_FIELDS (JObject []) = Some form"
    and "pipeline_form form"
    using pipeline_form_new by blast
  with assms show ?thesis
    by (cases "code k") (auto simp: handle_name_pipeline_def Let_def usable_new)
qed

lemma name_template_ok [panic_free]:
  assumes "doc_ok (doc app)" and "screen_ok (doc app) (NameTemplateReceiver tk input)"
  shows "handled_ok (handle_name_template ui app tk input k)"
proof -
  from assms(2) obtain t where t: "template_find tk = Some t" by auto
  with template_form_new obtain form where
    "form_new ui None False (tparams t) (JObject []) = Some form" and "template_form tk form"
    by blast
  with assms t show ?thesis
    by (cases "code k") (auto simp: handle_name_template_def Let_def new_id_def)
qed

lemma edit_component_ok [panic_free]:
  assumes "doc_ok (doc app)" and "screen_ok (doc app) (EditComponent category cid form)"
  shows "handled_ok (handle_edit_component ui app category cid form k)"
proof (cases "code k = KEnter \<and> focused_kind form = Some OperatorList")
  case True
  then obtain s where "s \<in> set (fields_spec form)" and "fkind s = OperatorList"
    by (auto simp: focused_kind_def dest: nth_opt_SomeD)
  then have "operator_list_index form \<noteq> None"
    by (auto simp: operator_list_index_def position_None_iff)
  with True assms show ?thesis by (simp add: handle_edit_component_def)
next
  case False
  from assms(2) have ok: "form_ok form" by (simp add: component_form_def)
  from form_on_key_ok [OF ok, of ui k] obtain form' out where
    step: "form_on_key ui form k = Some (form', out)" and ok': "form_ok form'" by blast
  have form': "component_form category form'"
    using form_key_kept(1) [OF step ok] assms(2) by simp
  obtain v where v: "to_value ui form' = Some v" using to_value_ok [OF ok'] by blast
  from False assms step form' v show ?thesis
    by (cases out) (auto simp: handle_edit_component_def with_map_for_ok map_ok_insert map_for_ok)
qed

lemma edit_pipeline_ok [panic_free]:
  assumes "doc_ok (doc app)" and "screen_ok (doc app) (EditPipeline cid form)"
  shows "handled_ok (handle_edit_pipeline ui app cid form k)"
proof -
  from assms(2) have ok: "form_ok form" by (simp add: pipeline_form_def)
  from form_on_key_ok [OF ok, of ui k] obtain form' out where
    step: "form_on_key ui form k = Some (form', out)" and ok': "form_ok form'" by blast
  have form': "pipeline_form form'" using form_key_kept(3) [OF step ok] assms(2) by simp
  obtain v where v: "to_value ui form' = Some v" using to_value_ok [OF ok'] by blast
  have "map_ok (pipelines (doc app))" using assms(1) by (simp add: doc_ok_def)
  with assms step form' v show ?thesis
    by (cases out) (auto simp: handle_edit_pipeline_def pipelines_ok map_ok_insert)
qed

lemma confirm_remove_ok [panic_free]:
  assumes "doc_ok (doc app)"
  shows "handled_ok (handle_confirm_remove app category cid k)"
  using assms
  by (simp add: handle_confirm_remove_def with_map_for_ok map_ok_map_remove map_for_ok strip_doc_ok)

lemma operator_list_ok [panic_free]:
  assumes "doc_ok (doc app)" and scr: "screen_ok (doc app) (OperatorListScreen category cid form selected)"
  shows "handled_ok (handle_operator_list ui app category cid form selected k)"
proof -
  from scr have form: "component_form category form" "form_ok form"
    and index: "operator_list_index form \<noteq> None"
    and sel: "selected < max (length (operators form)) 1"
    by (simp_all add: component_form_def)
  note ops = operators_set [OF form(2) index]
  have edit: "\<exists>op_form. form_new ui (Some (ct_name s)) True (ct_fields s) v = Some op_form \<and>
      operator_form op_form" if "operator_type n = Some s" for n s v
    using operator_form_new ops.lookup_SomeD [OF that] by blast
  show ?thesis
  proof (cases "code k = KEnter")
    case True
    show ?thesis
    proof (cases "nth_opt (operators form) selected")
      case None
      with True assms show ?thesis by (simp add: handle_operator_list_def)
    next
      case (Some v)
      then have less: "selected < length (operators form)" by (auto dest: nth_opt_SomeD)
      define ty where "ty = (case Option.bind (json_get v ''type'') as_str of Some s \<Rightarrow> s | None \<Rightarrow> [])"
      show ?thesis
      proof (cases "operator_type ty")
        case None
        with True Some assms show ?thesis by (simp add: handle_operator_list_def ty_def)
      next
        case spec: (Some s)
        from edit [OF this, of v] obtain op_form where
          "form_new ui (Some (ct_name s)) True (ct_fields s) v = Some op_form"
          and "operator_form op_form" by blast
        with True Some spec assms less show ?thesis
          by (simp add: handle_operator_list_def ty_def)
      qed
    qed
  next
    case False
    with assms sel index form show ?thesis
      by (cases "code k")
        (auto simp: handle_operator_list_def Let_def select_down_max select_up_less ops
          component_form_frame set_operators_index operator_types_ok [unfolded table_ok_def]
          intro: less_le_trans)
  qed
qed

lemma operator_pick_type_ok [panic_free]:
  assumes "doc_ok (doc app)" and scr: "screen_ok (doc app) (OperatorPickType category cid form selected)"
  shows "handled_ok (handle_operator_pick_type ui app category cid form selected k)"
proof -
  from scr have sel: "selected < length operator_types" by simp
  then obtain op_form where "form_new ui (Some (ct_name (operator_types ! selected))) True
      (ct_fields (operator_types ! selected)) (minimal_value (operator_types ! selected)) =
      Some op_form" and "operator_form op_form"
    using operator_form_new nth_mem by blast
  with assms sel show ?thesis
    by (cases "code k") (auto simp: handle_operator_pick_type_def Let_def select_up_less
        intro: select_down_less)
qed

lemma place_operator_index: "place_operator index v ops = (ops', i) \<Longrightarrow> i < length ops'"
  by (auto simp: place_operator_def split: option.splits if_splits)

lemma operator_edit_ok [panic_free]:
  assumes "doc_ok (doc app)"
    and scr: "screen_ok (doc app) (OperatorEdit category cid form index op_form)"
  shows "handled_ok (handle_operator_edit ui app category cid form index op_form k)"
proof -
  from scr have form: "component_form category form" "form_ok form" "operator_form op_form"
    and idx: "operator_list_index form \<noteq> None" and ok: "form_ok op_form"
    by (simp_all add: component_form_def operator_form_def)
  from form_on_key_ok [OF ok, of ui k] obtain op_form' out where
    step: "form_on_key ui op_form k = Some (op_form', out)" and ok': "form_ok op_form'" by blast
  have form': "operator_form op_form'" using form_key_kept(2) [OF step ok] form by simp
  obtain v where v: "to_value ui op_form' = Some v" using to_value_ok [OF ok'] by blast
  obtain ops i where place: "place_operator index v (operators form) = (ops, i)" by force
  note ops = operators_set [OF form(2) idx]
  show ?thesis
    using assms(1) scr step form' v place place_operator_index [OF place]
    by (cases out) (auto simp: handle_operator_edit_def ops component_form_frame
        set_operators_index less_max_iff_disj split: option.split)
qed

lemma pick_type_ok [panic_free]:
  assumes "doc_ok (doc app)" and scr: "screen_ok (doc app) (PickType category selected)"
  shows "handled_ok (handle_pick_type ui app category selected k)"
proof -
  from scr have sel: "selected < length (types_for category)" by simp
  then have "type_spec category (ct_name (types_for category ! selected)) \<noteq> None"
    using types.lookup_nth by auto
  with assms sel show ?thesis
    by (cases "code k") (auto simp: handle_pick_type_def Let_def select_up_less
        intro: select_down_less)
qed

lemma templates_length [simp]: "length SOURCE_TEMPLATES = 18"
  by (simp add: SOURCE_TEMPLATES_def)

lemma template_browse_ok [panic_free]:
  assumes "doc_ok (doc app)" and scr: "screen_ok (doc app) (TemplateBrowse selected)"
  shows "handled_ok (handle_template_browse ui app selected k)"
proof -
  from scr have sel: "selected < length SOURCE_TEMPLATES" by simp
  then have "template_find (tkey (SOURCE_TEMPLATES ! selected)) \<noteq> None"
    using templates.lookup_nth by auto
  with assms sel show ?thesis
    by (cases "code k") (auto simp: handle_template_browse_def select_up_less
        intro: select_down_less)
qed

lemma template_params_ok [panic_free]:
  assumes "doc_ok (doc app)" and scr: "screen_ok (doc app) (EditTemplateParams tk cid form)"
  shows "handled_ok (handle_template_params ui app tk cid form k)"
proof -
  from scr have ok: "form_ok form" and tf: "template_form tk form"
    by (simp_all add: template_form_def)
  from form_on_key_ok [OF ok, of ui k] obtain form' out where
    step: "form_on_key ui form k = Some (form', out)" and ok': "form_ok form'" by blast
  have form': "template_form tk form'" using form_key_kept(4) [OF step ok tf] .
  obtain v where v: "to_value ui form' = Some v" using to_value_ok [OF ok'] by blast
  obtain t where "template_find tk = Some t" using tf by (auto simp: template_form_def)
  with assms step form' v show ?thesis
    by (cases out) (auto simp: handle_template_params_def)
qed

lemma template_review_ok [panic_free]:
  assumes "doc_ok (doc app)"
    and scr: "screen_ok (doc app) (ReviewTemplateReceiver tk cid params receiver)"
  shows "handled_ok (handle_template_review ui app tk cid params receiver k)"
proof -
  from scr obtain t where t: "template_find tk = Some t" by auto
  with template_form_new obtain form where
    "form_new ui None False (tparams t) params = Some form" and "template_form tk form"
    by blast
  moreover have "map_ok (receivers (doc app))" using assms(1) by (simp add: doc_ok_def)
  ultimately show ?thesis
    using assms t
    by (cases "code k") (auto simp: handle_template_review_def receivers_ok map_ok_insert)
qed

subsection \<open>The top level\<close>

lemma open_selected_ok [panic_free]:
  assumes "doc_ok (doc app)" and "screen_ok (doc app) (TopLevel tab selected)"
  shows "handled_ok (open_selected ui app tab selected)"
proof (cases "nth_opt (ids_for_tab (doc app) tab) selected")
  case None
  with assms show ?thesis by (simp add: open_selected_def)
next
  case (Some cid)
  show ?thesis
  proof (cases "tab_category tab")
    case None
    with Some obtain v where "map_get (pipelines (doc app)) cid = Some v"
      using sorted_key_get ids_for_tab_pipelines by metis
    moreover obtain form where "form_new ui None False PIPELINE_FIELDS v = Some form"
      and "pipeline_form form" using pipeline_form_new by blast
    ultimately show ?thesis
      using assms(1) Some None contains_get
      by (simp add: open_selected_def usable_id_def contains_key_def)
  next
    case cat: (Some category)
    with Some obtain v where v: "map_get (map_for category (doc app)) cid = Some v"
      using sorted_key_get ids_for_tab_category by metis
    define spec where "spec = (case type_spec category (component_type cid) of
        Some s \<Rightarrow> Some s | None \<Rightarrow> nth_opt (types_for category) 0)"
    have "0 < length (types_for category)" by simp
    then obtain s where s: "spec = Some s" "s \<in> set (types_for category)"
      unfolding spec_def using types.lookup_SomeD [of category "component_type cid"]
      by (cases "type_spec category (component_type cid)") auto
    from component_form_new [OF s(2), of ui v] obtain form where
      "form_new ui (Some (ct_name s)) False (ct_fields s) v = Some form"
      and "component_form category form" by blast
    with s(1) cat v Some assms(1) show ?thesis
      by (simp add: open_selected_def spec_def usable_id_def contains_key_def)
  qed
qed

lemma delete_selected_ok [panic_free]:
  assumes "doc_ok (doc app)" and "screen_ok (doc app) (TopLevel tab selected)"
  shows "handled_ok (delete_selected app tab selected)"
proof (cases "nth_opt (ids_for_tab (doc app) tab) selected")
  case None
  with assms show ?thesis by (simp add: delete_selected_def)
next
  case (Some cid)
  show ?thesis
  proof (cases "tab_category tab")
    case None
    have "map_ok (pipelines (doc app))" using assms(1) by (simp add: doc_ok_def)
    with assms(1) Some None show ?thesis
      by (simp add: delete_selected_def pipelines_ok map_ok_map_remove)
  next
    case cat: (Some category)
    with Some have "contains_key (map_for category (doc app)) cid"
      using sorted_key_get ids_for_tab_category by (metis contains_get)
    with assms(1) Some cat show ?thesis
      by (simp add: delete_selected_def with_map_for_ok map_ok_map_remove map_for_ok Let_def)
  qed
qed

lemma top_level_ok [panic_free]:
  assumes "doc_ok (doc app)" and "screen_ok (doc app) (TopLevel tab selected)"
  shows "handled_ok (top_level_key ui app tab selected k)"
  using assms open_selected_ok [OF assms, of ui] delete_selected_ok [OF assms]
  by (cases "code k")
    (auto simp: top_level_key_def Let_def select_down_max select_up_less split: option.split intro: less_le_trans)

subsection \<open>The step\<close>

text \<open>The invariant of the application.\<close>

definition app_ok :: "'i app \<Rightarrow> bool" where
  "app_ok app \<longleftrightarrow> doc_ok (doc app) \<and> screen_ok (doc app) (screen app)"

lemma after_save_frame [simp]:
  "doc (after_save r app) = doc app" "screen (after_save r app) = screen app"
  "config_path (after_save r app) = config_path app"
  "should_quit (after_save r app) = should_quit app" "show_help (after_save r app) = show_help app"
  by (simp_all add: after_save_def Let_def split: sum.split)

definition step_ok :: "(stop + 'i app \<times> 'i screen) \<times> disk \<Rightarrow> bool" where
  "step_ok r \<longleftrightarrow>
     (case fst r of
        Inl Panic \<Rightarrow> False
      | Inl PowerOff \<Rightarrow> True
      | Inr (app, scr) \<Rightarrow> doc_ok (doc app) \<and> screen_ok (doc app) scr)"

lemma step_ok_handled: "handled_ok r \<Longrightarrow> step_ok (of_handled r, d)"
  by (cases r) (auto simp: step_ok_def handled_ok_def)

lemma handle_key_ok [panic_free]:
  assumes "doc_ok (doc app)" and "screen_ok (doc app) scr"
  shows "step_ok (handle_key ui y w app scr k d)"
proof (cases scr)
  case (TopLevel tab selected)
  show ?thesis
  proof (cases "code k = KChar ''s''")
    case True
    with TopLevel assms show ?thesis
      by (auto simp: handle_key_def handle_top_level_def save_key_def step_ok_def
          split: prod.split option.split)
  next
    case False
    with TopLevel assms show ?thesis
      by (simp add: handle_key_def handle_top_level_def step_ok_handled top_level_ok)
  qed
qed (use assms in \<open>simp_all add: handle_key_def step_ok_handled panic_free del: screen_ok.simps\<close>)

lemma on_key_ok:
  assumes "app_ok app" and "on_key ui y w k (app, d) = (r, d')"
  shows "r \<noteq> Inl Panic \<and> (\<forall>app'. r = Inr app' \<longrightarrow> app_ok app')"
proof (cases "show_help app \<or> code k = KChar ''?'' \<and> screen_accepts_help_hotkey (screen app)")
  case True
  with assms show ?thesis by (auto simp: on_key_def app_ok_def split: if_splits)
next
  case False
  have "step_ok (handle_key ui y w (app\<lparr>screen := screen_default\<rparr>) (screen app) k d)"
    using assms(1) by (intro handle_key_ok) (simp_all add: app_ok_def)
  with False assms show ?thesis
    by (auto simp: on_key_def app_ok_def step_ok_def split: prod.splits sum.splits stop.splits)
qed

end
