(* ===== verification/Machine.thy ===== *)
theory Machine
imports Prelude
begin

text \<open>
  The event loop both programs share in shape: a step per event, which continues with a new
  state or stops, until the state asks to quit. The locale \<open>invariant_machine\<close> is the contract
  by which an invariant of the steps becomes one of every run; it is interpreted once per
  invariant, on the editor's and on the dashboard's step.
\<close>

fun run_until ::
  "('e \<Rightarrow> 's \<Rightarrow> 'r + 's) \<Rightarrow> ('s \<Rightarrow> bool) \<Rightarrow> 'e list \<Rightarrow> 's \<Rightarrow> 'r + 's" where
  "run_until step quit [] s = Inr s"
| "run_until step quit (e # es) s =
     (if quit s then Inr s
      else (case step e s of Inl r \<Rightarrow> Inl r | Inr s' \<Rightarrow> run_until step quit es s'))"

lemma run_until_append:
  "run_until step quit (es @ es') s =
     (case run_until step quit es s of Inl r \<Rightarrow> Inl r | Inr s' \<Rightarrow> run_until step quit es' s')"
proof (induction es arbitrary: s)
  case Nil
  then show ?case by simp
next
  case (Cons e es)
  have "run_until step quit es' s = Inr s" if "quit s" for s
    using that by (cases es') simp_all
  with Cons show ?case by (simp split: sum.split)
qed

locale invariant_machine =
  fixes step :: "'e \<Rightarrow> 's \<Rightarrow> 'r + 's"
    and quit :: "'s \<Rightarrow> bool"
    and inv :: "'s \<Rightarrow> bool"
    and fine :: "'r \<Rightarrow> bool"
  assumes step_inv: "inv s \<Longrightarrow> step e s = Inr s' \<Longrightarrow> inv s'"
    and step_fine: "inv s \<Longrightarrow> step e s = Inl r \<Longrightarrow> fine r"
begin

lemma run_inv: "inv s \<Longrightarrow> run_until step quit es s = Inr s' \<Longrightarrow> inv s'"
proof (induction es arbitrary: s)
  case Nil
  then show ?case by simp
next
  case (Cons e es)
  show ?case
  proof (cases "quit s")
    case True
    with Cons.prems show ?thesis by simp
  next
    case False
    with Cons.prems obtain s1 where "step e s = Inr s1" "run_until step quit es s1 = Inr s'"
      by (auto split: sum.splits)
    with Cons.IH step_inv [OF Cons.prems(1)] show ?thesis by blast
  qed
qed

lemma run_fine: "inv s \<Longrightarrow> run_until step quit es s = Inl r \<Longrightarrow> fine r"
proof (induction es arbitrary: s)
  case Nil
  then show ?case by simp
next
  case (Cons e es)
  show ?case
  proof (cases "step e s")
    case (Inl r')
    with Cons.prems step_fine [OF Cons.prems(1) Inl] show ?thesis by (auto split: if_splits)
  next
    case (Inr s')
    with Cons.prems have "run_until step quit es s' = Inl r" by (auto split: if_splits)
    with Cons.IH step_inv [OF Cons.prems(1) Inr] show ?thesis by blast
  qed
qed

lemma run_quiet: "quit s \<Longrightarrow> run_until step quit es s = Inr s"
  by (cases es) simp_all

end

end
