(* ===== verification/Editor_Session.thy ===== *)
theory Editor_Session
imports Editor_Safety Machine
begin

text \<open>
  Whole sessions: what a key leaves alone, and three invariants of every run, each an
  interpretation of \<open>invariant_machine\<close> on the editor's step: no panic, a disk that stays usable
  for a save, and the agreement of an unmarked document with the file. From the second follows
  what a session can leave in its file: old texts, and those validated in its course.
\<close>

section \<open>What a key leaves alone\<close>

text \<open>
  The configuration's path is never changed; and unless the key marks the document as changed,
  the document and its mark are as before.
\<close>

definition app_frame :: "'i app \<Rightarrow> 'i app \<Rightarrow> bool" where
  "app_frame app app' \<longleftrightarrow>
     config_path app' = config_path app \<and>
     (dirty app' \<or> doc app' = doc app \<and> dirty app' = dirty app)"

lemma app_frame_refl [simp]: "app_frame app app"
  by (simp add: app_frame_def)

lemma app_frame_updates [simp]:
  "app_frame app (with_status msg app)" "app_frame app (change_doc f msg app)"
  "app_frame app (app\<lparr>should_quit := b\<rparr>)" "app_frame app (app\<lparr>show_help := b\<rparr>)"
  by (simp_all add: app_frame_def with_status_def change_doc_def)

definition handled_frame :: "'i app \<Rightarrow> 'i handled \<Rightarrow> bool" where
  "handled_frame app r \<longleftrightarrow> (case r of Some (app', _) \<Rightarrow> app_frame app app' | None \<Rightarrow> True)"

lemma handled_frame_simps [simp]:
  "handled_frame app None" "handled_frame app (Some (app', scr)) = app_frame app app'"
  by (simp_all add: handled_frame_def)

lemma handled_frame_bind [simp]:
  "handled_frame app (Option.bind m f) \<longleftrightarrow> (\<forall>x. m = Some x \<longrightarrow> handled_frame app (f x))"
  by (cases m) simp_all

lemma handler_frames [simp]:
  "handled_frame app (handle_name_component ui app category ty input k)"
  "handled_frame app (handle_name_pipeline ui app input k)"
  "handled_frame app (handle_edit_component ui app category cid form k)"
  "handled_frame app (handle_edit_pipeline ui app cid form k)"
  "handled_frame app (handle_confirm_remove app category cid k)"
  "handled_frame app (handle_operator_list ui app category cid form selected k)"
  "handled_frame app (handle_operator_pick_type ui app category cid form selected k)"
  "handled_frame app (handle_operator_edit ui app category cid form index op_form k)"
  "handled_frame app (handle_pick_type ui app category selected k)"
  "handled_frame app (handle_template_browse ui app selected k)"
  "handled_frame app (handle_name_template ui app tk input k)"
  "handled_frame app (handle_template_params ui app tk cid form k)"
  "handled_frame app (handle_template_review ui app tk cid params receiver k)"
  "handled_frame app (open_selected ui app tab selected)"
  "handled_frame app (delete_selected app tab selected)"
  unfolding handle_name_component_def handle_name_pipeline_def handle_edit_component_def
    handle_edit_pipeline_def handle_confirm_remove_def handle_operator_list_def
    handle_operator_pick_type_def handle_operator_edit_def handle_pick_type_def
    handle_template_browse_def handle_name_template_def handle_template_params_def
    handle_template_review_def open_selected_def delete_selected_def Let_def
  by (auto split: key_code.split form_outcome.split option.split prod.split)

lemma top_level_frame [simp]: "handled_frame app (top_level_key ui app tab selected k)"
  unfolding top_level_key_def Let_def by (auto split: key_code.split option.split)

text \<open>A key either stays in memory or is the save.\<close>

lemma handle_key_cases:
  assumes "handle_key ui y w app scr k d = (r, d')"
  obtains (memory) "d' = d" "\<And>app' scr'. r = Inr (app', scr') \<Longrightarrow> app_frame app app'"
      "r \<noteq> Inl PowerOff"
  | (saved) "save_key y w app scr d = (r, d')"
proof -
  have mem: thesis if "handle_key ui y w app scr k d = (of_handled h, d)" "handled_frame app h" for h
  proof (rule memory)
    show "d' = d" using assms that by simp
    show "r \<noteq> Inl PowerOff" using assms that by (cases h) auto
    show "app_frame app app'" if "r = Inr (app', scr')" for app' scr'
      using assms that \<open>handle_key ui y w app scr k d = (of_handled h, d)\<close> \<open>handled_frame app h\<close>
      by (cases h) auto
  qed
  show thesis
  proof (cases scr)
    case (TopLevel tab selected)
    show thesis
    proof (cases "code k = KChar ''s''")
      case True
      with TopLevel assms show thesis
        by (intro saved) (simp add: handle_key_def handle_top_level_def)
    next
      case False
      with TopLevel show thesis
        by (intro mem [of "top_level_key ui app tab selected k"])
          (simp_all add: handle_key_def handle_top_level_def)
    qed
  qed (rule mem, simp add: handle_key_def, simp)+
qed

lemma after_save_screen:
  "(after_save res (app\<lparr>screen := a\<rparr>))\<lparr>screen := screen app\<rparr> = after_save res app"
  by (cases res) (simp_all add: after_save_def Let_def split: option.split)

lemma app_frame_screen [simp]:
  "app_frame (app\<lparr>screen := a\<rparr>) app' \<longleftrightarrow> app_frame app app'"
  "app_frame app (app'\<lparr>screen := a\<rparr>) \<longleftrightarrow> app_frame app app'"
  by (simp_all add: app_frame_def)

lemma on_key_cases:
  assumes "on_key ui y w k (app, d) = (r, d')"
  obtains (memory) "d' = d" "\<And>app'. r = Inr app' \<Longrightarrow> app_frame app app'" "r \<noteq> Inl PowerOff"
  | (saved) result where
      "save_doc (world_os w) y (world_faults w) (config_path app) (doc app) d = (result, d')"
      "r = (case result of None \<Rightarrow> Inl PowerOff | Some res \<Rightarrow> Inr (after_save res app))"
proof (cases "show_help app \<or> code k = KChar ''?'' \<and> screen_accepts_help_hotkey (screen app)")
  case True
  with assms have "d' = d" "\<And>app'. r = Inr app' \<Longrightarrow> app_frame app app'" "r \<noteq> Inl PowerOff"
    by (auto simp: on_key_def split: if_splits)
  then show thesis by (rule memory)
next
  case False
  let ?app = "app\<lparr>screen := screen_default\<rparr>"
  obtain r0 d0 where step: "handle_key ui y w ?app (screen app) k d = (r0, d0)" by force
  with False assms have r: "d' = d0"
    "r = (case r0 of Inl s \<Rightarrow> Inl s | Inr (app', scr) \<Rightarrow> Inr (app'\<lparr>screen := scr\<rparr>))"
    by (auto simp: on_key_def split: sum.splits prod.splits)
  from step show thesis
  proof (cases rule: handle_key_cases)
    case memory
    show thesis
    proof (rule that(1))
      show "d' = d" using memory(1) r(1) by simp
      show "app_frame app app'" if "r = Inr app'" for app'
        using that r(2) memory(2) by (auto split: sum.splits prod.splits)
      show "r \<noteq> Inl PowerOff" using r(2) memory(3) by (auto split: sum.splits prod.splits)
    qed
  next
    case saved
    obtain result where res:
      "save_doc (world_os w) y (world_faults w) (config_path app) (doc app) d = (result, d')"
      using saved r(1) by (auto simp: save_key_def split: prod.splits option.splits)
    with saved r have "r = (case result of None \<Rightarrow> Inl PowerOff | Some res \<Rightarrow> Inr (after_save res app))"
      by (auto simp: save_key_def after_save_screen split: prod.splits option.splits)
    with res show thesis by (rule that(2))
  qed
qed

section \<open>Runs\<close>

definition editor_step ::
  "'i ui \<Rightarrow> yaml \<Rightarrow> world \<times> key_event \<Rightarrow> 'i app \<times> disk \<Rightarrow> (stop \<times> disk) + ('i app \<times> disk)" where
  "editor_step ui y e s =
     (case on_key ui y (fst e) (snd e) s of
        (Inl stop, d') \<Rightarrow> Inl (stop, d')
      | (Inr app', d') \<Rightarrow> Inr (app', d'))"

lemma run_keys_machine:
  "run_keys ui y ks s =
     (case run_until (editor_step ui y) (should_quit \<circ> fst) ks s of
        Inl (stop, d) \<Rightarrow> (Inl stop, d)
      | Inr (app, d) \<Rightarrow> (Inr app, d))"
proof (induction ks arbitrary: s)
  case Nil
  then show ?case by (cases s) simp
next
  case (Cons e ks)
  then show ?case
    by (cases s; cases e) (auto simp: editor_step_def split: sum.split prod.split)
qed

text \<open>The first invariant: no step panics.\<close>

interpretation no_panic: invariant_machine "editor_step ui y" "should_quit \<circ> fst"
  "app_ok \<circ> fst" "\<lambda>r. fst r \<noteq> Panic" for ui y
proof
  fix s :: "'a app \<times> disk" and e s' r
  obtain app d where s: "s = (app, d)" by (cases s)
  obtain res d' where step: "on_key ui y (fst e) (snd e) (app, d) = (res, d')" by force
  assume inv: "(app_ok \<circ> fst) s"
  from on_key_ok [OF _ step] inv s have ok: "res \<noteq> Inl Panic" "\<And>app'. res = Inr app' \<Longrightarrow> app_ok app'"
    by auto
  show "(app_ok \<circ> fst) s'" if "editor_step ui y e s = Inr s'"
    using that s step ok by (auto simp: editor_step_def split: sum.splits)
  show "fst r \<noteq> Panic" if "editor_step ui y e s = Inl r"
    using that s step ok by (auto simp: editor_step_def split: sum.splits)
qed

lemma run_keys_ok:
  assumes "app_ok app"
  shows "fst (run_keys ui y ks (app, d)) \<noteq> Inl Panic \<and>
    (\<forall>app'. fst (run_keys ui y ks (app, d)) = Inr app' \<longrightarrow> app_ok app')"
  using no_panic.run_inv [of "(app, d)" ui y ks] no_panic.run_fine [of "(app, d)" ui y ks] assms
  by (auto simp: run_keys_machine split: sum.split prod.split)

subsection \<open>What is on the disk\<close>

text \<open>The disk the editor works on stays usable for the write to the path it was given.\<close>

definition disk_usable :: "string \<Rightarrow> disk \<Rightarrow> bool" where
  "disk_usable path d \<longleftrightarrow>
     disk_ok d (tmp_of (components path)) (components path) \<and> file_name (components path) \<noteq> None"

lemma save_disk_ok:
  assumes "disk_ok d (tmp_of (components path)) (components path)"
    and "file_name (components path) \<noteq> None"
    and "save_with_binary os y faults path bin dc d = (res, d')"
  shows "disk_ok d' (tmp_of (components path)) (components path)"
  using assms(3)
proof (cases rule: save_cases)
  case (rejected e)
  with assms show ?thesis by simp
next
  case (wrote yaml out)
  with assms show ?thesis by (auto intro: atomic_write_ok)
qed

lemma save_disk_usable:
  assumes "disk_usable path d" and "save_doc os y faults path dc d = (res, d')"
  shows "disk_usable path d'"
  using assms save_disk_ok [of d path os y faults "otelcol_binary_path os d" dc res d']
  by (simp add: disk_usable_def save_doc_def)

interpretation usable_disk: invariant_machine "editor_step ui y" "should_quit \<circ> fst"
  "\<lambda>s. config_path (fst s) = path \<and> disk_usable path (snd s)"
  "\<lambda>r. disk_usable path (snd r)" for ui y path
proof
  fix s :: "'a app \<times> disk" and e s' r
  obtain app d where s: "s = (app, d)" by (cases s)
  obtain res d' where step: "on_key ui y (fst e) (snd e) (app, d) = (res, d')" by force
  assume inv: "config_path (fst s) = path \<and> disk_usable path (snd s)"
  from step have post: "disk_usable path d' \<and> (\<forall>app'. res = Inr app' \<longrightarrow> config_path app' = path)"
  proof (cases rule: on_key_cases)
    case memory
    with inv s show ?thesis by (auto simp: app_frame_def)
  next
    case (saved result)
    with inv s show ?thesis by (auto split: option.splits intro: save_disk_usable)
  qed
  show "config_path (fst s') = path \<and> disk_usable path (snd s')"
    if "editor_step ui y e s = Inr s'"
    using that s step post by (auto simp: editor_step_def split: sum.splits)
  show "disk_usable path (snd r)" if "editor_step ui y e s = Inl r"
    using that s step post by (auto simp: editor_step_def split: sum.splits)
qed

subsection \<open>The unsaved mark\<close>

text \<open>
  While the document is not marked as changed, loading the file again would give exactly it.
\<close>

definition yaml_lawful :: "yaml \<Rightarrow> bool" where
  "yaml_lawful y \<longleftrightarrow> (\<forall>v. yaml_round_trips y v)"

definition in_step :: "yaml \<Rightarrow> 'i app \<times> disk \<Rightarrow> bool" where
  "in_step y s \<longleftrightarrow>
     disk_ok (snd s) (tmp_of (components (config_path (fst s)))) (components (config_path (fst s))) \<and>
     file_name (components (config_path (fst s))) \<noteq> None \<and>
     (\<not> dirty (fst s) \<longrightarrow> load_doc y None (config_path (fst s)) (snd s) = Inr (doc (fst s)))"

lemma load_cong:
  "read_disk d' (components path) = read_disk d (components path) \<Longrightarrow>
   is_dir d' (components path) = is_dir d (components path) \<Longrightarrow>
   load_doc y None path d' = load_doc y None path d"
  by (simp add: load_doc_def read_to_string_def)

lemma save_is_dir:
  assumes "save_with_binary os y faults path bin dc d = (res, d')"
  shows "is_dir d' (components path) = is_dir d (components path)"
  using assms
proof (cases rule: save_cases)
  case (rejected e)
  then show ?thesis by simp
next
  case (wrote yaml out)
  then show ?thesis using atomic_write_is_dir [of faults path yaml d] by simp
qed

lemma save_failed_load:
  assumes ok: "disk_ok d (tmp_of (components path)) (components path)"
    and name: "file_name (components path) \<noteq> None"
    and run: "save_with_binary os y faults path bin dc d = (res, d')"
    and "res \<noteq> Some (Inr ())"
  shows "load_doc y None path d' = load_doc y None path d"
  using save_result [OF ok name run] save_is_dir [OF run] assms(4) by (intro load_cong) auto

lemma after_save_dirty:
  "dirty (after_save res app) = (case res of Inr _ \<Rightarrow> False | Inl _ \<Rightarrow> dirty app)"
  by (simp add: after_save_def Let_def split: sum.split)

lemma save_in_step:
  assumes law: "yaml_lawful y" and inv: "in_step y (app, d)"
    and run: "save_doc os y faults (config_path app) (doc app) d = (Some res, d')"
  shows "in_step y (after_save res app, d')"
proof -
  from inv have ok: "disk_ok d (tmp_of (components (config_path app))) (components (config_path app))"
    and name: "file_name (components (config_path app)) \<noteq> None"
    and load: "\<not> dirty app \<Longrightarrow> load_doc y None (config_path app) d = Inr (doc app)"
    by (simp_all add: in_step_def)
  from run have run': "save_with_binary os y faults (config_path app) (otelcol_binary_path os d)
      (doc app) d = (Some res, d')"
    by (simp add: save_doc_def)
  have "load_doc y None (config_path app) d' = Inr (doc app)"
    if "\<not> dirty (after_save res app)"
  proof (cases res)
    case (Inr u)
    with save_load [OF ok name _] law run' show ?thesis by (simp add: yaml_lawful_def)
  next
    case (Inl e)
    with that load save_failed_load [OF ok name run'] show ?thesis
      by (simp add: after_save_dirty)
  qed
  with save_disk_ok [OF ok name run'] name show ?thesis by (simp add: in_step_def)
qed

lemma on_key_in_step:
  assumes "yaml_lawful y" and inv: "in_step y (app, d)"
    and step: "on_key ui y w k (app, d) = (Inr app', d')"
  shows "in_step y (app', d')"
  using step
proof (cases rule: on_key_cases)
  case memory
  with inv show ?thesis by (auto simp: in_step_def app_frame_def)
next
  case (saved result)
  with save_in_step [OF assms(1) inv] show ?thesis by (auto split: option.splits)
qed

text \<open>The locale's assumption on the YAML crate is the hypothesis of the interpretation.\<close>

interpretation saved_mark: invariant_machine "editor_step ui y" "should_quit \<circ> fst"
  "\<lambda>s. yaml_lawful y \<and> in_step y s" "\<lambda>_. True" for ui y
proof
  fix s :: "'a app \<times> disk" and e s'
  assume inv: "yaml_lawful y \<and> in_step y s" and step: "editor_step ui y e s = Inr s'"
  obtain app d app' d' where ss: "s = (app, d)" "s' = (app', d')" by (cases s; cases s')
  with step have "on_key ui y (fst e) (snd e) (app, d) = (Inr app', d')"
    by (auto simp: editor_step_def split: sum.splits prod.splits)
  with on_key_in_step inv ss show "yaml_lawful y \<and> in_step y s'" by blast
qed simp

lemma app_new_in_step:
  assumes "load_doc y None path d = Inr document"
    and "disk_ok d (tmp_of (components path)) (components path)"
    and "file_name (components path) \<noteq> None"
  shows "in_step y (app_new path document, d)"
  using assms by (simp add: in_step_def app_new_def)

lemma run_keys_in_step:
  assumes "yaml_lawful y" and "in_step y (app, d)" and "run_keys ui y ks (app, d) = (Inr app', d')"
  shows "in_step y (app', d')"
proof -
  from assms(3) have "run_until (editor_step ui y) (should_quit \<circ> fst) ks (app, d) = Inr (app', d')"
    by (auto simp: run_keys_machine split: sum.splits prod.splits)
  then show ?thesis using saved_mark.run_inv [of y "(app, d)" ui ks] assms(1,2) by blast
qed

section \<open>Sessions from the start\<close>

lemma editor_run_ok:
  assumes "yaml_maps_ok y" and "editor_run ui y fault ks path d = Inr (r, d')"
  shows "r \<noteq> Inl Panic \<and> (\<forall>app. r = Inr app \<longrightarrow> app_ok app)"
proof -
  from assms(2) obtain dc where load: "load_doc y fault path d = Inr dc"
    and run: "run_keys ui y ks (app_new path dc, d) = (r, d')"
    by (auto simp: editor_run_def split: sum.splits)
  have "app_ok (app_new path dc)"
    using load_doc_ok [OF assms(1) load] by (simp add: app_ok_def app_new_def screen_default_def)
  from run_keys_ok [OF this, of ui y ks d] run show ?thesis by simp
qed

text \<open>Only a save touches the disk.\<close>

lemma on_key_disk:
  assumes "on_key ui y w k (app, d) = (r, d')"
    and "code k \<noteq> KChar ''s'' \<or> (\<forall>tab selected. screen app \<noteq> TopLevel tab selected)"
  shows "d' = d"
proof (cases "show_help app \<or> code k = KChar ''?'' \<and> screen_accepts_help_hotkey (screen app)")
  case True
  with assms(1) show ?thesis by (auto simp: on_key_def split: if_splits)
next
  case False
  have "snd (handle_key ui y w (app\<lparr>screen := screen_default\<rparr>) (screen app) k d) = d"
    using assms(2) by (cases "screen app") (auto simp: handle_key_def handle_top_level_def)
  with False assms(1) show ?thesis
    by (auto simp: on_key_def split: prod.splits sum.splits)
qed

section \<open>What a session may leave in its file\<close>

text \<open>
  A text that was validated in the course of a run: \<open>s\<close> was pressed at some moment of it, the
  validator found at that moment accepted the document being edited then, and the text is the
  printed form of that document.
\<close>

definition validated_save ::
  "'i ui \<Rightarrow> yaml \<Rightarrow> (world \<times> key_event) list \<Rightarrow> 'i app \<times> disk \<Rightarrow> string option \<Rightarrow> bool" where
  "validated_save ui y ks s c \<longleftrightarrow>
     (\<exists>before w k later app d printed. ks = before @ (w, k) # later \<and>
        run_keys ui y before s = (Inr app, d) \<and> \<not> should_quit app \<and> code k = KChar ''s'' \<and>
        accepted (world_os w) y (otelcol_binary_path (world_os w) d) (doc app) \<and>
        yaml_print y (doc_to_value (doc app)) = Inr printed \<and> c = Some printed)"

lemma validated_save_here:
  assumes "\<not> should_quit app" and "code k = KChar ''s''"
    and "accepted (world_os w) y (otelcol_binary_path (world_os w) d) (doc app)"
    and "yaml_print y (doc_to_value (doc app)) = Inr printed"
  shows "validated_save ui y ((w, k) # ks) (app, d) (Some printed)"
proof -
  have "(w, k) # ks = [] @ (w, k) # ks" "run_keys ui y [] (app, d) = (Inr app, d)" by simp_all
  with assms show ?thesis unfolding validated_save_def by blast
qed

lemma validated_save_later:
  assumes "\<not> should_quit app" and "on_key ui y w k (app, d) = (Inr app1, d1)"
    and "validated_save ui y ks (app1, d1) c"
  shows "validated_save ui y ((w, k) # ks) (app, d) c"
proof -
  from assms(3) obtain before w' k' later app' d' printed where
    later: "ks = before @ (w', k') # later" "run_keys ui y before (app1, d1) = (Inr app', d')"
    "\<not> should_quit app'" "code k' = KChar ''s''"
    "accepted (world_os w') y (otelcol_binary_path (world_os w') d') (doc app')"
    "yaml_print y (doc_to_value (doc app')) = Inr printed" "c = Some printed"
    by (auto simp: validated_save_def)
  then have "(w, k) # ks = ((w, k) # before) @ (w', k') # later"
    "run_keys ui y ((w, k) # before) (app, d) = (Inr app', d')"
    using assms(1,2) by simp_all
  with later(3-7) show ?thesis unfolding validated_save_def by blast
qed

text \<open>One key: what is new on the medium was accepted and printed by this very key.\<close>

lemma on_key_survives:
  assumes usable: "disk_usable (config_path app) d" and "\<not> should_quit app"
    and step: "on_key ui y w k (app, d) = (r, d')"
    and left: "survives d' (components (config_path app)) c"
  shows "survives d (components (config_path app)) c \<or> validated_save ui y ((w, k) # ks) (app, d) c"
proof (cases "code k = KChar ''s''")
  case False
  with on_key_disk [OF step] left show ?thesis by simp
next
  case save: True
  from step show ?thesis
  proof (cases rule: on_key_cases)
    case memory
    with left show ?thesis by simp
  next
    case (saved result)
    from usable have ok: "disk_ok d (tmp_of (components (config_path app))) (components (config_path app))"
      and name: "file_name (components (config_path app)) \<noteq> None"
      by (simp_all add: disk_usable_def)
    from saved(1) have "save_with_binary (world_os w) y (world_faults w) (config_path app)
        (otelcol_binary_path (world_os w) d) (doc app) d = (result, d')"
      by (simp add: save_doc_def)
    from save_crash [OF ok name this left] show ?thesis
      using validated_save_here [OF assms(2) save] by blast
  qed
qed

text \<open>However a session ends, the file holds an old text or one validated in its course.\<close>

lemma run_keys_survives:
  assumes "disk_usable (config_path app) d" and "run_keys ui y ks (app, d) = (r, d')"
    and "survives d' (components (config_path app)) c"
  shows "survives d (components (config_path app)) c \<or> validated_save ui y ks (app, d) c"
  using assms
proof (induction ks arbitrary: app d)
  case Nil
  then show ?case by simp
next
  case (Cons e ks)
  obtain w k where e: "e = (w, k)" by (cases e)
  show ?case
  proof (cases "should_quit app")
    case True
    with Cons.prems e show ?thesis by simp
  next
    case False
    obtain res d1 where step: "on_key ui y w k (app, d) = (res, d1)" by force
    note here = on_key_survives [OF Cons.prems(1) False step, of c ks]
    show ?thesis
    proof (cases res)
      case (Inl stop)
      with Cons.prems False e step here show ?thesis by simp
    next
      case (Inr app1)
      have es: "editor_step ui y e (app, d) = Inr (app1, d1)"
        using step Inr e by (simp add: editor_step_def)
      from usable_disk.step_inv [of "(app, d)" "config_path app", OF _ es] Cons.prems(1)
      have next_state: "config_path app1 = config_path app" "disk_usable (config_path app) d1" by simp_all
      moreover have "run_keys ui y ks (app1, d1) = (r, d')"
        using Cons.prems(2) False e step Inr by simp
      ultimately have "survives d1 (components (config_path app)) c \<or> validated_save ui y ks (app1, d1) c"
        using Cons.IH [of app1 d1] Cons.prems(3) by simp
      then show ?thesis
        using here validated_save_later [OF False, of ui y w k d app1 d1 ks c] step Inr e by blast
    qed
  qed
qed

lemma session_survives:
  assumes "disk_ok d (tmp_of (components path)) (components path)"
    and "file_name (components path) \<noteq> None"
    and "run_keys ui y ks (app_new path dc, d) = (r, d')"
    and "survives d' (components path) c"
  shows "survives d (components path) c \<or> validated_save ui y ks (app_new path dc, d) c"
proof -
  have path: "config_path (app_new path dc) = path" by (simp add: app_new_def)
  show ?thesis
    using run_keys_survives [of "app_new path dc" d ui y ks r d' c] assms
    by (simp add: path disk_usable_def)
qed

end
