(* ===== verification/Plain_Yaml.thy ===== *)
theory Plain_Yaml
imports Editor_Session
begin

text \<open>
  The YAML crate is a parameter of the model with two laws. This theory has an executable pair
  of functions that meets them at every value whose objects have distinct keys: a value is
  written with a letter for its constructor before its parts, a string as two letters for each
  byte, a number as its 64 bits. It is not YAML; it shows that the laws ask for nothing that
  cannot be had, and lets the witnesses print and parse any document.
\<close>

section \<open>Printing\<close>

definition half_byte :: "nat \<Rightarrow> char" where
  "half_byte k = char_of (97 + k)"

fun print_string :: "string \<Rightarrow> string" where
  "print_string [] = '';''"
| "print_string (c # s) = half_byte (of_char c div 16) # half_byte (of_char c mod 16) # print_string s"

definition print_word :: "64 word \<Rightarrow> string" where
  "print_word w = map (\<lambda>i. if bit w i then CHR ''1'' else CHR ''0'') [0..<64]"

fun print_number :: "number \<Rightarrow> string" where
  "print_number (PosInt w) = CHR ''p'' # print_word w"
| "print_number (NegInt w) = CHR ''m'' # print_word w"
| "print_number (Float w) = CHR ''d'' # print_word w"

fun print_value :: "json \<Rightarrow> string"
  and print_items :: "json list \<Rightarrow> string"
  and print_entries :: "json_map \<Rightarrow> string"
where
  "print_value JNull = ''n''"
| "print_value (JBool b) = (if b then ''y'' else ''x'')"
| "print_value (JNumber n) = print_number n"
| "print_value (JString s) = CHR ''s'' # print_string s"
| "print_value (JArray vs) = CHR ''['' # print_items vs"
| "print_value (JObject m) = CHR ''{'' # print_entries m"
| "print_items [] = '']''"
| "print_items (v # vs) = print_value v @ print_items vs"
| "print_entries [] = ''}''"
| "print_entries ((k, v) # m) = CHR '','' # print_string k @ print_value v @ print_entries m"

section \<open>Parsing\<close>

definition byte_of :: "char \<Rightarrow> char \<Rightarrow> char" where
  "byte_of a b = char_of ((of_char a - 97) * 16 + (of_char b - 97) :: nat)"

fun parse_string :: "string \<Rightarrow> (string \<times> string) option" where
  "parse_string [] = None"
| "parse_string (a # s) =
     (if a = CHR '';'' then Some ([], s)
      else (case s of
          [] \<Rightarrow> None
        | b # s' \<Rightarrow> map_option (\<lambda>(t, rest). (byte_of a b # t, rest)) (parse_string s')))"

definition parse_word :: "string \<Rightarrow> (64 word \<times> string) option" where
  "parse_word s =
     (if length s < 64 then None
      else Some (horner_sum of_bool 2 (map (\<lambda>c. c = CHR ''1'') (take 64 s)), drop 64 s))"

definition apply_fst :: "('a \<Rightarrow> 'b) \<Rightarrow> ('a \<times> 's) option \<Rightarrow> ('b \<times> 's) option" where
  "apply_fst f = map_option (\<lambda>(x, s). (f x, s))"

text \<open>The first argument bounds the depth of the calls; the length of the text is enough.\<close>

fun parse_value :: "nat \<Rightarrow> string \<Rightarrow> (json \<times> string) option"
  and parse_items :: "nat \<Rightarrow> string \<Rightarrow> (json list \<times> string) option"
  and parse_entries :: "nat \<Rightarrow> string \<Rightarrow> (json_map \<times> string) option"
where
  "parse_value (Suc n) (c # s) =
     (if c = CHR ''n'' then Some (JNull, s)
      else if c = CHR ''y'' then Some (JBool True, s)
      else if c = CHR ''x'' then Some (JBool False, s)
      else if c = CHR ''p'' then apply_fst (JNumber \<circ> PosInt) (parse_word s)
      else if c = CHR ''m'' then apply_fst (JNumber \<circ> NegInt) (parse_word s)
      else if c = CHR ''d'' then apply_fst (JNumber \<circ> Float) (parse_word s)
      else if c = CHR ''s'' then apply_fst JString (parse_string s)
      else if c = CHR ''['' then apply_fst JArray (parse_items n s)
      else if c = CHR ''{'' then apply_fst JObject (parse_entries n s)
      else None)"
| "parse_value _ _ = None"
| "parse_items (Suc n) (c # s) =
     (if c = CHR '']'' then Some ([], s)
      else (case parse_value n (c # s) of
          None \<Rightarrow> None
        | Some (v, s') \<Rightarrow> apply_fst (Cons v) (parse_items n s')))"
| "parse_items _ _ = None"
| "parse_entries (Suc n) (c # s) =
     (if c = CHR ''}'' then Some ([], s)
      else if c = CHR '','' then
        (case parse_string s of
          None \<Rightarrow> None
        | Some (k, s') \<Rightarrow>
            (case parse_value n s' of
              None \<Rightarrow> None
            | Some (v, s'') \<Rightarrow> apply_fst (Cons (k, v)) (parse_entries n s'')))
      else None)"
| "parse_entries _ _ = None"

section \<open>The round trip\<close>

lemma of_half_byte: "k < 16 \<Longrightarrow> of_char (half_byte k) = 97 + k"
  by (simp add: half_byte_def)

lemma half_byte_end: "k < 16 \<Longrightarrow> half_byte k \<noteq> CHR '';''"
proof
  assume k: "k < 16" and "half_byte k = CHR '';''"
  then have "of_char (half_byte k) = (of_char (CHR '';'') :: nat)" by simp
  with k show False by (simp add: of_half_byte)
qed

lemma byte_of_halves:
  "byte_of (half_byte (of_char c div 16)) (half_byte (of_char c mod 16)) = c"
proof -
  have "of_char c < (256 :: nat)" by simp
  then have "of_char c div 16 < (16 :: nat)" by linarith
  then show ?thesis by (simp add: byte_of_def of_half_byte)
qed

lemma parse_print_string [simp]: "parse_string (print_string t @ rest) = Some (t, rest)"
proof (induction t)
  case (Cons c t)
  have "of_char c < (256 :: nat)" by simp
  then have "of_char c div 16 < (16 :: nat)" by linarith
  with Cons show ?case by (simp add: half_byte_end byte_of_halves)
qed simp

lemma parse_print_word [simp]: "parse_word (print_word w @ rest) = Some (w, rest)"
proof -
  have "map (\<lambda>c. c = CHR ''1'') (print_word w) = map (bit w) [0..<64]"
    by (simp add: print_word_def)
  moreover have "length (print_word w) = 64" by (simp add: print_word_def)
  ultimately show ?thesis
    by (simp add: parse_word_def horner_sum_bit_eq_take_bit take_bit_word_eq_self)
qed

lemma print_value_head: "\<exists>c s. print_value v = c # s \<and> c \<noteq> CHR '']''"
proof (cases v)
  case (JNumber n)
  then show ?thesis by (cases n) simp_all
qed simp_all

lemma print_items_nonempty: "print_items vs \<noteq> []"
proof (cases vs)
  case (Cons v vs)
  then show ?thesis using print_value_head [of v] by auto
qed simp

lemma parse_print:
  "length (print_value v) \<le> n \<Longrightarrow> parse_value n (print_value v @ rest) = Some (v, rest)"
  "length (print_items vs) \<le> n \<Longrightarrow> parse_items n (print_items vs @ rest) = Some (vs, rest)"
  "length (print_entries m) \<le> n \<Longrightarrow> parse_entries n (print_entries m @ rest) = Some (m, rest)"
proof (induction v and vs and m arbitrary: n rest and n rest and n rest
    rule: print_value_print_items_print_entries.induct)
  case (3 k)
  then show ?case by (cases n; cases k) (simp_all add: apply_fst_def)
next
  case (8 v vs)
  obtain c s where head: "print_value v = c # s" "c \<noteq> CHR '']''" using print_value_head by blast
  from 8(3) obtain k where n: "n = Suc k" by (cases n) (simp_all add: head)
  have "parse_value k (print_value v @ print_items vs @ rest) = Some (v, print_items vs @ rest)"
    by (rule 8(1)) (use 8(3) print_items_nonempty [of vs] n in \<open>cases "print_items vs"; simp\<close>)
  moreover have "parse_items k (print_items vs @ rest) = Some (vs, rest)"
    by (rule 8(2)) (use 8(3) head n in simp)
  ultimately show ?case using head n by (simp add: apply_fst_def)
next
  case (10 k v m)
  from 10(3) obtain j where n: "n = Suc j" by (cases n) simp_all
  have "parse_value j (print_value v @ print_entries m @ rest) = Some (v, print_entries m @ rest)"
    using 10(3) n by (intro 10(1)) simp
  moreover have "parse_entries j (print_entries m @ rest) = Some (m, rest)"
    using 10(3) n by (intro 10(2)) simp
  ultimately show ?case using n by (simp add: apply_fst_def)
next
  case (4 s)
  then show ?case by (cases n) (simp_all add: apply_fst_def)
next
  case (5 vs)
  then show ?case by (cases n) (simp_all add: apply_fst_def)
next
  case (6 m)
  then show ?case by (cases n) (simp_all add: apply_fst_def)
qed (auto simp: Suc_le_eq gr0_conv_Suc split: if_splits)

section \<open>The crate\<close>

definition plain_yaml :: yaml where
  "plain_yaml =
     \<lparr>yaml_parse = (\<lambda>s.
        case parse_value (length s) s of
          Some (v, []) \<Rightarrow> if keys_distinct v then Inr v else Inl ''duplicate key''
        | _ \<Rightarrow> Inl ''malformed''),
      yaml_print = (\<lambda>v. if keys_distinct v then Inr (print_value v) else Inl ''duplicate key'')\<rparr>"

lemma utf8_ok_ascii: "list_all (\<lambda>c. of_char c < (128 :: nat)) s \<Longrightarrow> utf8_ok s"
  by (induction s) (simp_all add: in_range_def byte_def)

lemma print_string_ascii: "list_all (\<lambda>c. of_char c < (128 :: nat)) (print_string s)"
proof (induction s)
  case (Cons c s)
  have "of_char c < (256 :: nat)" by simp
  then have "of_char c div 16 < (16 :: nat)" by linarith
  with Cons show ?case by (simp add: of_half_byte)
qed simp

lemma print_number_ascii: "list_all (\<lambda>c. of_char c < (128 :: nat)) (print_number n)"
  by (cases n) (auto simp: print_word_def list_all_iff)

lemma print_ascii:
  "list_all (\<lambda>c. of_char c < (128 :: nat)) (print_value v)"
  "list_all (\<lambda>c. of_char c < (128 :: nat)) (print_items vs)"
  "list_all (\<lambda>c. of_char c < (128 :: nat)) (print_entries m)"
  by (induction v and vs and m rule: print_value_print_items_print_entries.induct)
    (simp_all add: print_string_ascii print_number_ascii)

lemma plain_yaml_prints: "keys_distinct v \<Longrightarrow> yaml_print plain_yaml v = Inr (print_value v)"
  by (simp add: plain_yaml_def)

lemma plain_yaml_maps: "yaml_maps_ok plain_yaml"
  by (auto simp: yaml_maps_ok_def plain_yaml_def split: option.splits list.splits if_splits)

lemma plain_yaml_lawful: "yaml_lawful plain_yaml"
proof -
  have "parse_value (length (print_value v)) (print_value v) = Some (v, [])" for v
    using parse_print(1) [of v "length (print_value v)" "[]"] by simp
  then show ?thesis
    by (simp add: yaml_lawful_def yaml_round_trips_def plain_yaml_def utf8_ok_ascii print_ascii)
qed

end
