(* ===== verification/Editor_Shape.thy ===== *)
theory Editor_Shape
imports Editor_Session
begin

text \<open>
  Objects keep distinct keys, at every depth. A \<open>serde_json::Map\<close> cannot hold a key twice; the
  association lists of the model could, so this is an invariant: of the document, of the operator
  lists a form holds, and of the receiver under review. It makes the validated copy a copy of the
  very document that is written, key by key.
\<close>

section \<open>Values\<close>

lemma keys_distinct_map_insert:
  assumes "keys_distinct (JObject m)" and "keys_distinct v"
  shows "keys_distinct (JObject (map_insert m k v))"
proof -
  have "set (map_insert m k v) \<subseteq> insert (k, v) (set m)"
    unfolding map_insert_def by (induction m) auto
  with assms show ?thesis by (fastforce simp: list_all_iff map_ok_insert)
qed

lemma keys_distinct_map_remove:
  assumes "keys_distinct (JObject m)"
  shows "keys_distinct (JObject (map_remove m k))"
proof -
  have "set (map_remove m k) \<subseteq> set m"
    unfolding map_remove_def
    by (cases m rule: rev_cases)
      (auto split: option.splits dest!: in_set_butlastD set_update_subset_insert [THEN subsetD])
  with assms show ?thesis by (auto simp: list_all_iff map_ok_map_remove)
qed

lemma keys_distinct_entry: "keys_distinct (JObject m) \<Longrightarrow> map_get m k = Some v \<Longrightarrow> keys_distinct v"
  using keys_distinct_get [of "JObject m" k v] by simp

lemma keys_distinct_get_segs: "keys_distinct v \<Longrightarrow> get_segs v ks = Some x \<Longrightarrow> keys_distinct x"
  by (induction ks arbitrary: v) (auto simp: bind_eq_Some_conv dest: keys_distinct_get)

lemma keys_distinct_get_path: "keys_distinct v \<Longrightarrow> get_path v p = Some x \<Longrightarrow> keys_distinct x"
  by (simp add: get_path_def keys_distinct_get_segs)

lemma keys_distinct_entry_object:
  assumes "keys_distinct (JObject m)"
  shows "keys_distinct (JObject (entry_object (map_get m k)))"
proof (cases "map_get m k")
  case None
  then show ?thesis by simp
next
  case (Some v)
  then have "keys_distinct v" by (rule keys_distinct_entry [OF assms])
  with Some show ?thesis by (cases v) (simp_all add: entry_object_def)
qed

lemma keys_distinct_set_segs:
  "keys_distinct (JObject m) \<Longrightarrow> keys_distinct v \<Longrightarrow> keys_distinct (JObject (set_segs m ks v))"
proof (induction m ks v rule: set_segs.induct)
  case (1 m v)
  then show ?case by simp
next
  case (2 m k v)
  then show ?case by (simp only: set_segs.simps keys_distinct_map_insert)
next
  case (3 m k j ks v)
  then show ?case
    by (simp only: set_segs.simps keys_distinct_map_insert keys_distinct_entry_object)
qed

lemma keys_distinct_set_path:
  "keys_distinct (JObject m) \<Longrightarrow> keys_distinct v \<Longrightarrow> keys_distinct (JObject (set_path m p v))"
  by (simp only: set_path_set_segs keys_distinct_set_segs)

lemma keys_distinct_write_fields:
  assumes "keys_distinct (JObject m)" and "\<And>p x. (p, Some x) \<in> set ws \<Longrightarrow> keys_distinct x"
  shows "keys_distinct (JObject (write_fields set_path ws m))"
  using assms
proof (induction ws arbitrary: m)
  case Nil
  then show ?case by simp
next
  case (Cons w ws)
  obtain p v where w: "w = (p, v)" by (cases w)
  have rest: "(q, Some x) \<in> set ws \<Longrightarrow> keys_distinct x" for q x
    using Cons.prems(2) by auto
  show ?case
  proof (cases v)
    case None
    with Cons.IH [OF Cons.prems(1) rest] w show ?thesis by simp
  next
    case (Some y)
    have "keys_distinct y" using Cons.prems(2) w Some by auto
    from Cons.IH [OF keys_distinct_set_path [OF Cons.prems(1) this] rest] w Some show ?thesis by simp
  qed
qed

section \<open>Forms\<close>

text \<open>Of what a form holds only an operator list has objects.\<close>

fun state_kd :: "'i field_edit_state \<Rightarrow> bool" where
  "state_kd (OperatorListState ops) = list_all keys_distinct ops"
| "state_kd _ = True"

definition form_kd :: "'i form_state \<Rightarrow> bool" where
  "form_kd form \<longleftrightarrow> list_all state_kd (fstates form)"

lemma field_edit_state_from_kd:
  assumes "keys_distinct v" and "field_edit_state_from ui spec v = Some st"
  shows "state_kd st"
proof -
  have "list_all keys_distinct arr" if "get_path v (fkey spec) = Some c" "as_array c = Some arr" for c arr
    using keys_distinct_get_path [OF assms(1) that(1)] that(2) by (cases c) auto
  with assms(2) show ?thesis
    by (auto simp: field_edit_state_from_def Let_def bind_eq_Some_conv
        split: field_kind.splits list.splits option.splits)
qed

lemma form_new_kd:
  assumes "keys_distinct v" and "form_new ui ty w specs v = Some form"
  shows "form_kd form"
proof -
  from assms(2) have "list_all2 (\<lambda>s st. field_edit_state_from ui s v = Some st) specs (fstates form)"
    by (auto simp: form_new_def dest: map_opt_SomeD)
  then have "list_all2 (\<lambda>s st. state_kd st) specs (fstates form)"
    by (rule list_all2_mono) (rule field_edit_state_from_kd [OF assms(1)])
  then show ?thesis
    unfolding form_kd_def by (auto simp: list_all2_conv_all_nth list_all_length)
qed

lemma field_value_kd: "state_kd st \<Longrightarrow> field_value ui st = Some (Some x) \<Longrightarrow> keys_distinct x"
  by (cases st) (auto simp: Let_def list_all_iff split: if_splits)

lemma write_field_kd:
  assumes "keys_distinct (JObject m)" and "state_kd (snd p)" and "write_field ui p m = Some m'"
  shows "keys_distinct (JObject m')"
proof -
  from assms(3) obtain v where "field_value ui (snd p) = Some v"
    "m' = (case v of None \<Rightarrow> m | Some x \<Rightarrow> set_path m (fkey (fst p)) x)"
    by (auto simp: write_field_def)
  with assms(1,2) field_value_kd show ?thesis
    by (cases v) (auto simp del: keys_distinct.simps intro!: keys_distinct_set_path)
qed

lemma fold_write_field_kd:
  "list_all (\<lambda>p. state_kd (snd p)) ps \<Longrightarrow> keys_distinct (JObject m) \<Longrightarrow>
   fold_opt (write_field ui) ps m = Some m' \<Longrightarrow> keys_distinct (JObject m')"
proof (induction ps arbitrary: m)
  case Nil
  then show ?case by simp
next
  case (Cons p ps)
  then obtain m1 where "write_field ui p m = Some m1" "fold_opt (write_field ui) ps m1 = Some m'"
    by (auto simp: bind_eq_Some_conv)
  with Cons write_field_kd [of m p ui m1] show ?case by simp
qed

lemma to_value_kd:
  assumes "form_kd form" and "to_value ui form = Some v"
  shows "keys_distinct v"
proof -
  from assms(2) obtain m where m: "fold_opt (write_field ui) (zip (fields_spec form) (fstates form)) [] = Some m"
    and v: "v = JObject (add_type_key form m)"
    by (auto simp: to_value_def)
  have "list_all (\<lambda>p. state_kd (snd p)) (zip (fields_spec form) (fstates form))"
    using assms(1) by (auto simp: form_kd_def list_all_iff dest: set_zip_rightD)
  from fold_write_field_kd [OF this _ m] have "keys_distinct (JObject m)" by simp
  then show ?thesis
    unfolding v add_type_key_def
    by (auto simp del: keys_distinct.simps intro!: keys_distinct_map_insert split: option.split) simp_all
qed

lemma field_on_key_kd: "state_kd st \<Longrightarrow> field_on_key ui st k = Some st' \<Longrightarrow> state_kd st'"
  by (cases st) (auto split: key_code.splits if_splits)

lemma form_on_key_kd:
  assumes "form_kd form" and "form_on_key ui form k = Some (form', out)"
  shows "form_kd form'"
proof -
  have upd: "form_kd (form\<lparr>fstates := (fstates form)[i := st]\<rparr>)" if "state_kd st" for i st
    using assms(1) that by (auto simp: form_kd_def list_all_iff dest!: set_update_subset_insert [THEN subsetD])
  have "state_kd f" if "nth_opt (fstates form) i = Some f" for i f
    using assms(1) that by (auto simp: form_kd_def list_all_iff dest!: nth_opt_SomeD)
  then have typed: "form_kd (form\<lparr>fstates := (fstates form)[i := st]\<rparr>)"
    if "nth_opt (fstates form) i = Some f" "field_on_key ui f k = Some st" for i f st
    using that field_on_key_kd upd by blast
  have moved: "form_kd (form\<lparr>focused := i\<rparr>)" for i
    using assms(1) by (simp add: form_kd_def)
  from assms show ?thesis
    by (auto simp: form_on_key_def typed moved split: key_code.splits option.splits)
qed

lemma operators_kd:
  assumes "form_kd form"
  shows "list_all keys_distinct (operators form)"
proof (cases "Option.bind (operator_list_index form) (nth_opt (fstates form))")
  case None
  then show ?thesis by (simp add: operators_def)
next
  case (Some st)
  then have "st \<in> set (fstates form)" by (auto simp: bind_eq_Some_conv dest: nth_opt_SomeD)
  with assms have "state_kd st" by (simp add: form_kd_def list_all_iff)
  with Some show ?thesis by (cases st) (simp_all add: operators_def)
qed

lemma set_operators_kd: "form_kd form \<Longrightarrow> list_all keys_distinct ops \<Longrightarrow> form_kd (set_operators form ops)"
  by (auto simp: set_operators_def form_kd_def list_all_iff
      split: option.split field_edit_state.split dest!: set_update_subset_insert [THEN subsetD])

lemma advance_focus_kd: "form_kd form \<Longrightarrow> form_kd (advance_focus form)"
  by (simp add: form_kd_def advance_focus_def)

lemma remove_nth_kd: "list_all P xs \<Longrightarrow> list_all P (remove_nth i xs)"
  by (auto simp: remove_nth_def list_all_iff dest: in_set_takeD in_set_dropD)

lemma place_operator_kd:
  "list_all P ops \<Longrightarrow> P v \<Longrightarrow> place_operator index v ops = (ops', i) \<Longrightarrow> list_all P ops'"
  by (auto simp: place_operator_def list_all_iff split: option.splits if_splits
      dest!: set_update_subset_insert [THEN subsetD])

section \<open>Seeds, templates and the document\<close>

lemma minimal_value_kd: "keys_distinct (minimal_value spec)"
proof -
  have field: "keys_distinct (minimal_field f)" for f
    by (auto simp: minimal_field_def split: option.split field_kind.split)
  have "keys_distinct x" if "(p, Some x) \<in> set (minimal_writes (ct_fields spec))" for p x
    using that field by (auto simp: minimal_writes_def split: if_splits)
  then show ?thesis
    unfolding minimal_value_writes by (intro keys_distinct_write_fields) simp_all
qed

lemma operators_built: "list_all keys_distinct ops \<Longrightarrow> keys_distinct v \<Longrightarrow>
  keys_distinct (JObject ((''protocol'', v) # transport_entries params addr @ [(''operators'', JArray ops)]))"
  by (simp add: transport_entries_def Let_def map_ok_def map_keys_def)

lemma include_kd:
  "keys_distinct p \<Longrightarrow> keys_distinct (case get_path p k of Some v \<Rightarrow> v | None \<Rightarrow> JArray [JString s])"
  by (auto split: option.split dest: keys_distinct_get_path)

lemma add_op_kd [simp]: "keys_distinct (add_op f v)" "keys_distinct (move_op f g)"
  by (simp_all add: add_op_def move_op_def map_ok_def map_keys_def)

lemma syslog_built_kd:
  "keys_distinct (build_cisco_asa p)" "keys_distinct (build_cisco_catalyst p)"
  "keys_distinct (build_cisco_meraki p)" "keys_distinct (build_ubiquiti p)"
  "keys_distinct (build_haproxy p)" "keys_distinct (build_cef p)"
  "keys_distinct (build_generic_syslog p)"
  unfolding build_cisco_asa_def build_cisco_catalyst_def build_cisco_meraki_def build_ubiquiti_def
    build_haproxy_def build_cef_def build_generic_syslog_def Let_def syslog_built
  by (rule operators_built; simp add: map_ok_def map_keys_def)+

lemma file_built_kd:
  assumes "keys_distinct p"
  shows "keys_distinct (build_file_log p)" "keys_distinct (build_json_logs p)"
    "keys_distinct (build_w3c_logs p)" "keys_distinct (build_nginx p)"
    "keys_distinct (build_windows_dhcp p)" "keys_distinct (build_mysql p)"
    "keys_distinct (build_postgresql p)" "keys_distinct (build_sql_server p)"
    "keys_distinct (build_kafka p)" "keys_distinct (build_hadoop p)"
    "keys_distinct (build_active_directory p)"
  unfolding build_file_log_def build_json_logs_def build_w3c_logs_def build_nginx_def
    build_windows_dhcp_def build_mysql_def build_postgresql_def build_sql_server_def
    build_kafka_def build_hadoop_def build_active_directory_def Let_def file_built event_log_built
  by (simp_all add: map_ok_def map_keys_def include_kd [OF assms])

lemma template_built_kd: "t \<in> set SOURCE_TEMPLATES \<Longrightarrow> keys_distinct p \<Longrightarrow> keys_distinct (tbuild t p)"
  unfolding SOURCE_TEMPLATES_def by (auto simp: syslog_built_kd file_built_kd)

definition doc_kd :: "editor_doc \<Rightarrow> bool" where
  "doc_kd dc \<longleftrightarrow> keys_distinct (doc_to_value dc)"

lemma doc_kd_maps:
  "doc_kd dc \<longleftrightarrow> keys_distinct (JObject (receivers dc)) \<and> keys_distinct (JObject (exporters dc)) \<and>
     keys_distinct (JObject (extensions dc)) \<and> keys_distinct (JObject (pipelines dc))"
  by (auto simp: doc_kd_def doc_to_value_def Let_def map_ok_def map_keys_def list_all_iff)

lemma doc_kd_for: "doc_kd dc \<Longrightarrow> keys_distinct (JObject (map_for category dc))"
  by (cases category) (simp_all only: doc_kd_maps map_for.simps)

lemma doc_kd_with:
  "doc_kd dc \<Longrightarrow> (keys_distinct (JObject (map_for category dc)) \<Longrightarrow> keys_distinct (JObject (f (map_for category dc)))) \<Longrightarrow>
   doc_kd (with_map_for category f dc)"
  by (cases category) (simp_all add: doc_kd_maps del: keys_distinct.simps)

lemma strip_def_kd: "keys_distinct v \<Longrightarrow> keys_distinct (strip_def k cid v)"
proof (cases v)
  case (JObject m)
  assume kd: "keys_distinct v"
  show ?thesis
  proof (cases "\<exists>arr. map_get m k = Some (JArray arr)")
    case True
    then obtain arr where arr: "map_get m k = Some (JArray arr)" by blast
    with kd JObject have "keys_distinct (JArray arr)" using keys_distinct_entry by blast
    then have "keys_distinct (JArray (filter (\<lambda>v. as_str v \<noteq> Some cid) arr))"
      by (auto simp: list_all_iff)
    with kd JObject arr show ?thesis
      by (simp add: strip_def_def keys_distinct_map_insert del: keys_distinct.simps)
  next
    case False
    with kd JObject show ?thesis
      by (auto simp: strip_def_def simp del: keys_distinct.simps split: option.split json.split)
  qed
qed (simp_all add: strip_def_def)

lemma strip_kd: "doc_kd dc \<Longrightarrow> doc_kd (strip_from_pipelines category cid dc)"
proof (cases "category_key category")
  case (Some k)
  assume kd: "doc_kd dc"
  have "map_keys (map (\<lambda>(name, def). (name, strip_def k cid def)) m) = map_keys m" for m :: json_map
    by (induction m) (auto simp: map_keys_def)
  then have "keys_distinct (JObject m) \<Longrightarrow> keys_distinct (JObject (map (\<lambda>(name, def). (name, strip_def k cid def)) m))" for m
    by (auto simp: list_all_iff map_ok_def strip_def_kd)
  with kd Some show ?thesis by (simp add: strip_from_pipelines_def doc_kd_maps del: keys_distinct.simps)
qed (simp add: strip_from_pipelines_def)

lemma doc_of_value_kd:
  assumes "keys_distinct v"
  shows "doc_kd (doc_of_value v)"
proof -
  have obj: "keys_distinct (JObject (object_of e))" if "\<And>x. e = Some x \<Longrightarrow> keys_distinct x" for e
  proof (cases e)
    case (Some x)
    with that show ?thesis by (cases x) (auto simp: object_of_def)
  qed (simp add: object_of_def)
  have top: "keys_distinct (JObject (object_of (json_get v k)))" for k
    by (rule obj) (rule keys_distinct_get [OF assms])
  have "keys_distinct (JObject (object_of (Option.bind (json_get v ''service'') (\<lambda>s. json_get s ''pipelines''))))"
    by (rule obj) (auto simp: bind_eq_Some_conv dest!: keys_distinct_get [OF assms] intro: keys_distinct_get)
  with top show ?thesis
    by (simp add: doc_kd_maps doc_of_value_def Let_def object_of_get del: keys_distinct.simps)
qed

section \<open>Screens\<close>

fun screen_kd :: "'i screen \<Rightarrow> bool" where
  "screen_kd (EditComponent _ _ form) = form_kd form"
| "screen_kd (EditPipeline _ form) = form_kd form"
| "screen_kd (OperatorListScreen _ _ form _) = form_kd form"
| "screen_kd (OperatorPickType _ _ form _) = form_kd form"
| "screen_kd (OperatorEdit _ _ form _ op_form) = (form_kd form \<and> form_kd op_form)"
| "screen_kd (EditTemplateParams _ _ form) = form_kd form"
| "screen_kd (ReviewTemplateReceiver _ _ params receiver) = (keys_distinct params \<and> keys_distinct receiver)"
| "screen_kd _ = True"

definition handled_kd :: "'i handled \<Rightarrow> bool" where
  "handled_kd r \<longleftrightarrow> (case r of Some (app, scr) \<Rightarrow> doc_kd (doc app) \<and> screen_kd scr | None \<Rightarrow> True)"

lemma handled_kd_simps [simp]:
  "handled_kd None" "handled_kd (Some (app, scr)) \<longleftrightarrow> doc_kd (doc app) \<and> screen_kd scr"
  by (simp_all add: handled_kd_def)

lemma handled_kd_bind [simp]:
  "handled_kd (Option.bind m f) \<longleftrightarrow> (\<forall>x. m = Some x \<longrightarrow> handled_kd (f x))"
  by (cases m) simp_all

lemma doc_change_kd [simp]:
  "doc (with_status s app) = doc app"
  by (simp_all add: change_doc_def with_status_def)

text \<open>The forms the handlers open are over values with distinct keys.\<close>

lemma form_new_seed_kd:
  "form_new ui ty w specs (minimal_value spec) = Some form \<Longrightarrow> form_kd form"
  "form_new ui ty w specs (JObject []) = Some form \<Longrightarrow> form_kd form"
  by (rule form_new_kd [OF minimal_value_kd], assumption) (rule form_new_kd, simp_all)

lemmas form_opened_kd = form_new_seed_kd form_new_kd

lemma store_kd:
  "doc_kd dc \<Longrightarrow> keys_distinct v \<Longrightarrow> doc_kd (with_map_for category (\<lambda>m. map_insert m cid v) dc)"
  "doc_kd dc \<Longrightarrow> doc_kd (with_map_for category (\<lambda>m. map_remove m cid) dc)"
  "doc_kd dc \<Longrightarrow> keys_distinct v \<Longrightarrow> doc_kd (dc\<lparr>pipelines := map_insert (pipelines dc) cid v\<rparr>)"
  "doc_kd dc \<Longrightarrow> doc_kd (dc\<lparr>pipelines := map_remove (pipelines dc) cid\<rparr>)"
  "doc_kd dc \<Longrightarrow> keys_distinct v \<Longrightarrow> doc_kd (dc\<lparr>receivers := map_insert (receivers dc) cid v\<rparr>)"
proof -
  show "doc_kd (with_map_for category (\<lambda>m. map_insert m cid v) dc)" if "doc_kd dc" "keys_distinct v"
    using that by (intro doc_kd_with keys_distinct_map_insert)
  show "doc_kd (with_map_for category (\<lambda>m. map_remove m cid) dc)" if "doc_kd dc"
    using that by (intro doc_kd_with keys_distinct_map_remove)
  show "doc_kd (dc\<lparr>pipelines := map_insert (pipelines dc) cid v\<rparr>)" if "doc_kd dc" "keys_distinct v"
    using that by (simp add: doc_kd_maps keys_distinct_map_insert del: keys_distinct.simps)
  show "doc_kd (dc\<lparr>pipelines := map_remove (pipelines dc) cid\<rparr>)" if "doc_kd dc"
    using that by (simp add: doc_kd_maps keys_distinct_map_remove del: keys_distinct.simps)
  show "doc_kd (dc\<lparr>receivers := map_insert (receivers dc) cid v\<rparr>)" if "doc_kd dc" "keys_distinct v"
    using that by (simp add: doc_kd_maps keys_distinct_map_insert del: keys_distinct.simps)
qed

section \<open>Handlers\<close>

lemma prompts_kd:
  assumes "doc_kd (doc app)"
  shows "handled_kd (handle_name_component ui app category ty input k)"
    and "handled_kd (handle_name_pipeline ui app input k)"
    and "handled_kd (handle_name_template ui app tk input k)"
    and "handled_kd (handle_pick_type ui app category selected k)"
    and "handled_kd (handle_template_browse ui app selected k)"
    and "handled_kd (handle_confirm_remove app category cid k)"
    and "handled_kd (delete_selected app tab selected)"
  using assms
  by (auto simp: handle_name_component_def handle_name_pipeline_def handle_name_template_def
      handle_pick_type_def handle_template_browse_def handle_confirm_remove_def delete_selected_def
      Let_def store_kd strip_kd split: key_code.split option.split dest: form_new_seed_kd)

lemma submitted_kd:
  "form_kd form \<Longrightarrow> form_on_key ui form k = Some (form', out) \<Longrightarrow> to_value ui form' = Some v \<Longrightarrow>
   keys_distinct v"
  by (rule to_value_kd [OF form_on_key_kd])

lemma component_forms_kd:
  assumes "doc_kd (doc app)" and "form_kd form"
  shows "handled_kd (handle_edit_component ui app category cid form k)"
    and "handled_kd (handle_edit_pipeline ui app cid form k)"
  using assms form_on_key_kd [OF assms(2)] submitted_kd [OF assms(2)]
  by (auto simp: handle_edit_component_def handle_edit_pipeline_def store_kd
      split: form_outcome.split)

lemma operator_screens_kd:
  assumes "doc_kd (doc app)" and "form_kd form"
  shows "handled_kd (handle_operator_list ui app category cid form selected k)"
    and "handled_kd (handle_operator_pick_type ui app category cid form selected k)"
    and "form_kd op_form \<Longrightarrow> handled_kd (handle_operator_edit ui app category cid form index op_form k)"
proof -
  note ops = operators_kd [OF assms(2)]
  have op: "keys_distinct v" if "nth_opt (operators form) i = Some v" for i v
    using ops that by (auto simp: list_all_iff dest: nth_opt_SomeD)
  have opened: "form_kd f" if "i < length (operators form)" "form_new ui ty w specs (operators form ! i) = Some f" for i ty w specs f
    using form_new_kd [OF op [of i] that(2)] that(1) by (simp add: nth_opt_def)
  show "handled_kd (handle_operator_list ui app category cid form selected k)"
    using assms by (auto simp: handle_operator_list_def Let_def advance_focus_kd set_operators_kd
        remove_nth_kd ops opened split: key_code.split option.split)
  show "handled_kd (handle_operator_pick_type ui app category cid form selected k)"
    using assms by (auto simp: handle_operator_pick_type_def Let_def split: key_code.split option.split
        dest: form_new_seed_kd)
  show "handled_kd (handle_operator_edit ui app category cid form index op_form k)" if "form_kd op_form"
    using assms form_on_key_kd [OF that] place_operator_kd [OF ops submitted_kd [OF that]]
    by (auto simp: handle_operator_edit_def set_operators_kd split: form_outcome.split prod.split)
qed

lemma template_screens_kd:
  assumes "doc_kd (doc app)"
  shows "form_kd form \<Longrightarrow> handled_kd (handle_template_params ui app tk cid form k)"
    and "keys_distinct params \<Longrightarrow> keys_distinct receiver \<Longrightarrow>
      handled_kd (handle_template_review ui app tk cid params receiver k)"
proof -
  have built: "keys_distinct (tbuild t p)" if "template_find tk = Some t" "keys_distinct p" for t p
    using that template_built_kd templates.lookup_SomeD by blast
  show "handled_kd (handle_template_params ui app tk cid form k)" if "form_kd form"
    using assms form_on_key_kd [OF that] submitted_kd [OF that] built
    by (auto simp: handle_template_params_def split: form_outcome.split)
  show "handled_kd (handle_template_review ui app tk cid params receiver k)"
    if "keys_distinct params" "keys_distinct receiver"
    using assms that form_new_kd [OF that(1)]
    by (auto simp: handle_template_review_def store_kd split: key_code.split)
qed

lemma open_selected_kd:
  assumes "doc_kd (doc app)"
  shows "handled_kd (open_selected ui app tab selected)"
proof -
  have comp: "form_kd form" if "map_get (map_for category (doc app)) cid = Some v"
    "form_new ui ty w specs v = Some form" for category cid v ty w specs form
    using form_new_kd [OF keys_distinct_entry [OF doc_kd_for [OF assms] that(1)] that(2)] .
  have pipe: "form_kd form" if "map_get (pipelines (doc app)) cid = Some v"
    "form_new ui ty w specs v = Some form" for cid v ty w specs form
    using assms form_new_kd [OF keys_distinct_entry [OF _ that(1)] that(2)] by (simp add: doc_kd_maps)
  show ?thesis
    using assms by (auto simp: open_selected_def comp pipe split: option.split)
qed

lemma top_level_kd: "doc_kd (doc app) \<Longrightarrow> handled_kd (top_level_key ui app tab selected k)"
  using open_selected_kd [of app ui tab selected] prompts_kd(7) [of app tab selected]
  by (auto simp: top_level_key_def Let_def split: key_code.split option.split)

section \<open>The step\<close>

definition app_kd :: "'i app \<Rightarrow> bool" where
  "app_kd app \<longleftrightarrow> doc_kd (doc app) \<and> screen_kd (screen app)"

definition step_kd :: "(stop + 'i app \<times> 'i screen) \<times> disk \<Rightarrow> bool" where
  "step_kd r \<longleftrightarrow> (case fst r of Inr (app, scr) \<Rightarrow> doc_kd (doc app) \<and> screen_kd scr | Inl _ \<Rightarrow> True)"

lemma step_kd_handled: "handled_kd r \<Longrightarrow> step_kd (of_handled r, d)"
  by (cases r) (auto simp: step_kd_def)

lemma handle_key_kd:
  assumes "doc_kd (doc app)" and "screen_kd scr"
  shows "step_kd (handle_key ui y w app scr k d)"
proof (cases scr)
  case (TopLevel tab selected)
  with assms show ?thesis
    using step_kd_handled [OF top_level_kd [OF assms(1)]]
    by (auto simp: handle_key_def handle_top_level_def)
      (auto simp: save_key_def step_kd_def split: prod.split option.split)
qed (use assms in \<open>simp_all add: handle_key_def step_kd_handled prompts_kd component_forms_kd
    operator_screens_kd template_screens_kd\<close>)

lemma on_key_kd:
  assumes "app_kd app" and "on_key ui y w k (app, d) = (Inr app', d')"
  shows "app_kd app'"
proof (cases "show_help app \<or> code k = KChar ''?'' \<and> screen_accepts_help_hotkey (screen app)")
  case True
  with assms show ?thesis by (auto simp: on_key_def app_kd_def split: if_splits)
next
  case False
  with assms handle_key_kd [of "app\<lparr>screen := screen_default\<rparr>" "screen app" ui y w k d]
  show ?thesis by (auto simp: on_key_def app_kd_def step_kd_def split: sum.splits prod.splits)
qed

interpretation distinct_keys: invariant_machine "editor_step ui y" "should_quit \<circ> fst"
  "app_kd \<circ> fst" "\<lambda>_. True" for ui y
proof
  fix s :: "'a app \<times> disk" and e s'
  assume inv: "(app_kd \<circ> fst) s" and step: "editor_step ui y e s = Inr s'"
  obtain app d app' d' where ss: "s = (app, d)" "s' = (app', d')" by (cases s; cases s')
  with step have "on_key ui y (fst e) (snd e) (app, d) = (Inr app', d')"
    by (auto simp: editor_step_def split: sum.splits prod.splits)
  from on_key_kd [OF _ this] inv ss show "(app_kd \<circ> fst) s'" by simp
qed simp

lemma editor_run_kd:
  assumes "yaml_maps_ok y" and "editor_run ui y fault ks path d = Inr (Inr app, d')"
  shows "doc_kd (doc app)"
proof -
  from assms(2) obtain dc where load: "load_doc y fault path d = Inr dc"
    and run: "run_keys ui y ks (app_new path dc, d) = (Inr app, d')"
    by (auto simp: editor_run_def split: sum.splits)
  have parsed: "keys_distinct v" if "yaml_parse y t = Inr v" for t v
  proof -
    from assms(1) have "case yaml_parse y t of Inl _ \<Rightarrow> True | Inr v \<Rightarrow> keys_distinct v"
      by (simp add: yaml_maps_ok_def)
    with that show ?thesis by simp
  qed
  have "doc_kd doc_new" by (simp add: doc_kd_maps doc_new_def)
  with load parsed have "doc_kd dc"
    by (auto simp: load_doc_def parse_doc_def doc_of_value_kd split: sum.splits io_error.splits)
  then have "app_kd (app_new path dc)" by (simp add: app_kd_def app_new_def screen_default_def)
  with run distinct_keys.run_inv [of "(app_new path dc, d)" ui y ks "(app, d')"]
  show ?thesis by (auto simp: run_keys_machine app_kd_def split: sum.splits prod.splits)
qed

end
