(* ===== verification/Editor_Refinement.thy ===== *)
theory Editor_Refinement
imports Editor_Safety
begin

text \<open>
  The abstract specification of the editor: a configuration of maps and the steps it may make
  (\<open>config_step\<close>). The document's operations implement the steps, and every key of a
  well-formed application is one of them or leaves the configuration alone.
\<close>

section \<open>The abstract configuration\<close>

text \<open>
  What the editor is for, without screens, forms and key order: components by category and
  id, pipelines by name, and the few things that may happen to them.
\<close>

record config =
  comps :: "component_category \<Rightarrow> string \<Rightarrow> json option"
  pipes :: "string \<Rightarrow> json option"

definition abs_doc :: "editor_doc \<Rightarrow> config" where
  "abs_doc dc = \<lparr>comps = (\<lambda>category. map_get (map_for category dc)), pipes = map_get (pipelines dc)\<rparr>"

definition put_comp :: "component_category \<Rightarrow> string \<Rightarrow> json \<Rightarrow> config \<Rightarrow> config" where
  "put_comp category cid v c = c\<lparr>comps := (comps c)(category := (comps c category)(cid \<mapsto> v))\<rparr>"

definition put_pipe :: "string \<Rightarrow> json \<Rightarrow> config \<Rightarrow> config" where
  "put_pipe n v c = c\<lparr>pipes := (pipes c)(n \<mapsto> v)\<rparr>"

text \<open>Removing a component removes it from every pipeline that lists it.\<close>

definition unref :: "component_category \<Rightarrow> string \<Rightarrow> json \<Rightarrow> json" where
  "unref category cid def =
     (case category_key category of None \<Rightarrow> def | Some k \<Rightarrow> strip_def k cid def)"

definition drop_comp :: "component_category \<Rightarrow> string \<Rightarrow> config \<Rightarrow> config" where
  "drop_comp category cid c =
     \<lparr>comps = (comps c)(category := (comps c category)(cid := None)),
      pipes = (\<lambda>n. map_option (unref category cid) (pipes c n))\<rparr>"

definition drop_pipe :: "string \<Rightarrow> config \<Rightarrow> config" where
  "drop_pipe n c = c\<lparr>pipes := (pipes c)(n := None)\<rparr>"

definition good_name :: "string \<Rightarrow> bool" where
  "good_name cid \<longleftrightarrow> cid \<noteq> [] \<and> trimmed cid"

inductive config_step :: "config \<Rightarrow> config \<Rightarrow> bool" where
  idle: "config_step c c"
| put: "comps c category cid \<noteq> None \<or> good_name cid \<Longrightarrow> config_step c (put_comp category cid v c)"
| put_pipeline: "pipes c n \<noteq> None \<or> good_name n \<Longrightarrow> config_step c (put_pipe n v c)"
| drop: "comps c category cid \<noteq> None \<Longrightarrow> config_step c (drop_comp category cid c)"
| drop_pipeline: "pipes c n \<noteq> None \<Longrightarrow> config_step c (drop_pipe n c)"

inductive_cases config_stepE: "config_step c c'"

text \<open>Each step concerns one id: every other component is as it was.\<close>

lemma config_step_one:
  assumes "config_step c c'"
  shows "\<exists>category cid. \<forall>category' cid'. (category', cid') \<noteq> (category, cid) \<longrightarrow>
    comps c' category' cid' = comps c category' cid'"
  using assms
  by cases (auto simp: put_comp_def put_pipe_def drop_comp_def drop_pipe_def)

section \<open>The document's operations implement it\<close>

lemma map_for_with:
  "map_for category' (with_map_for category f dc) =
     (if category' = category then f (map_for category dc) else map_for category' dc)"
  by (cases category; cases category') simp_all

lemma pipelines_with [simp]: "pipelines (with_map_for category f dc) = pipelines dc"
  by (cases category) simp_all

lemma map_for_pipelines [simp]: "map_for category (dc\<lparr>pipelines := m\<rparr>) = map_for category dc"
  by (cases category) simp_all

lemma map_for_strip [simp]:
  "map_for category' (strip_from_pipelines category cid dc) = map_for category' dc"
  by (cases category') (simp_all add: doc_simps)

lemma abs_insert:
  "abs_doc (with_map_for category (\<lambda>m. map_insert m cid v) dc) = put_comp category cid v (abs_doc dc)"
  by (auto simp: abs_doc_def put_comp_def map_for_with map_get_insert fun_eq_iff)

lemma abs_insert_receiver:
  "abs_doc (dc\<lparr>receivers := map_insert (receivers dc) cid v\<rparr>) = put_comp Receiver cid v (abs_doc dc)"
  using abs_insert [of Receiver cid v dc] by simp

lemma abs_insert_pipeline:
  "abs_doc (dc\<lparr>pipelines := map_insert (pipelines dc) n v\<rparr>) = put_pipe n v (abs_doc dc)"
  by (simp add: abs_doc_def put_pipe_def map_get_insert)

lemma abs_remove_pipeline:
  "doc_ok dc \<Longrightarrow>
   abs_doc (dc\<lparr>pipelines := map_remove (pipelines dc) n\<rparr>) = drop_pipe n (abs_doc dc)"
  by (simp add: abs_doc_def drop_pipe_def map_get_remove doc_ok_def)

lemma map_of_map_snd: "map_of (map (\<lambda>(k, v). (k, f v)) m) k = map_option f (map_of m k)"
  by (induction m) auto

lemma map_get_strip:
  "map_get (pipelines (strip_from_pipelines category cid dc)) n =
     map_option (unref category cid) (map_get (pipelines dc) n)"
proof (cases "category_key category")
  case None
  then have "unref category cid = (\<lambda>def. def)" by (simp add: unref_def fun_eq_iff)
  with None show ?thesis by (simp add: strip_from_pipelines_def option.map_ident)
next
  case (Some k)
  then have "unref category cid = strip_def k cid" by (simp add: unref_def fun_eq_iff)
  with Some show ?thesis by (simp add: strip_from_pipelines_def map_get_def map_of_map_snd)
qed

lemma abs_strip_remove:
  assumes "doc_ok dc"
  shows "abs_doc (with_map_for category (\<lambda>m. map_remove m cid) (strip_from_pipelines category cid dc)) =
    drop_comp category cid (abs_doc dc)"
  using assms
  by (auto simp: abs_doc_def drop_comp_def map_for_with map_get_strip map_get_remove map_for_ok
      fun_eq_iff)

text \<open>Stripping an id that no pipeline lists changes nothing, so both removals agree.\<close>

lemma map_insert_same: "map_get m k = Some v \<Longrightarrow> map_insert m k v = m"
  by (simp add: map_insert_def map_get_def) (induction m, auto)

lemma strip_def_same: "\<not> references k cid def \<Longrightarrow> strip_def k cid def = def"
proof -
  assume "\<not> references k cid def"
  then have "filter (\<lambda>v. as_str v \<noteq> Some cid) arr = arr"
    if "json_get def k = Some (JArray arr)" for arr
    using that by (auto simp: references_def list_ex_iff filter_id_conv)
  then show ?thesis
    by (auto simp: strip_def_def map_insert_same split: json.split option.split)
qed

lemma strip_unreferenced:
  assumes "pipelines_referencing dc category cid = []"
  shows "strip_from_pipelines category cid dc = dc"
proof (cases "category_key category")
  case None
  then show ?thesis by (simp add: strip_from_pipelines_def)
next
  case (Some k)
  with assms have "\<not> references k cid (snd p)" if "p \<in> set (pipelines dc)" for p
    using that pipelines_referencing_iff [of "fst p" dc category cid] by auto
  then have "map (\<lambda>(name, def). (name, strip_def k cid def)) (pipelines dc) = pipelines dc"
    by (intro map_idI) (auto simp: strip_def_same)
  with Some show ?thesis by (simp add: strip_from_pipelines_def)
qed

lemma abs_remove:
  assumes "doc_ok dc" and "pipelines_referencing dc category cid = []"
  shows "abs_doc (with_map_for category (\<lambda>m. map_remove m cid) dc) =
    drop_comp category cid (abs_doc dc)"
  using abs_strip_remove [OF assms(1), of category cid] strip_unreferenced [OF assms(2)] by simp

section \<open>Every key is a step of the abstract configuration\<close>

definition handled_refines :: "'i app \<Rightarrow> 'i handled \<Rightarrow> bool" where
  "handled_refines app r \<longleftrightarrow>
     (case r of
        Some (app', _) \<Rightarrow> config_step (abs_doc (doc app)) (abs_doc (doc app'))
      | None \<Rightarrow> True)"

lemma handled_refines_simps [simp]:
  "handled_refines app None"
  "handled_refines app (Some (app', scr)) = config_step (abs_doc (doc app)) (abs_doc (doc app'))"
  "handled_refines app (Option.bind m f) \<longleftrightarrow> (\<forall>x. m = Some x \<longrightarrow> handled_refines app (f x))"
  by (simp_all add: handled_refines_def) (cases m; simp)

lemma doc_flags [simp]: "doc (app\<lparr>should_quit := b\<rparr>) = doc app"
  by simp

lemma usable_good: "usable_id m cid \<Longrightarrow> map_get m cid \<noteq> None \<or> good_name cid"
  by (auto simp: usable_id_def new_id_def good_name_def contains_key_def)

lemma abs_sel [simp]:
  "comps (abs_doc dc) category = map_get (map_for category dc)" "pipes (abs_doc dc) = map_get (pipelines dc)"
  by (simp_all add: abs_doc_def)

text \<open>The handlers that never touch the document.\<close>

lemma reading_handlers [simp]:
  "handled_refines app (handle_name_component ui app category ty input k)"
  "handled_refines app (handle_name_pipeline ui app input k)"
  "handled_refines app (handle_operator_list ui app category cid form selected k)"
  "handled_refines app (handle_operator_pick_type ui app category cid form selected k)"
  "handled_refines app (handle_operator_edit ui app category cid form index op_form k)"
  "handled_refines app (handle_pick_type ui app category selected k)"
  "handled_refines app (handle_template_browse ui app selected k)"
  "handled_refines app (handle_name_template ui app tk input k)"
  "handled_refines app (handle_template_params ui app tk cid form k)"
  "handled_refines app (open_selected ui app tab selected)"
  unfolding handle_name_component_def handle_name_pipeline_def handle_operator_list_def
    handle_operator_pick_type_def handle_operator_edit_def handle_pick_type_def
    handle_template_browse_def handle_name_template_def handle_template_params_def
    open_selected_def Let_def
  by (auto simp: config_step.idle split: key_code.split form_outcome.split option.split prod.split)

lemma edit_component_refines:
  assumes "screen_ok (doc app) (EditComponent category cid form)"
  shows "handled_refines app (handle_edit_component ui app category cid form k)"
  using assms usable_good [of "map_for category (doc app)" cid]
  by (auto simp: handle_edit_component_def config_step.idle abs_insert intro!: config_step.put
      split: form_outcome.split)

lemma edit_pipeline_refines:
  assumes "screen_ok (doc app) (EditPipeline cid form)"
  shows "handled_refines app (handle_edit_pipeline ui app cid form k)"
  using assms usable_good [of "pipelines (doc app)" cid]
  by (auto simp: handle_edit_pipeline_def config_step.idle abs_insert_pipeline
      intro!: config_step.put_pipeline split: form_outcome.split)

lemma template_review_refines:
  assumes "screen_ok (doc app) (ReviewTemplateReceiver tk cid params receiver)"
  shows "handled_refines app (handle_template_review ui app tk cid params receiver k)"
  using assms usable_good [of "receivers (doc app)" cid]
  by (auto simp: handle_template_review_def config_step.idle abs_insert_receiver usable_id_def
      intro!: config_step.put split: key_code.split)

lemma confirm_remove_refines:
  assumes "doc_ok (doc app)" and "screen_ok (doc app) (ConfirmRemove category cid blocking)"
  shows "handled_refines app (handle_confirm_remove app category cid k)"
  using assms
  by (auto simp: handle_confirm_remove_def config_step.idle abs_strip_remove contains_key_def
      intro!: config_step.drop)

lemma delete_selected_refines:
  assumes "doc_ok (doc app)"
  shows "handled_refines app (delete_selected app tab selected)"
proof (cases "nth_opt (ids_for_tab (doc app) tab) selected")
  case None
  then show ?thesis by (simp add: delete_selected_def config_step.idle)
next
  case (Some cid)
  show ?thesis
  proof (cases "tab_category tab")
    case None
    with Some obtain v where "map_get (pipelines (doc app)) cid = Some v"
      using sorted_key_get ids_for_tab_pipelines by metis
    with Some None assms show ?thesis
      by (simp add: delete_selected_def abs_remove_pipeline config_step.drop_pipeline)
  next
    case cat: (Some category)
    with Some obtain v where "map_get (map_for category (doc app)) cid = Some v"
      using sorted_key_get ids_for_tab_category by metis
    with Some cat assms show ?thesis
      by (simp add: delete_selected_def abs_remove config_step.drop config_step.idle Let_def)
  qed
qed

lemma top_level_refines:
  assumes "doc_ok (doc app)"
  shows "handled_refines app (top_level_key ui app tab selected k)"
  using delete_selected_refines [OF assms]
  by (auto simp: top_level_key_def Let_def config_step.idle split: key_code.split option.split)

definition step_refines :: "'i app \<Rightarrow> (stop + 'i app \<times> 'i screen) \<times> disk \<Rightarrow> bool" where
  "step_refines app r \<longleftrightarrow>
     (case fst r of
        Inr (app', _) \<Rightarrow> config_step (abs_doc (doc app)) (abs_doc (doc app'))
      | Inl _ \<Rightarrow> True)"

lemma step_refines_handled: "handled_refines app r \<Longrightarrow> step_refines app (of_handled r, d)"
  by (cases r) (auto simp: step_refines_def)

lemma handle_key_refines:
  assumes "doc_ok (doc app)" and "screen_ok (doc app) scr"
  shows "step_refines app (handle_key ui y w app scr k d)"
proof (cases scr)
  case (TopLevel tab selected)
  show ?thesis
  proof (cases "code k = KChar ''s''")
    case True
    with TopLevel show ?thesis
      by (auto simp: handle_key_def handle_top_level_def save_key_def step_refines_def
          config_step.idle split: prod.split option.split)
  next
    case False
    with TopLevel assms show ?thesis
      by (simp add: handle_key_def handle_top_level_def step_refines_handled top_level_refines)
  qed
qed (use assms in \<open>simp_all add: handle_key_def step_refines_handled edit_component_refines
      edit_pipeline_refines confirm_remove_refines template_review_refines del: screen_ok.simps\<close>)

lemma on_key_refines:
  assumes ok: "app_ok app" and step: "on_key ui y w k (app, d) = (Inr app', d')"
  shows "config_step (abs_doc (doc app)) (abs_doc (doc app'))"
proof (cases "show_help app \<or> code k = KChar ''?'' \<and> screen_accepts_help_hotkey (screen app)")
  case True
  with step show ?thesis by (auto simp: on_key_def config_step.idle split: if_splits)
next
  case False
  have "step_refines (app\<lparr>screen := screen_default\<rparr>)
      (handle_key ui y w (app\<lparr>screen := screen_default\<rparr>) (screen app) k d)"
    using ok by (intro handle_key_refines) (simp_all add: app_ok_def)
  with False step show ?thesis
    by (auto simp: on_key_def step_refines_def split: sum.splits prod.splits)
qed

section \<open>The keys that change the document\<close>

definition changing_key :: "key_event \<Rightarrow> bool" where
  "changing_key k \<longleftrightarrow> code k \<in> {KEnter, KDelete, KChar ''d'', KChar ''y''}"

definition handled_same :: "'i app \<Rightarrow> 'i handled \<Rightarrow> bool" where
  "handled_same app r \<longleftrightarrow> (case r of Some (app', _) \<Rightarrow> doc app' = doc app | None \<Rightarrow> True)"

lemma handled_same_simps [simp]:
  "handled_same app None"
  "handled_same app (Some (app', scr)) \<longleftrightarrow> doc app' = doc app"
  "handled_same app (Option.bind m f) \<longleftrightarrow> (\<forall>x. m = Some x \<longrightarrow> handled_same app (f x))"
  by (simp_all add: handled_same_def) (cases m; simp)

lemma form_submit_key: "form_on_key ui form k = Some (form', Submit) \<Longrightarrow> code k = KEnter"
  by (auto simp: form_on_key_def split: key_code.splits option.splits)

lemma same_handlers [simp]:
  "handled_same app (handle_name_component ui app category ty input k)"
  "handled_same app (handle_name_pipeline ui app input k)"
  "handled_same app (handle_operator_list ui app category cid form selected k)"
  "handled_same app (handle_operator_pick_type ui app category cid form selected k)"
  "handled_same app (handle_operator_edit ui app category cid form index op_form k)"
  "handled_same app (handle_pick_type ui app category selected k)"
  "handled_same app (handle_template_browse ui app selected k)"
  "handled_same app (handle_name_template ui app tk input k)"
  "handled_same app (handle_template_params ui app tk cid form k)"
  "handled_same app (open_selected ui app tab selected)"
  unfolding handle_name_component_def handle_name_pipeline_def handle_operator_list_def
    handle_operator_pick_type_def handle_operator_edit_def handle_pick_type_def
    handle_template_browse_def handle_name_template_def handle_template_params_def
    open_selected_def Let_def
  by (auto split: key_code.split form_outcome.split option.split prod.split)

lemma same_unless_changing:
  assumes "\<not> changing_key k"
  shows "handled_same app (handle_edit_component ui app category cid form k)"
    and "handled_same app (handle_edit_pipeline ui app cid form k)"
    and "handled_same app (handle_template_review ui app tk cid params receiver k)"
    and "handled_same app (handle_confirm_remove app category cid k)"
    and "handled_same app (top_level_key ui app tab selected k)"
proof -
  have k: "code k \<noteq> KEnter" "code k \<noteq> KDelete" "code k \<noteq> KChar ''d''" "code k \<noteq> KChar ''y''"
    using assms by (simp_all add: changing_key_def)
  show "handled_same app (handle_edit_component ui app category cid form k)"
    and "handled_same app (handle_edit_pipeline ui app cid form k)"
    using k by (auto simp: handle_edit_component_def handle_edit_pipeline_def
        dest: form_submit_key split: form_outcome.split)
  show "handled_same app (handle_template_review ui app tk cid params receiver k)"
    using k by (auto simp: handle_template_review_def split: key_code.split)
  show "handled_same app (handle_confirm_remove app category cid k)"
    using k by (simp add: handle_confirm_remove_def)
  show "handled_same app (top_level_key ui app tab selected k)"
    using k by (auto simp: top_level_key_def Let_def split: key_code.split option.split)
qed

definition step_same :: "'i app \<Rightarrow> (stop + 'i app \<times> 'i screen) \<times> disk \<Rightarrow> bool" where
  "step_same app r \<longleftrightarrow> (case fst r of Inr (app', _) \<Rightarrow> doc app' = doc app | Inl _ \<Rightarrow> True)"

lemma step_same_handled: "handled_same app r \<Longrightarrow> step_same app (of_handled r, d)"
  by (cases r) (auto simp: step_same_def)

lemma handle_key_same:
  assumes "\<not> changing_key k"
  shows "step_same app (handle_key ui y w app scr k d)"
proof (cases scr)
  case (TopLevel tab selected)
  then show ?thesis
    using same_unless_changing(5) [OF assms, of app ui tab selected]
    by (auto simp: handle_key_def handle_top_level_def step_same_handled)
      (auto simp: save_key_def step_same_def split: prod.split option.split)
qed (simp_all add: handle_key_def step_same_handled same_unless_changing [OF assms])

lemma on_key_same:
  assumes "\<not> changing_key k" and step: "on_key ui y w k (app, d) = (Inr app', d')"
  shows "doc app' = doc app"
proof (cases "show_help app \<or> code k = KChar ''?'' \<and> screen_accepts_help_hotkey (screen app)")
  case True
  with step show ?thesis by (auto simp: on_key_def split: if_splits)
next
  case False
  with step handle_key_same [OF assms(1), of "app\<lparr>screen := screen_default\<rparr>" ui y w "screen app" d]
  show ?thesis by (auto simp: on_key_def step_same_def split: sum.splits prod.splits)
qed

section \<open>Particular keys\<close>

text \<open>Outside the help overlay, and but for \<open>?\<close>, a key goes to the screen's handler.\<close>

lemma on_key_handled:
  assumes "\<not> show_help app" and "code k \<noteq> KChar ''?''"
    and "handle_key ui y w (app\<lparr>screen := screen_default\<rparr>) (screen app) k d = (of_handled h, d)"
    and "on_key ui y w k (app, d) = (Inr app', d')"
  shows "\<exists>app1 scr. h = Some (app1, scr) \<and> app' = app1\<lparr>screen := scr\<rparr> \<and> d' = d"
  using assms by (cases h) (auto simp: on_key_def)

lemma pipelines_referencing_with [simp]:
  "pipelines_referencing (with_map_for category f dc) category' cid =
     pipelines_referencing dc category' cid"
  by (simp add: pipelines_referencing_def split: option.split)

lemma dirty_change_doc [simp]:
  "dirty (change_doc f msg app) = True" "screen (change_doc f msg app) = screen app"
  by (simp_all add: change_doc_def)

lemma confirm_removal:
  assumes ok: "app_ok app" and scr: "screen app = ConfirmRemove category cid blocking"
    and "\<not> show_help app" and step: "on_key ui y w (key (KChar ''y'')) (app, d) = (Inr app', d')"
  shows "d' = d \<and> dirty app' \<and> screen app' = TopLevel (tab_for category) 0 \<and>
    doc app' = with_map_for category (\<lambda>m. map_remove m cid)
      (strip_from_pipelines category cid (doc app))"
  using assms(3) step
  by (auto simp: on_key_def scr handle_key_def handle_confirm_remove_def change_doc_def)

lemma map_for_removed:
  "doc_ok dc \<Longrightarrow> map_get (map_for c (with_map_for category (\<lambda>m. map_remove m cid) dc)) x =
     (if c = category \<and> x = cid then None else map_get (map_for c dc) x)"
  by (auto simp: map_for_with map_get_remove map_for_ok)

lemma removed_clean:
  assumes "doc_ok dc" and "dc' = with_map_for category (\<lambda>m. map_remove m cid) (strip_from_pipelines category cid dc)"
  shows "(\<forall>c x. map_get (map_for c dc') x =
      (if c = category \<and> x = cid then None else map_get (map_for c dc) x)) \<and>
    list_all2 (\<lambda>(name, def) (name', def'). name' = name \<and> component_dropped category cid def def')
      (pipelines dc) (pipelines dc') \<and>
    list_all (\<lambda>p. \<not> mentions category cid (snd p)) (pipelines dc') \<and>
    pipelines_referencing dc' category cid = [] \<and>
    ((category', cid') \<noteq> (category, cid) \<longrightarrow>
      pipelines_referencing dc' category' cid' = pipelines_referencing dc category' cid')"
proof -
  let ?stripped = "strip_from_pipelines category cid dc"
  have "list_all (\<lambda>p. \<not> mentions category cid (snd p)) (pipelines ?stripped)"
    using strip_no_reference [of category cid dc] by (simp add: none_listed list_all_iff)
  then show ?thesis
    using strip_other_references [of category' category cid' cid dc] strip_dropped [of category cid dc]
    by (auto simp: assms(2) map_for_removed [OF strip_doc_ok [OF assms(1)]] strip_no_reference)
qed

lemma delete_key:
  assumes ok: "app_ok app" and scr: "screen app = TopLevel tab selected"
    and cat: "tab_category tab = Some category"
    and sel: "nth_opt (ids_for_tab (doc app) tab) selected = Some cid"
    and "\<not> show_help app" and k: "code k = KDelete \<or> code k = KChar ''d''"
    and step: "on_key ui y w k (app, d) = (Inr app', d')"
  shows "if list_all (\<lambda>p. \<not> mentions category cid (snd p)) (pipelines (doc app))
    then dirty app' \<and> pipelines (doc app') = pipelines (doc app) \<and>
      (\<forall>c x. map_get (map_for c (doc app')) x =
        (if c = category \<and> x = cid then None else map_get (map_for c (doc app)) x))
    else doc app' = doc app \<and> dirty app' = dirty app \<and>
      (\<exists>names. screen app' = ConfirmRemove category cid names \<and> sorted names \<and> distinct names \<and>
        set names = {name. \<exists>def. map_get (pipelines (doc app)) name = Some def \<and> mentions category cid def})"
proof -
  have dok: "doc_ok (doc app)" using ok by (simp add: app_ok_def)
  have "if pipelines_referencing (doc app) category cid = []
    then dirty app' \<and> doc app' = with_map_for category (\<lambda>m. map_remove m cid) (doc app)
    else doc app' = doc app \<and> dirty app' = dirty app \<and>
      screen app' = ConfirmRemove category cid (pipelines_referencing (doc app) category cid)"
    using assms(5) step k cat sel
    by (auto simp: on_key_def scr handle_key_def handle_top_level_def top_level_key_def
        delete_selected_def Let_def change_doc_def)
  then show ?thesis
    using listed_mention [OF dok, of category cid] map_for_removed [OF dok]
    by (simp add: none_listed list_all_iff split: if_splits)
qed

lemma template_confirm:
  assumes ok: "app_ok app" and scr: "screen app = ReviewTemplateReceiver tk cid params receiver"
    and "\<not> show_help app" and step: "on_key ui y w (key KEnter) (app, d) = (Inr app', d')"
  shows "\<exists>t. template_find tk = Some t \<and> receiver = tbuild t params \<and>
    map_get (receivers (doc app)) cid = None \<and> dirty app' \<and>
    doc app' = (doc app)\<lparr>receivers := map_insert (receivers (doc app)) cid receiver\<rparr>"
proof -
  from ok scr obtain t where "template_find tk = Some t" "receiver = tbuild t params"
    "map_get (receivers (doc app)) cid = None"
    by (auto simp: app_ok_def new_id_def contains_key_def)
  moreover have "dirty app' \<and>
      doc app' = (doc app)\<lparr>receivers := map_insert (receivers (doc app)) cid receiver\<rparr>"
    using assms(3) step
    by (auto simp: on_key_def scr handle_key_def handle_template_review_def change_doc_def)
  ultimately show ?thesis by blast
qed

text \<open>To the review and back: the form shows in every field what it showed.\<close>

lemma template_back:
  assumes ok: "app_ok app" and scr: "screen app = EditTemplateParams tk cid form"
    and laws: "input_laws ui" and app: "\<not> show_help app" "\<not> should_quit app"
    and kept: "list_all2 (\<lambda>spec st. \<not> default_blanked ui spec st) (fields_spec form) (fstates form)"
  shows "\<exists>app' form'. run_keys ui y [(w, key KEnter), (w, key KEsc)] (app, d) = (Inr app', d) \<and>
    screen app' = EditTemplateParams tk cid form' \<and> fields_spec form' = fields_spec form \<and>
    map (field_value ui) (fstates form') = map (field_value ui) (fstates form) \<and>
    doc app' = doc app \<and> dirty app' = dirty app"
proof -
  from ok scr obtain t where t: "template_find tk = Some t" "tparams t = fields_spec form"
    and form: "form_ok form" "\<not> write_type_key form"
    by (auto simp: app_ok_def template_form_def)
  have keys: "keys_ok (write_type_key form) (fields_spec form)"
    using template_params_keys_ok templates.lookup_SomeD [OF t(1)] t(2) form(2) by (auto simp: list_all_iff)
  from to_value_ok [OF form(1)] obtain params where params: "to_value ui form = Some params" by blast
  from form_reopens [OF laws form(1) keys kept params, of None False] obtain form' where
    form': "form_new ui None False (fields_spec form) params = Some form'"
    "fields_spec form' = fields_spec form"
    "map (field_value ui) (fstates form') = map (field_value ui) (fstates form)" by blast
  have key1: "on_key ui y w (key KEnter) (app, d) =
      (Inr (app\<lparr>screen := ReviewTemplateReceiver tk cid params (tbuild t params)\<rparr>), d)"
    using app t params
    by (simp add: on_key_def scr handle_key_def handle_template_params_def form_on_key_def)
  have key2: "on_key ui y w (key KEsc) (app\<lparr>screen := ReviewTemplateReceiver tk cid params (tbuild t params)\<rparr>, d) =
      (Inr (app\<lparr>screen := EditTemplateParams tk cid form'\<rparr>), d)"
    using app t form'(1) by (simp add: on_key_def handle_key_def handle_template_review_def)
  from key1 key2 app(2) form'(2,3) show ?thesis by simp
qed

text \<open>A new id is trimmed, not blank and not taken; otherwise the prompt stays.\<close>

lemma name_prompt:
  assumes ok: "app_ok app" and scr: "screen app = NameNewComponent category ty input"
    and "\<not> show_help app" and step: "on_key ui y w (key KEnter) (app, d) = (Inr app', d')"
  shows "doc app' = doc app \<and>
    (if new_id (map_for category (doc app)) (trim (input_value ui input))
     then \<exists>form. screen app' = EditComponent category (trim (input_value ui input)) form \<and>
       type_name form = Some ty
     else screen app' = NameNewComponent category ty input \<and>
       status_message app' = Some (taken_message (trim (input_value ui input))))"
proof -
  let ?app = "app\<lparr>screen := screen_default\<rparr>"
  have "handle_key ui y w ?app (screen app) (key KEnter) d =
      (of_handled (handle_name_component ui ?app category ty input (key KEnter)), d)"
    by (simp add: scr handle_key_def)
  from on_key_handled [OF assms(3) _ this step] obtain app1 s1 where
    h: "handle_name_component ui ?app category ty input (key KEnter) = Some (app1, s1)"
    and app': "app' = app1\<lparr>screen := s1\<rparr>" by auto
  show ?thesis
  proof (cases "new_id (map_for category (doc app)) (trim (input_value ui input))")
    case True
    with h obtain spec form where "type_spec category ty = Some spec"
      "form_new ui (Some ty) False (ct_fields spec) (minimal_value spec) = Some form"
      "app1 = ?app" "s1 = EditComponent category (trim (input_value ui input)) form"
      by (auto simp: handle_name_component_def new_id_def bind_eq_Some_conv)
    with True app' form_new_fields [OF \<open>form_new ui (Some ty) False (ct_fields spec) _ = _\<close>]
    show ?thesis by simp
  next
    case False
    with h app' show ?thesis
      by (auto simp: handle_name_component_def new_id_def Let_def with_status_def split: if_splits)
  qed
qed

lemma help_overlay:
  assumes "screen_accepts_help_hotkey (screen app)" and "\<not> show_help app"
    and "on_key ui y w (key (KChar ''?'')) (app, d) = (Inr app1, d1)"
    and "on_key ui y w' k (app1, d1) = (Inr app2, d2)"
  shows "app1 = app\<lparr>show_help := True\<rparr> \<and> app2 = app \<and> d2 = d"
  using assms by (auto simp: on_key_def)

end
