(* ===== verification/Registered_Forms.thy ===== *)
theory Registered_Forms
imports Editor_Refinement
begin

text \<open>
  The field lists the editor opens forms on: those of the registered component and operator
  types, of the source templates, and of a pipeline. Their paths are apart, which is what the
  lemmas on a form's value need; the invariant of the editor says that the form on a screen is
  over one of them, so that submitting it is described field by field.
\<close>

section \<open>The field lists\<close>

definition form_specs :: "bool \<Rightarrow> field_spec list list" where
  "form_specs write_ty =
     (if write_ty then map ct_fields operator_types
      else concat (map (\<lambda>c. map ct_fields (types_for c)) [Receiver, Exporter, Extension]) @
        map tparams SOURCE_TEMPLATES @ [PIPELINE_FIELDS])"

lemma pipeline_keys_ok: "keys_ok False PIPELINE_FIELDS"
  by code_simp

lemma form_specs_keys_ok: "specs \<in> set (form_specs w) \<Longrightarrow> keys_ok w specs"
  using operator_keys_ok template_params_keys_ok component_keys_ok pipeline_keys_ok
  by (cases w) (auto simp: form_specs_def list_all_iff)

lemma component_form_specs:
  assumes "component_form category form"
  shows "fields_spec form \<in> set (form_specs False)"
proof -
  from assms obtain s where "s \<in> set (types_for category)" "fields_spec form = ct_fields s"
    by (auto simp: component_form_def bind_eq_Some_conv dest: types.lookup_SomeD)
  then show ?thesis by (cases category) (auto simp: form_specs_def)
qed

section \<open>Submitting\<close>

text \<open>Enter on a component's form, away from its operators field.\<close>

lemma submit_component:
  assumes ok: "app_ok app" and scr: "screen app = EditComponent category cid form"
    and "\<not> show_help app" and "focused_kind form \<noteq> Some OperatorList"
    and step: "on_key ui y w (key KEnter) (app, d) = (Inr app', d')"
  shows "\<exists>v. to_value ui form = Some v \<and> dirty app' \<and> d' = d \<and>
    doc app' = with_map_for category (\<lambda>m. map_insert m cid v) (doc app)"
proof -
  have "form_ok form" using ok scr by (simp add: app_ok_def component_form_def)
  from to_value_ok [OF this] obtain v where v: "to_value ui form = Some v" by blast
  with assms(3,4) step show ?thesis
    by (auto simp: on_key_def scr handle_key_def handle_edit_component_def form_on_key_def
        change_doc_def)
qed

lemma submit_component_field:
  assumes "app_ok app" and "screen app = EditComponent category cid form"
    and "to_value ui form = Some v" and "i < length (fields_spec form)"
  shows "Some (get_path v (fkey (fields_spec form ! i))) = field_value ui (fstates form ! i)"
proof -
  have form: "component_form category form" using assms(1,2) by (simp add: app_ok_def)
  then have "keys_ok (write_type_key form) (fields_spec form)"
    using form_specs_keys_ok [OF component_form_specs [OF form]] by (simp add: component_form_def)
  with form show ?thesis
    by (intro to_value_get_field [OF _ _ assms(3,4)]) (simp_all add: component_form_def)
qed

lemma submit_component_other:
  assumes "app_ok app" and "screen app = EditComponent category cid form"
    and "to_value ui form = Some v" and "list_all (\<lambda>s. paths_apart (fkey s) q) (fields_spec form)"
  shows "get_path v q = None"
  using assms(1,2) by (intro to_value_get_other [OF _ assms(3,4)]) (simp_all add: app_ok_def component_form_def)

section \<open>The template flow, from the list to the document\<close>

lemma default_ids_trimmed: "list_all (\<lambda>t. tdefault_id t \<noteq> [] \<and> trim (tdefault_id t) = tdefault_id t) SOURCE_TEMPLATES"
  by code_simp

lemma template_steps:
  assumes laws: "input_laws ui" and t: "nth_opt SOURCE_TEMPLATES i = Some t"
    and free: "map_get (receivers (doc app)) (tdefault_id t) = None"
    and app: "screen app = TemplateBrowse i" "\<not> show_help app" "\<not> should_quit app"
  shows "\<exists>params app'. submit ui None False (tparams t) (JObject []) = Some params \<and>
    run_keys ui y [(w, key KEnter), (w, key KEnter), (w, key KEnter), (w, key KEnter)] (app, d) =
      (Inr app', d) \<and> screen app' = TopLevel Receivers 0 \<and> dirty app' \<and>
    doc app' = (doc app)\<lparr>receivers :=
      map_insert (receivers (doc app)) (tdefault_id t) (tbuild t params)\<rparr>"
proof -
  have mem: "t \<in> set SOURCE_TEMPLATES" using t by (auto dest: nth_opt_SomeD)
  then have found: "template_find (tkey t) = Some t" by (rule templates.lookup_member)
  have id: "tdefault_id t \<noteq> []" "trim (tdefault_id t) = tdefault_id t"
    using mem default_ids_trimmed by (auto simp: list_all_iff)
  have "fields_ok (tparams t)"
    using mem templates_ok by (auto simp: list_all_iff template_ok_def)
  from form_new_ok [OF this, of ui None False "JObject []"] obtain form where
    form: "form_new ui None False (tparams t) (JObject []) = Some form" "form_ok form" by blast
  from to_value_ok [OF form(2)] obtain params where params: "to_value ui form = Some params" by blast
  have key1: "on_key ui y w (key KEnter) (app, d) =
      (Inr (app\<lparr>screen := NameTemplateReceiver (tkey t) (input_new ui (tdefault_id t))\<rparr>), d)"
    using app t by (simp add: on_key_def handle_key_def handle_template_browse_def)
  have key2: "on_key ui y w (key KEnter) (app\<lparr>screen := NameTemplateReceiver (tkey t) (input_new ui (tdefault_id t))\<rparr>, d) =
      (Inr (app\<lparr>screen := EditTemplateParams (tkey t) (tdefault_id t) form\<rparr>), d)"
    using app laws id free found form
    by (simp add: on_key_def handle_key_def handle_name_template_def input_laws_new contains_key_def)
  have key3: "on_key ui y w (key KEnter) (app\<lparr>screen := EditTemplateParams (tkey t) (tdefault_id t) form\<rparr>, d) =
      (Inr (app\<lparr>screen := ReviewTemplateReceiver (tkey t) (tdefault_id t) params (tbuild t params)\<rparr>), d)"
    using app found params
    by (simp add: on_key_def handle_key_def handle_template_params_def form_on_key_def)
  have key4: "\<exists>app'. on_key ui y w (key KEnter)
        (app\<lparr>screen := ReviewTemplateReceiver (tkey t) (tdefault_id t) params (tbuild t params)\<rparr>, d) =
      (Inr app', d) \<and> screen app' = TopLevel Receivers 0 \<and> dirty app' \<and>
      doc app' = (doc app)\<lparr>receivers := map_insert (receivers (doc app)) (tdefault_id t) (tbuild t params)\<rparr>"
    using app by (simp add: on_key_def handle_key_def handle_template_review_def change_doc_def)
  have "submit ui None False (tparams t) (JObject []) = Some params"
    using form params by (simp add: submit_def)
  with key1 key2 key3 key4 app(3) show ?thesis by auto
qed

section \<open>The operators of a component, from their own form to the document\<close>

text \<open>At most one field of a list is the operators field, it is not alone, and its key is fixed.\<close>

definition operators_fields :: "field_spec list \<Rightarrow> field_spec list" where
  "operators_fields specs = filter (\<lambda>s. fkind s = OperatorList) specs"

definition operators_field_ok :: "field_spec list \<Rightarrow> bool" where
  "operators_field_ok specs \<longleftrightarrow>
     length (operators_fields specs) \<le> 1 \<and> length (operators_fields specs) < length specs \<and>
     list_all (\<lambda>s. fkey s = ''operators'') (operators_fields specs)"

lemma component_operators_field: "s \<in> set (types_for category) \<Longrightarrow> operators_field_ok (ct_fields s)"
proof -
  have "list_all (\<lambda>s. operators_field_ok (ct_fields s)) RECEIVER_TYPES"
    "list_all (\<lambda>s. operators_field_ok (ct_fields s)) EXPORTER_TYPES"
    "list_all (\<lambda>s. operators_field_ok (ct_fields s)) EXTENSION_TYPES"
    by code_simp+
  then have "list_all (\<lambda>s. operators_field_ok (ct_fields s)) (types_for category)"
    by (cases category) (simp_all add: types_for.simps)
  then show "s \<in> set (types_for category) \<Longrightarrow> ?thesis" by (simp add: list_all_iff)
qed

lemma component_form_operators:
  assumes "component_form category form"
  shows "operators_field_ok (fields_spec form)"
proof -
  from assms obtain s where "s \<in> set (types_for category)" "fields_spec form = ct_fields s"
    by (auto simp: component_form_def bind_eq_Some_conv dest: types.lookup_SomeD)
  then show ?thesis using component_operators_field by simp
qed

lemma filter_two:
  "i < j \<Longrightarrow> j < length xs \<Longrightarrow> P (xs ! i) \<Longrightarrow> P (xs ! j) \<Longrightarrow> 2 \<le> length (filter P xs)"
proof -
  assume less: "i < j" "j < length xs" and P: "P (xs ! i)" "P (xs ! j)"
  have "{i, j} \<subseteq> {k. k < length xs \<and> P (xs ! k)}" using less P by auto
  moreover have "finite {k. k < length xs \<and> P (xs ! k)}" by simp
  ultimately have "card {i, j} \<le> card {k. k < length xs \<and> P (xs ! k)}" by (metis card_mono)
  with less(1) show ?thesis by (simp add: length_filter_conv_card)
qed

lemma operators_field_unique:
  assumes "operators_field_ok specs" and "i < length specs" "j < length specs"
    and "fkind (specs ! i) = OperatorList" "fkind (specs ! j) = OperatorList"
  shows "i = j"
proof (rule ccontr)
  assume "i \<noteq> j"
  then have "2 \<le> length (operators_fields specs)"
    unfolding operators_fields_def using assms(2-5) filter_two [of i j specs] filter_two [of j i specs]
    by (cases i j rule: linorder_cases) auto
  with assms(1) show False by (simp add: operators_field_ok_def)
qed

text \<open>Leaving the operators field with Esc leads to another field.\<close>

lemma advance_leaves_operators:
  assumes form: "component_form category form" and "focused_kind form = Some OperatorList"
  shows "focused_kind (advance_focus form) \<noteq> Some OperatorList"
proof
  let ?n = "length (fields_spec form)" and ?i = "focused form"
  assume "focused_kind (advance_focus form) = Some OperatorList"
  moreover have len: "length (fstates form) = ?n" using form by (simp add: component_form_def form_ok_length)
  ultimately have j: "(?i + 1) mod max ?n 1 < ?n" "fkind (fields_spec form ! ((?i + 1) mod max ?n 1)) = OperatorList"
    by (auto simp: focused_kind_def advance_focus_def dest!: nth_opt_SomeD)
  from assms(2) have i: "?i < ?n" "fkind (fields_spec form ! ?i) = OperatorList"
    by (auto simp: focused_kind_def dest!: nth_opt_SomeD)
  note ok = component_form_operators [OF form]
  from operators_field_unique [OF ok i(1) j(1) i(2) j(2)] i(1) have "?n = 1"
    by (cases "?i + 1 = ?n") auto
  with ok have "operators_fields (fields_spec form) = []" by (simp add: operators_field_ok_def)
  with i show False by (auto simp: operators_fields_def filter_empty_conv)
qed

lemma operators_written:
  assumes form: "component_form category form" and "operator_list_index form \<noteq> None"
    and "to_value ui form = Some v"
  shows "get_path v ''operators'' = (if operators form = [] then None else Some (JArray (operators form)))"
proof -
  obtain i where i: "operator_list_index form = Some i" using assms(2) by blast
  then have less: "i < length (fields_spec form)" and kd: "fkind (fields_spec form ! i) = OperatorList"
    by (auto simp: operator_list_index_def dest: position_SomeD)
  have ok: "form_ok form" using form by (simp add: component_form_def)
  have i': "i < length (fstates form)" using less form_ok_length [OF ok] by simp
  obtain ops where st: "fstates form ! i = OperatorListState ops"
    using form_ok_nth [OF ok i'] kd by (auto split: field_edit_state.splits)
  then have ops: "operators form = ops" using i i' by (simp add: operators_def)
  have "fields_spec form ! i \<in> set (operators_fields (fields_spec form))"
    using less kd by (simp add: operators_fields_def)
  then have fk: "fkey (fields_spec form ! i) = ''operators''"
    using component_form_operators [OF form] by (auto simp: operators_field_ok_def list_all_iff)
  have "keys_ok (write_type_key form) (fields_spec form)"
    using form_specs_keys_ok [OF component_form_specs [OF form]] form by (simp add: component_form_def)
  from to_value_get_field [OF ok this assms(3) less] st ops fk show ?thesis by simp
qed

lemma stored_component:
  assumes "dc' = with_map_for category (\<lambda>m. map_insert m cid v) dc"
  shows "map_get (map_for category dc') cid = Some v" and "pipelines dc' = pipelines dc"
    and "\<forall>c x. (c, x) \<noteq> (category, cid) \<longrightarrow> map_get (map_for c dc') x = map_get (map_for c dc) x"
  using assms by (auto simp: map_for_with map_get_insert)

text \<open>Leave the list and submit the component: Esc, Enter, from a list that holds \<open>ops\<close>.\<close>

lemma operators_leave:
  assumes form: "component_form category form" and idx: "operator_list_index form \<noteq> None"
    and foc: "focused_kind form = Some OperatorList"
    and scr: "screen app = OperatorListScreen category cid (set_operators form ops) selected"
    and app: "\<not> show_help app" "\<not> should_quit app"
  shows "\<exists>app' v. run_keys ui y [(w, key KEsc), (w, key KEnter)] (app, d) = (Inr app', d) \<and>
    doc app' = with_map_for category (\<lambda>m. map_insert m cid v) (doc app) \<and>
    get_path v ''operators'' = (if ops = [] then None else Some (JArray ops))"
proof -
  let ?f1 = "set_operators form ops"
  let ?f2 = "advance_focus ?f1"
  have fok: "form_ok form" using form by (simp add: component_form_def)
  have f1: "component_form category ?f1" using form
    by (simp add: component_form_def set_operators_frame set_operators_ok)
  then have f2: "component_form category ?f2"
    by (simp add: component_form_def advance_focus_frame advance_focus_ok)
  have "focused ?f1 = focused form"
    by (simp add: set_operators_def split: option.split field_edit_state.split)
  then have "focused_kind ?f1 = Some OperatorList"
    using foc by (simp add: focused_kind_def set_operators_frame)
  from advance_leaves_operators [OF f1 this] have leave: "focused_kind ?f2 \<noteq> Some OperatorList" .
  have idx2: "operator_list_index ?f2 \<noteq> None"
    using idx by (simp add: operator_list_index_def advance_focus_frame set_operators_frame)
  have ops2: "operators ?f2 = ops"
    using operators_set [OF fok idx, of ops]
    by (simp add: operators_def operator_list_index_def advance_focus_def)
  obtain v where v: "to_value ui ?f2 = Some v"
    using f2 to_value_ok [of ?f2 ui] by (auto simp: component_form_def)
  have key1: "on_key ui y w (key KEsc) (app, d) = (Inr (app\<lparr>screen := EditComponent category cid ?f2\<rparr>), d)"
    using app by (simp add: on_key_def scr handle_key_def handle_operator_list_def Let_def)
  have key2: "\<exists>app'. on_key ui y w (key KEnter) (app\<lparr>screen := EditComponent category cid ?f2\<rparr>, d) = (Inr app', d) \<and>
      doc app' = with_map_for category (\<lambda>m. map_insert m cid v) (doc app)"
    using app v leave
    by (simp add: on_key_def handle_key_def handle_edit_component_def form_on_key_def change_doc_def)
  from key1 key2 operators_written [OF f2 idx2 v] ops2 app(2) show ?thesis by auto
qed

text \<open>Submit the operator, leave the list, submit the component: Enter, Esc, Enter.\<close>

lemma operator_steps:
  assumes ok: "app_ok app" and scr: "screen app = OperatorEdit category cid form index op_form"
    and foc: "focused_kind form = Some OperatorList" and app: "\<not> show_help app" "\<not> should_quit app"
  shows "\<exists>op app' v. to_value ui op_form = Some op \<and>
    run_keys ui y [(w, key KEnter), (w, key KEsc), (w, key KEnter)] (app, d) = (Inr app', d) \<and>
    doc app' = with_map_for category (\<lambda>m. map_insert m cid v) (doc app) \<and>
    get_path v ''operators'' = Some (JArray
      (case index of Some i \<Rightarrow> (operators form)[i := op] | None \<Rightarrow> operators form @ [op])) \<and>
    (\<forall>i. index = Some i \<longrightarrow> i < length (operators form))"
proof -
  have form: "component_form category form" "operator_list_index form \<noteq> None"
    and opf: "operator_form op_form"
    and index: "\<forall>i. index = Some i \<longrightarrow> i < length (operators form)"
    using ok scr by (auto simp: app_ok_def)
  obtain op where op: "to_value ui op_form = Some op"
    using opf to_value_ok [of op_form ui] by (auto simp: operator_form_def)
  define ops where "ops = (case index of Some i \<Rightarrow> (operators form)[i := op] | None \<Rightarrow> operators form @ [op])"
  have "fst (place_operator index op (operators form)) = ops"
    using index by (simp add: place_operator_def ops_def split: option.split)
  then obtain sel where place: "place_operator index op (operators form) = (ops, sel)"
    by (metis prod.collapse)
  let ?app1 = "app\<lparr>screen := OperatorListScreen category cid (set_operators form ops) sel\<rparr>"
  have key1: "on_key ui y w (key KEnter) (app, d) = (Inr ?app1, d)"
    using app op place by (simp add: on_key_def scr handle_key_def handle_operator_edit_def form_on_key_def)
  have "ops \<noteq> []" using index by (auto simp: ops_def split: option.splits)
  with operators_leave [OF form foc, of ?app1 cid ops sel ui y w d] app obtain app' v where
    later: "run_keys ui y [(w, key KEsc), (w, key KEnter)] (?app1, d) = (Inr app', d)"
    and stored: "doc app' = with_map_for category (\<lambda>m. map_insert m cid v) (doc app)"
      "get_path v ''operators'' = Some (JArray ops)"
    by auto
  have "run_keys ui y [(w, key KEnter), (w, key KEsc), (w, key KEnter)] (app, d) = (Inr app', d)"
    using key1 later app(2) by simp
  with op stored index show ?thesis unfolding ops_def by blast
qed

text \<open>Remove the selected operator, leave the list, submit the component.\<close>

lemma operator_removal_steps:
  assumes ok: "app_ok app" and scr: "screen app = OperatorListScreen category cid form selected"
    and foc: "focused_kind form = Some OperatorList" and app: "\<not> show_help app" "\<not> should_quit app"
    and sel: "selected < length (operators form)" and k: "code k = KDelete \<or> code k = KChar ''d''"
  shows "\<exists>app' v. run_keys ui y [(w, k), (w, key KEsc), (w, key KEnter)] (app, d) = (Inr app', d) \<and>
    doc app' = with_map_for category (\<lambda>m. map_insert m cid v) (doc app) \<and>
    get_path v ''operators'' =
      (if length (operators form) = 1 then None
       else Some (JArray (take selected (operators form) @ drop (Suc selected) (operators form))))"
proof -
  have form: "component_form category form" "operator_list_index form \<noteq> None"
    using ok scr by (simp_all add: app_ok_def)
  define ops where "ops = take selected (operators form) @ drop (Suc selected) (operators form)"
  let ?app1 = "app\<lparr>screen := OperatorListScreen category cid (set_operators form ops) 0\<rparr>"
  have key1: "on_key ui y w k (app, d) = (Inr ?app1, d)"
    using app sel k
    by (auto simp: on_key_def scr handle_key_def handle_operator_list_def Let_def remove_nth_def ops_def)
  have "length ops = length (operators form) - 1" using sel by (simp add: ops_def)
  then have last: "ops = [] \<longleftrightarrow> length (operators form) = 1" using sel by (cases ops) auto
  from operators_leave [OF form foc, of ?app1 cid ops 0 ui y w d] app obtain app' v where
    later: "run_keys ui y [(w, key KEsc), (w, key KEnter)] (?app1, d) = (Inr app', d)"
    and stored: "doc app' = with_map_for category (\<lambda>m. map_insert m cid v) (doc app)"
      "get_path v ''operators'' = (if length (operators form) = 1 then None else Some (JArray ops))"
    unfolding last by auto
  have "run_keys ui y [(w, k), (w, key KEsc), (w, key KEnter)] (app, d) = (Inr app', d)"
    using key1 later app(2) by simp
  with stored show ?thesis unfolding ops_def by blast
qed

section \<open>Components of a type that has no form\<close>

text \<open>
  Enter on a component whose type is not registered opens the form of the first type of its
  category, and Enter again stores that form's fields in its place.
\<close>

lemma unknown_type_opens_first:
  assumes "type_spec category (component_type cid) = None" and "tab_category tab = Some category"
    and "nth_opt (ids_for_tab (doc app) tab) selected = Some cid"
    and "map_get (map_for category (doc app)) cid = Some v"
  shows "\<exists>form. open_selected ui app tab selected = Some (app, EditComponent category cid form) \<and>
    fields_spec form = ct_fields (types_for category ! 0) \<and> focused form = 0"
proof -
  have first: "nth_opt (types_for category) 0 = Some (types_for category ! 0)"
    by (simp add: nth_opt_def)
  have "types_for category ! 0 \<in> set (types_for category)" by simp
  from component_keys_ok [OF this] have "fields_ok (ct_fields (types_for category ! 0))"
    by (simp add: keys_ok_def)
  from form_new_ok [OF this, of ui "Some (ct_name (types_for category ! 0))" False v] obtain form
    where "form_new ui (Some (ct_name (types_for category ! 0))) False (ct_fields (types_for category ! 0)) v = Some form"
    by blast
  with assms first show ?thesis
    by (auto simp: open_selected_def form_new_def)
qed

lemma submit_component_total:
  assumes "app_ok app" and "screen app = EditComponent category cid form"
    and "\<not> show_help app" and "focused_kind form \<noteq> Some OperatorList"
  shows "\<exists>app'. on_key ui y w (key KEnter) (app, d) = (Inr app', d)"
proof -
  have "form_ok form" using assms(1,2) by (simp add: app_ok_def component_form_def)
  from to_value_ok [OF this] obtain v where "to_value ui form = Some v" by blast
  with assms(2-4) show ?thesis
    by (simp add: on_key_def handle_key_def handle_edit_component_def form_on_key_def)
qed

lemma first_field_plain:
  "0 < length (ct_fields (types_for category ! 0))"
  "fkind (ct_fields (types_for category ! 0) ! 0) \<noteq> OperatorList"
proof -
  have "list_all (\<lambda>c. 0 < length (ct_fields (types_for c ! 0)) \<and>
      fkind (ct_fields (types_for c ! 0) ! 0) \<noteq> OperatorList) [Receiver, Exporter, Extension]"
    by code_simp
  then show "0 < length (ct_fields (types_for category ! 0))"
    "fkind (ct_fields (types_for category ! 0) ! 0) \<noteq> OperatorList"
    by (cases category; simp)+
qed

text \<open>So Enter twice replaces it by a value that has nothing but the first type's fields.\<close>

lemma unknown_type_steps:
  assumes ok: "app_ok app" and scr: "screen app = TopLevel tab selected" and "\<not> show_help app"
    and quit: "\<not> should_quit app"
    and unknown: "type_spec category (component_type cid) = None" "tab_category tab = Some category"
    and sel: "nth_opt (ids_for_tab (doc app) tab) selected = Some cid"
  shows "\<exists>v app'. run_keys ui y [(w, key KEnter), (w, key KEnter)] (app, d) = (Inr app', d) \<and>
    dirty app' \<and> doc app' = with_map_for category (\<lambda>m. map_insert m cid v) (doc app) \<and>
    (\<forall>q. list_all (\<lambda>s. paths_apart (fkey s) q) (ct_fields (types_for category ! 0)) \<longrightarrow>
      get_path v q = None)"
proof -
  obtain v0 where v0: "map_get (map_for category (doc app)) cid = Some v0"
    using sorted_key_get ids_for_tab_category unknown(2) sel by metis
  define app0 where "app0 = app\<lparr>screen := screen_default\<rparr>"
  have "nth_opt (ids_for_tab (doc app0) tab) selected = Some cid"
    "map_get (map_for category (doc app0)) cid = Some v0"
    using sel v0 by (simp_all add: app0_def)
  from unknown_type_opens_first [OF unknown this, of ui] obtain form where
    opened: "open_selected ui app0 tab selected = Some (app0, EditComponent category cid form)"
    and form: "fields_spec form = ct_fields (types_for category ! 0)" "focused form = 0" by blast
  define app1 where "app1 = app\<lparr>screen := EditComponent category cid form\<rparr>"
  have key1: "on_key ui y w (key KEnter) (app, d) = (Inr app1, d)"
    using assms(3) opened by (simp add: app1_def app0_def on_key_def scr handle_key_def
        handle_top_level_def top_level_key_def Let_def)
  have ok1: "app_ok app1" using on_key_ok [OF ok key1] by simp
  have app1: "screen app1 = EditComponent category cid form" "\<not> show_help app1"
    "\<not> should_quit app1" "doc app1 = doc app"
    using assms(3) quit by (simp_all add: app1_def)
  have plain: "focused_kind form \<noteq> Some OperatorList"
    using first_field_plain [of category] form by (simp add: focused_kind_def nth_opt_def)
  from submit_component_total [OF ok1 app1(1,2) plain] obtain app' where
    key2: "on_key ui y w (key KEnter) (app1, d) = (Inr app', d)" by blast
  from submit_component [OF ok1 app1(1,2) plain key2] obtain v where
    v: "to_value ui form = Some v" "dirty app'" "doc app' = with_map_for category (\<lambda>m. map_insert m cid v) (doc app)"
    using app1(4) by auto
  have "\<forall>q. list_all (\<lambda>s. paths_apart (fkey s) q) (ct_fields (types_for category ! 0)) \<longrightarrow>
      get_path v q = None"
    using submit_component_other [OF ok1 app1(1) v(1)] form(1) by simp
  with v(2,3) show ?thesis using key1 key2 app1(3) quit by auto
qed

lemma null_submitted_as_string:
  assumes "input_laws ui" and "fkind spec = Str \<or> fkind spec = Duration"
    and "get_path v (fkey spec) = Some JNull" and "value_text ui JNull = ''null''"
  shows "submit_field ui spec v = Some (Some (JString ''null''))"
  using assms
  by (auto simp: submit_field_def field_edit_state_from_def value_to_display_string_def
      input_laws_new)

end
