(* ===== verification/Editor_Flows.thy ===== *)
theory Editor_Flows
imports Registered_Forms Editor_Session
begin

text \<open>
  Sequences of keys a user presses, from a list of the top level to the document: adding a
  component of any registered type, adding a pipeline, and the walkthrough of \<open>README.md\<close>.
  Key by key each screen's lemma says what the key does; \<open>leads\<close> composes them.
\<close>

section \<open>Sequences of keys\<close>

definition press :: "world \<Rightarrow> key_code list \<Rightarrow> (world \<times> key_event) list" where
  "press w = map (\<lambda>c. (w, key c))"

definition typed :: "string \<Rightarrow> key_code list" where
  "typed = map (\<lambda>c. KChar [c])"

definition typing :: "'i ui \<Rightarrow> string \<Rightarrow> 'i \<Rightarrow> 'i" where
  "typing ui = fold (\<lambda>c i. input_handle ui i (key (KChar [c])))"

definition printable :: "char \<Rightarrow> bool" where
  "printable c \<longleftrightarrow> 0x20 \<le> (of_char c :: nat) \<and> (of_char c :: nat) < 0x7F"

text \<open>
  What the line editor documents of typing: the cursor of a new input is at its end, and a
  printable character is inserted there.
\<close>

definition typing_laws :: "'i ui \<Rightarrow> bool" where
  "typing_laws ui \<longleftrightarrow> input_laws ui \<and>
     (\<forall>t. list_all printable t \<longrightarrow> input_value ui (typing ui t (input_default ui)) = t \<and>
       (\<forall>s. input_value ui (typing ui t (input_new ui s)) = s @ t))"

lemma typing_lawsD:
  assumes "typing_laws ui"
  shows "input_laws ui"
    and "list_all printable t \<Longrightarrow> input_value ui (typing ui t (input_default ui)) = t"
    and "list_all printable t \<Longrightarrow> input_value ui (typing ui t (input_new ui s)) = s @ t"
  using assms by (simp_all add: typing_laws_def)

lemma typing_simps [simp]:
  "typing ui [] i = i" "typing ui (c # s) i = typing ui s (input_handle ui i (key (KChar [c])))"
  by (simp_all add: typing_def)

lemma plain_ui_typing: "typing_laws plain_ui"
proof -
  have "typing plain_ui t s = s @ t" for s t
    by (induction t arbitrary: s) (simp_all add: plain_ui_def)
  then show ?thesis
    using plain_ui_laws by (simp add: typing_laws_def) (simp add: plain_ui_def)
qed

text \<open>The keys \<open>cs\<close> lead from one application to another, and leave the disk alone.\<close>

definition leads ::
  "'i ui \<Rightarrow> yaml \<Rightarrow> world \<Rightarrow> disk \<Rightarrow> key_code list \<Rightarrow> 'i app \<Rightarrow> 'i app \<Rightarrow> bool" where
  "leads ui y w d cs app app' \<longleftrightarrow> run_keys ui y (press w cs) (app, d) = (Inr app', d)"

lemma leads_Nil: "leads ui y w d [] app app"
  by (simp add: leads_def press_def)

lemma leads_Cons:
  "\<not> should_quit app \<Longrightarrow> on_key ui y w (key c) (app, d) = (Inr app1, d) \<Longrightarrow>
   leads ui y w d cs app1 app2 \<Longrightarrow> leads ui y w d (c # cs) app app2"
  by (simp add: leads_def press_def)

lemma run_keys_append:
  "run_keys ui y (ks @ ks') s =
     (case run_keys ui y ks s of (Inl r, d) \<Rightarrow> (Inl r, d) | (Inr app, d) \<Rightarrow> run_keys ui y ks' (app, d))"
  by (simp add: run_keys_machine run_until_append split: sum.split prod.split)

lemma leads_append [trans]:
  assumes "leads ui y w d cs app app1" and "leads ui y w d cs' app1 app2"
  shows "leads ui y w d (cs @ cs') app app2"
  using assms by (simp add: leads_def press_def run_keys_append)

text \<open>The screens and the state the sequences go through.\<close>

definition ready :: "'i app \<Rightarrow> bool" where
  "ready app \<longleftrightarrow> \<not> show_help app \<and> \<not> should_quit app"

lemma ready_simps [simp]:
  "ready (app\<lparr>screen := s\<rparr>) = ready app"
  "ready (change_doc f msg app) = ready app"
  by (simp_all add: ready_def change_doc_def)

lemma leads_key:
  assumes "ready app" and "on_key ui y w (key c) (app, d) = (Inr app1, d)"
  shows "leads ui y w d [c] app app1"
  using assms leads_Cons [OF _ assms(2) leads_Nil] by (simp add: ready_def)

section \<open>What one key does on each screen\<close>

lemma leads_handled:
  assumes "ready app" and "c \<noteq> KChar ''?'' \<or> \<not> screen_accepts_help_hotkey (screen app)"
    and "handle_key ui y w (app\<lparr>screen := screen_default\<rparr>) (screen app) (key c) d = (Inr (app', scr'), d)"
  shows "leads ui y w d [c] app (app'\<lparr>screen := scr'\<rparr>)"
  using assms(2,3) by (intro leads_key [OF assms(1)]) (use assms(1) in \<open>auto simp: on_key_def ready_def\<close>)

text \<open>A key that goes to another screen and changes nothing else.\<close>

lemma leads_screen:
  assumes "ready app" and "c \<noteq> KChar ''?'' \<or> \<not> screen_accepts_help_hotkey (screen app)"
    and "handle_key ui y w (app\<lparr>screen := screen_default\<rparr>) (screen app) (key c) d =
      (Inr (app\<lparr>screen := screen_default\<rparr>, scr'), d)"
  shows "leads ui y w d [c] app (app\<lparr>screen := scr'\<rparr>)"
  using leads_handled [OF assms] by simp

text \<open>Moving down a list of types.\<close>

lemma leads_down:
  assumes "ready app" and "screen app = PickType category j" and "j + i < length (types_for category)"
  shows "leads ui y w d (replicate i KDown) app (app\<lparr>screen := PickType category (j + i)\<rparr>)"
  using assms
proof (induction i arbitrary: j app)
  case 0
  then have "app\<lparr>screen := PickType category j\<rparr> = app" by simp
  then show ?case by (simp add: leads_Nil)
next
  case (Suc i)
  let ?app1 = "app\<lparr>screen := PickType category (Suc j)\<rparr>"
  have "select_down (length (types_for category)) j = Suc j"
    using Suc.prems(3) by (auto simp: select_down_def)
  then have "leads ui y w d [KDown] app ?app1"
    using Suc.prems(1,2) by (intro leads_screen) (simp_all add: handle_key_def handle_pick_type_def)
  moreover have "leads ui y w d (replicate i KDown) ?app1 (?app1\<lparr>screen := PickType category (Suc j + i)\<rparr>)"
    using Suc.prems by (intro Suc.IH) simp_all
  ultimately have "leads ui y w d ([KDown] @ replicate i KDown) app
      (?app1\<lparr>screen := PickType category (Suc j + i)\<rparr>)"
    by (rule leads_append)
  then show ?case by simp
qed

text \<open>Typing at a prompt.\<close>

lemma leads_typed:
  assumes "\<And>app input c. ready app \<Longrightarrow> screen app = prompt input \<Longrightarrow>
    leads ui y w d [KChar [c]] app (app\<lparr>screen := prompt (input_handle ui input (key (KChar [c])))\<rparr>)"
  shows "ready app \<Longrightarrow> screen app = prompt input \<Longrightarrow>
    leads ui y w d (typed t) app (app\<lparr>screen := prompt (typing ui t input)\<rparr>)"
proof (induction t arbitrary: app input)
  case Nil
  then have "app\<lparr>screen := prompt input\<rparr> = app" by simp
  then show ?case by (simp add: typed_def leads_Nil)
next
  case (Cons c t)
  let ?app1 = "app\<lparr>screen := prompt (input_handle ui input (key (KChar [c])))\<rparr>"
  have "leads ui y w d [KChar [c]] app ?app1" by (rule assms [OF Cons.prems])
  moreover have "leads ui y w d (typed t) ?app1 (?app1\<lparr>screen := prompt (typing ui (c # t) input)\<rparr>)"
    using Cons.IH [of ?app1] Cons.prems(1) by simp
  ultimately have "leads ui y w d ([KChar [c]] @ typed t) app
      (?app1\<lparr>screen := prompt (typing ui (c # t) input)\<rparr>)"
    by (rule leads_append)
  then show ?case by (simp add: typed_def)
qed

lemma leads_typed_name:
  "ready app \<Longrightarrow> screen app = NameNewComponent category ty input \<Longrightarrow>
   leads ui y w d (typed t) app (app\<lparr>screen := NameNewComponent category ty (typing ui t input)\<rparr>)"
  by (rule leads_typed [where prompt = "NameNewComponent category ty"])
    (rule leads_screen, assumption, simp_all add: handle_key_def handle_name_component_def)

lemma leads_typed_pipeline_name:
  "ready app \<Longrightarrow> screen app = NameNewPipeline input \<Longrightarrow>
   leads ui y w d (typed t) app (app\<lparr>screen := NameNewPipeline (typing ui t input)\<rparr>)"
  by (rule leads_typed [where prompt = NameNewPipeline])
    (rule leads_screen, assumption, simp_all add: handle_key_def handle_name_pipeline_def)

text \<open>Typing into the focused field of a form, a text or a comma-separated one.\<close>

definition put_state :: "'i field_edit_state \<Rightarrow> 'i form_state \<Rightarrow> 'i form_state" where
  "put_state st form = form\<lparr>fstates := (fstates form)[focused form := st]\<rparr>"

lemma put_state_simps [simp]:
  "focused (put_state st form) = focused form" "fields_spec (put_state st form) = fields_spec form"
  "length (fstates (put_state st form)) = length (fstates form)"
  "focused form < length (fstates form) \<Longrightarrow> fstates (put_state st form) ! focused form = st"
  "put_state st' (put_state st form) = put_state st' form"
  "write_type_key (put_state st form) = write_type_key form" "type_name (put_state st form) = type_name form"
  by (simp_all add: put_state_def)

lemma form_on_key_list:
  assumes "focused form < length (fstates form)"
  shows "form_on_key ui (put_state (StringListState input) form) (key (KChar c)) =
    Some (put_state (StringListState (input_handle ui input (key (KChar c)))) form, Continue)"
  using assms by (simp add: form_on_key_def nth_opt_def put_state_def)

lemma leads_typed_component:
  assumes "ready app" and "focused form < length (fstates form)"
    and "screen app = EditComponent category cid (put_state (StringListState input) form)"
  shows "leads ui y w d (typed t) app
    (app\<lparr>screen := EditComponent category cid (put_state (StringListState (typing ui t input)) form)\<rparr>)"
  by (rule leads_typed [where prompt = "\<lambda>i. EditComponent category cid (put_state (StringListState i) form)",
        OF _ assms(1,3)])
    (rule leads_screen, assumption, simp_all add: handle_key_def handle_edit_component_def form_on_key_list assms(2))

lemma leads_typed_pipeline:
  assumes "ready app" and "focused form < length (fstates form)"
    and "screen app = EditPipeline cid (put_state (StringListState input) form)"
  shows "leads ui y w d (typed t) app
    (app\<lparr>screen := EditPipeline cid (put_state (StringListState (typing ui t input)) form)\<rparr>)"
  by (rule leads_typed [where prompt = "\<lambda>i. EditPipeline cid (put_state (StringListState i) form)",
        OF _ assms(1,3)])
    (rule leads_screen, assumption, simp_all add: handle_key_def handle_edit_pipeline_def form_on_key_list assms(2))

section \<open>Adding a component\<close>

text \<open>From the list of a category to the form of a new component of its \<open>i\<close>-th type.\<close>

definition add_keys :: "nat \<Rightarrow> string \<Rightarrow> key_code list" where
  "add_keys i cid = [KChar ''a''] @ replicate i KDown @ [KEnter] @ typed cid @ [KEnter]"

lemma leads_add:
  assumes laws: "typing_laws ui" and ready: "ready app" and scr: "screen app = TopLevel (tab_for category) selected"
    and spec: "nth_opt (types_for category) i = Some spec"
    and cid: "list_all printable cid" "cid \<noteq> []" "trim cid = cid"
    and free: "map_get (map_for category (doc app)) cid = None"
    and form: "form_new ui (Some (ct_name spec)) False (ct_fields spec) (minimal_value spec) = Some form"
  shows "leads ui y w d (add_keys i cid) app (app\<lparr>screen := EditComponent category cid form\<rparr>)"
proof -
  have tab: "tab_category (tab_for category) = Some category" by (cases category) simp_all
  have i: "0 + i < length (types_for category)" using spec by (auto dest: nth_opt_SomeD)
  have mem: "spec \<in> set (types_for category)" using spec by (auto dest: nth_opt_SomeD)
  let ?input = "typing ui cid (input_default ui)"
  let ?pick = "\<lambda>j. app\<lparr>screen := PickType category j\<rparr>"
  let ?name = "\<lambda>inp. app\<lparr>screen := NameNewComponent category (ct_name spec) inp\<rparr>"
  have "leads ui y w d [KChar ''a''] app (?pick 0)"
    using ready scr tab
    by (intro leads_screen) (simp_all add: handle_key_def handle_top_level_def top_level_key_def)
  also have "leads ui y w d (replicate i KDown) (?pick 0) (?pick i)"
    using leads_down [of "?pick 0" category 0 i ui y w d] ready i by simp
  also have "leads ui y w d [KEnter] (?pick i) (?name (input_default ui))"
    using leads_screen [of "?pick i" KEnter ui y w d "NameNewComponent category (ct_name spec) (input_default ui)"]
      ready spec by (simp add: handle_key_def handle_pick_type_def)
  also have "leads ui y w d (typed cid) (?name (input_default ui)) (?name ?input)"
    using leads_typed_name [of "?name (input_default ui)" category "ct_name spec" _ ui y w d cid] ready
    by simp
  also have "leads ui y w d [KEnter] (?name ?input) (app\<lparr>screen := EditComponent category cid form\<rparr>)"
    using leads_screen [of "?name ?input" KEnter ui y w d "EditComponent category cid form"]
      ready cid free form typing_lawsD(2) [OF laws cid(1)] types.lookup_member [OF mem]
    by (simp add: handle_key_def handle_name_component_def contains_key_def Let_def)
  finally show ?thesis by (simp add: add_keys_def)
qed

text \<open>Enter on a form away from its operators stores what it stands for.\<close>

lemma leads_submit:
  assumes "ready app" and "screen app = EditComponent category cid form"
    and "focused_kind form \<noteq> Some OperatorList" and "to_value ui form = Some v"
  shows "leads ui y w d [KEnter] app
    ((change_doc (with_map_for category (\<lambda>m. map_insert m cid v)) (updated_message cid) app)
      \<lparr>screen := TopLevel (tab_for category) 0\<rparr>)"
proof -
  have "leads ui y w d [KEnter] app
    ((change_doc (with_map_for category (\<lambda>m. map_insert m cid v)) (updated_message cid) (app\<lparr>screen := screen_default\<rparr>))
      \<lparr>screen := TopLevel (tab_for category) 0\<rparr>)"
    using assms by (intro leads_handled)
      (simp_all add: handle_key_def handle_edit_component_def form_on_key_def)
  then show ?thesis by (simp add: change_doc_def)
qed

lemma first_fields_plain:
  assumes "s \<in> set (types_for category)"
  shows "0 < length (ct_fields s)" and "fkind (ct_fields s ! 0) \<noteq> OperatorList"
proof -
  have "list_all (\<lambda>c. list_all (\<lambda>s. 0 < length (ct_fields s) \<and> fkind (ct_fields s ! 0) \<noteq> OperatorList)
      (types_for c)) [Receiver, Exporter, Extension]"
    by code_simp
  then show "0 < length (ct_fields s)" "fkind (ct_fields s ! 0) \<noteq> OperatorList"
    using assms by (cases category; auto simp: list_all_iff)+
qed

text \<open>The required fields of a seed come back from its form as they were.\<close>

definition seed_kept :: "field_spec \<Rightarrow> bool" where
  "seed_kept f \<longleftrightarrow>
     (case fkind f of
        Str \<Rightarrow> fdefault f \<noteq> Some []
      | StringList \<Rightarrow> fdefault f = None
      | Enum options \<Rightarrow>
          (case position (\<lambda>opt. JString opt = minimal_field f) options of
             Some j \<Rightarrow> JString (options ! j) = minimal_field f | None \<Rightarrow> False)
      | _ \<Rightarrow> False)"

lemma required_seed_kept:
  assumes "s \<in> set (types_for category)" and "f \<in> set (ct_fields s)" and "frequired f"
  shows "seed_kept f"
proof -
  have "list_all (\<lambda>c. list_all (\<lambda>s. list_all (\<lambda>f. frequired f \<longrightarrow> seed_kept f) (ct_fields s))
      (types_for c)) [Receiver, Exporter, Extension]"
    by code_simp
  then show ?thesis using assms by (cases category) (auto simp: list_all_iff)
qed

lemma submit_seed_kept:
  assumes "input_laws ui" and "seed_kept f" and "get_path v (fkey f) = Some (minimal_field f)"
  shows "submit_field ui f v = Some (Some (minimal_field f))"
proof (cases "fkind f")
  case Str
  then show ?thesis using assms
    by (auto simp: seed_kept_def submit_field_def field_edit_state_from_def minimal_field_def
        value_to_display_string_def input_laws_new split: option.splits)
next
  case StringList
  have "list_items ''placeholder'' = [''placeholder'']" by code_simp
  with StringList show ?thesis using assms
    by (auto simp: seed_kept_def submit_field_def field_edit_state_from_def minimal_field_def
        input_laws_new List.map_filter_def)
next
  case (Enum options)
  with assms(2) obtain j where j: "position (\<lambda>opt. JString opt = minimal_field f) options = Some j"
    "JString (options ! j) = minimal_field f"
    by (auto simp: seed_kept_def split: option.splits)
  have "minimal_field f = JString (options ! j)" using j(2) by simp
  moreover from this j(1) have "position (\<lambda>opt. opt = options ! j) options = Some j" by simp
  ultimately show ?thesis using assms(3) Enum position_SomeD [OF j(1)]
    by (cases options) (auto simp: submit_field_def field_edit_state_from_def nth_opt_def simp del: position.simps)
qed (use assms(2) in \<open>simp_all add: seed_kept_def\<close>)

definition stored :: "component_category \<Rightarrow> string \<Rightarrow> json \<Rightarrow> 'i app \<Rightarrow> 'i app" where
  "stored category cid v app =
     (change_doc (with_map_for category (\<lambda>m. map_insert m cid v)) (updated_message cid) app)
       \<lparr>screen := TopLevel (tab_for category) 0\<rparr>"

lemma stored_simps [simp]:
  "ready (stored category cid v app) = ready app"
  "screen (stored category cid v app) = TopLevel (tab_for category) 0"
  "doc (stored category cid v app) = with_map_for category (\<lambda>m. map_insert m cid v) (doc app)"
  "dirty (stored category cid v app)" "should_quit (stored category cid v app) = should_quit app"
  "show_help (stored category cid v app) = show_help app"
  "config_path (stored category cid v app) = config_path app"
  by (simp_all add: stored_def change_doc_def ready_def)

lemma component_added:
  assumes laws: "typing_laws ui" and ready: "ready app"
    and scr: "screen app = TopLevel (tab_for category) selected"
    and spec: "nth_opt (types_for category) i = Some spec"
    and cid: "list_all printable cid" "cid \<noteq> []" "trim cid = cid"
    and free: "map_get (map_for category (doc app)) cid = None"
  shows "\<exists>v. leads ui y w d (add_keys i cid @ [KEnter]) app (stored category cid v app) \<and>
    (\<forall>f \<in> set (ct_fields spec). frequired f \<longrightarrow> get_path v (fkey f) = Some (minimal_field f))"
proof -
  have mem: "spec \<in> set (types_for category)" using spec by (auto dest: nth_opt_SomeD)
  from component_keys_ok [OF this] have keys: "keys_ok False (ct_fields spec)" and
    ok: "fields_ok (ct_fields spec)" by (simp_all add: keys_ok_def)
  from form_new_ok [OF ok] obtain form where
    form: "form_new ui (Some (ct_name spec)) False (ct_fields spec) (minimal_value spec) = Some form"
    "form_ok form" by blast
  from to_value_ok [OF form(2)] obtain v where v: "to_value ui form = Some v" by blast
  have "focused form = 0" "fields_spec form = ct_fields spec" using form(1) by (auto simp: form_new_def)
  then have plain: "focused_kind form \<noteq> Some OperatorList"
    using first_fields_plain [OF mem] by (simp add: focused_kind_def nth_opt_def)
  note leads_add [OF laws ready scr spec cid free form(1)]
  also have "leads ui y w d [KEnter] (app\<lparr>screen := EditComponent category cid form\<rparr>) (stored category cid v app)"
    using leads_submit [of "app\<lparr>screen := EditComponent category cid form\<rparr>" category cid form ui v y w d]
      ready plain v by (simp add: stored_def change_doc_def)
  finally have "leads ui y w d (add_keys i cid @ [KEnter]) app (stored category cid v app)" .
  moreover have "get_path v (fkey f) = Some (minimal_field f)" if "f \<in> set (ct_fields spec)" "frequired f" for f
  proof -
    have "submit ui (Some (ct_name spec)) False (ct_fields spec) (minimal_value spec) = Some v"
      using form(1) v by (simp add: submit_def)
    from submit_get [OF keys this that(1)]
      submit_seed_kept [OF typing_lawsD(1) [OF laws] required_seed_kept [OF mem that]
        minimal_value_required [OF ok that]]
    show ?thesis by simp
  qed
  ultimately show ?thesis by blast
qed

section \<open>Adding a pipeline\<close>

definition pipeline_keys :: "string \<Rightarrow> string \<Rightarrow> string \<Rightarrow> key_code list" where
  "pipeline_keys n r e = [KChar ''a''] @ typed n @ [KEnter] @ typed r @ [KTab] @ typed e @ [KEnter]"

text \<open>The value of a pipeline's form: a field without items is not written.\<close>

definition pipeline_value :: "string \<Rightarrow> string \<Rightarrow> json" where
  "pipeline_value r e = JObject
     ((if list_items r = [] then [] else [(''receivers'', JArray (map JString (list_items r)))]) @
      (if list_items e = [] then [] else [(''exporters'', JArray (map JString (list_items e)))]))"

definition new_pipeline_form :: "'i \<Rightarrow> 'i \<Rightarrow> nat \<Rightarrow> 'i form_state" where
  "new_pipeline_form r e n = \<lparr>type_name = None, write_type_key = False, fields_spec = PIPELINE_FIELDS,
     fstates = [StringListState r, StringListState e], focused = n\<rparr>"

lemma new_pipeline_form_new:
  "form_new ui None False PIPELINE_FIELDS (JObject []) = Some (new_pipeline_form (input_new ui []) (input_new ui []) 0)"
  by (simp add: form_new_def new_pipeline_form_def PIPELINE_FIELDS_def field_edit_state_from_def get_path_empty)

lemma new_pipeline_form_put:
  "put_state (StringListState i) (new_pipeline_form r e 0) = new_pipeline_form i e 0"
  "put_state (StringListState i) (new_pipeline_form r e (Suc 0)) = new_pipeline_form r i (Suc 0)"
  by (simp_all add: put_state_def new_pipeline_form_def)

lemma new_pipeline_form_value:
  "to_value ui (new_pipeline_form r e n) = Some (pipeline_value (input_value ui r) (input_value ui e))"
proof -
  have "split_on (CHR ''.'') ''receivers'' = [''receivers'']" "split_on (CHR ''.'') ''exporters'' = [''exporters'']"
    by code_simp+
  then show ?thesis
    by (auto simp: to_value_def new_pipeline_form_def PIPELINE_FIELDS_def pipeline_value_def write_field_def
        add_type_key_def set_path_set_segs map_insert_def Let_def)
qed

definition stored_pipeline :: "string \<Rightarrow> json \<Rightarrow> 'i app \<Rightarrow> 'i app" where
  "stored_pipeline n v app =
     (change_doc (\<lambda>dc. dc\<lparr>pipelines := map_insert (pipelines dc) n v\<rparr>) (updated_message n) app)
       \<lparr>screen := TopLevel Pipelines 0\<rparr>"

lemma stored_pipeline_simps [simp]:
  "ready (stored_pipeline n v app) = ready app"
  "screen (stored_pipeline n v app) = TopLevel Pipelines 0"
  "doc (stored_pipeline n v app) = (doc app)\<lparr>pipelines := map_insert (pipelines (doc app)) n v\<rparr>"
  "dirty (stored_pipeline n v app)" "should_quit (stored_pipeline n v app) = should_quit app"
  "show_help (stored_pipeline n v app) = show_help app"
  "config_path (stored_pipeline n v app) = config_path app"
  by (simp_all add: stored_pipeline_def change_doc_def ready_def)

lemma pipeline_added:
  assumes laws: "typing_laws ui" and ready: "ready app" and scr: "screen app = TopLevel Pipelines selected"
    and n: "list_all printable n" "n \<noteq> []" "trim n = n" and free: "map_get (pipelines (doc app)) n = None"
    and items: "list_all printable r" "list_all printable e"
  shows "leads ui y w d (pipeline_keys n r e) app (stored_pipeline n (pipeline_value r e) app)"
proof -
  let ?empty = "input_new ui []"
  let ?r = "typing ui r ?empty" and ?e = "typing ui e ?empty"
  let ?name = "\<lambda>inp. app\<lparr>screen := NameNewPipeline inp\<rparr>"
  let ?form = "\<lambda>f. app\<lparr>screen := EditPipeline n f\<rparr>"
  let ?n = "typing ui n (input_default ui)"
  have "leads ui y w d [KChar ''a''] app (?name (input_default ui))"
    using ready scr
    by (intro leads_screen) (simp_all add: handle_key_def handle_top_level_def top_level_key_def)
  also have "leads ui y w d (typed n) (?name (input_default ui)) (?name ?n)"
    using leads_typed_pipeline_name [of "?name (input_default ui)" _ ui y w d n] ready by simp
  also have "leads ui y w d [KEnter] (?name ?n) (?form (new_pipeline_form ?empty ?empty 0))"
    using leads_screen [of "?name ?n" KEnter ui y w d "EditPipeline n (new_pipeline_form ?empty ?empty 0)"]
      ready n free typing_lawsD(2) [OF laws n(1)]
    by (simp add: handle_key_def handle_name_pipeline_def contains_key_def Let_def new_pipeline_form_new)
  also have "leads ui y w d (typed r) (?form (new_pipeline_form ?empty ?empty 0)) (?form (new_pipeline_form ?r ?empty 0))"
    using leads_typed_pipeline [of "?form (new_pipeline_form ?empty ?empty 0)" "new_pipeline_form ?empty ?empty 0" n ?empty ui y w d r]
      ready by (simp add: new_pipeline_form_put) (simp add: new_pipeline_form_def)
  also have "leads ui y w d [KTab] (?form (new_pipeline_form ?r ?empty 0)) (?form (new_pipeline_form ?r ?empty 1))"
    using leads_screen [of "?form (new_pipeline_form ?r ?empty 0)" KTab ui y w d "EditPipeline n (new_pipeline_form ?r ?empty 1)"]
      ready by (simp add: handle_key_def handle_edit_pipeline_def form_on_key_def) (simp add: new_pipeline_form_def)
  also have "leads ui y w d (typed e) (?form (new_pipeline_form ?r ?empty 1)) (?form (new_pipeline_form ?r ?e 1))"
    using leads_typed_pipeline [of "?form (new_pipeline_form ?r ?empty 1)" "new_pipeline_form ?r ?empty 1" n ?empty ui y w d e]
      ready by (simp add: new_pipeline_form_put) (simp add: new_pipeline_form_def)
  also have "leads ui y w d [KEnter] (?form (new_pipeline_form ?r ?e 1)) (stored_pipeline n (pipeline_value r e) app)"
    using leads_handled [of "?form (new_pipeline_form ?r ?e 1)" KEnter ui y w d] ready typing_lawsD(3) [OF laws items(1), of "[]"]
      typing_lawsD(3) [OF laws items(2), of "[]"]
    by (simp add: handle_key_def handle_edit_pipeline_def form_on_key_def new_pipeline_form_value
        stored_pipeline_def change_doc_def)
  finally show ?thesis by (simp add: pipeline_keys_def)
qed

section \<open>The walkthrough of the documentation\<close>

text \<open>
  \<open>README.md\<close>, "build a minimal working config from scratch", steps 2 to 10, key by key: a
  receiver \<open>file_log/test\<close> into whose field \<open>include\<close> the user types a path, an exporter
  \<open>debug\<close>, a pipeline that joins them, then save and quit. The form shows the seed's text
  \<open>placeholder\<close>, and what is typed goes behind it.
\<close>

definition walkthrough_edits :: "string \<Rightarrow> key_code list" where
  "walkthrough_edits p =
     add_keys 1 ''file_log/test'' @ typed p @ [KEnter] @
     [KTab] @ add_keys 1 ''debug'' @ [KEnter] @
     [KTab, KTab] @ pipeline_keys ''logs/test'' ''file_log/test'' ''debug''"

definition walkthrough_doc :: "string \<Rightarrow> editor_doc" where
  "walkthrough_doc p =
     \<lparr>receivers = [(''file_log/test'', JObject
         [(''include'', JArray [JString (''placeholder'' @ p)]),
          (''start_at'', JString ''end''), (''poll_interval'', JString ''200ms'')])],
      exporters = [(''debug'', JObject [(''verbosity'', JString ''normal'')])],
      extensions = [],
      pipelines = [(''logs/test'', JObject
         [(''receivers'', JArray [JString ''file_log/test'']), (''exporters'', JArray [JString ''debug''])])]\<rparr>"

definition file_log_form :: "'i ui \<Rightarrow> 'i \<Rightarrow> 'i form_state" where
  "file_log_form ui i = \<lparr>type_name = Some ''file_log'', write_type_key = False, fields_spec = FILE_LOG_FIELDS,
     fstates = [StringListState i, StringListState (input_new ui []), EnumState [''beginning'', ''end''] 1,
       TextState (input_new ui ''200ms''), TextState (input_new ui []), OperatorListState []],
     focused = 0\<rparr>"

definition debug_form :: "'i form_state" where
  "debug_form = \<lparr>type_name = Some ''debug'', write_type_key = False, fields_spec = DEBUG_FIELDS,
     fstates = [EnumState [''basic'', ''normal'', ''detailed''] 1], focused = 0\<rparr>"

lemma file_log_form_new:
  "form_new ui (Some (ct_name (RECEIVER_TYPES ! 1))) False (ct_fields (RECEIVER_TYPES ! 1))
     (minimal_value (RECEIVER_TYPES ! 1)) = Some (file_log_form ui (input_new ui ''placeholder''))"
proof -
  have "minimal_value (RECEIVER_TYPES ! 1) = JObject [(''include'', JArray [JString ''placeholder''])]"
    by code_simp
  moreover have "get_path (JObject [(''include'', JArray [JString ''placeholder''])]) ''include'' = Some (JArray [JString ''placeholder''])"
    "get_path (JObject [(''include'', JArray [JString ''placeholder''])]) ''exclude'' = None"
    "get_path (JObject [(''include'', JArray [JString ''placeholder''])]) ''start_at'' = None"
    "get_path (JObject [(''include'', JArray [JString ''placeholder''])]) ''poll_interval'' = None"
    "get_path (JObject [(''include'', JArray [JString ''placeholder''])]) ''storage'' = None"
    "get_path (JObject [(''include'', JArray [JString ''placeholder''])]) ''operators'' = None"
    by code_simp+
  ultimately show ?thesis
    by (simp add: RECEIVER_TYPES_def form_new_def FILE_LOG_FIELDS_def STORAGE_def OPERATORS_def fspec_def
        field_edit_state_from_def file_log_form_def List.map_filter_def)
qed

lemma debug_form_new:
  "form_new ui (Some (ct_name (EXPORTER_TYPES ! 1))) False (ct_fields (EXPORTER_TYPES ! 1))
     (minimal_value (EXPORTER_TYPES ! 1)) = Some debug_form"
proof -
  have "minimal_value (EXPORTER_TYPES ! 1) = JObject []" by code_simp
  then show ?thesis
    by (simp add: EXPORTER_TYPES_def form_new_def DEBUG_FIELDS_def fspec_def field_edit_state_from_def
        debug_form_def get_path_empty)
qed

lemma keys_single:
  "split_on (CHR ''.'') ''include'' = [''include'']" "split_on (CHR ''.'') ''start_at'' = [''start_at'']"
  "split_on (CHR ''.'') ''poll_interval'' = [''poll_interval'']" "split_on (CHR ''.'') ''verbosity'' = [''verbosity'']"
  by code_simp+

lemma file_log_form_value:
  assumes "input_laws ui" and "input_value ui i = t" and "plain_item t"
  shows "to_value ui (file_log_form ui i) = Some (JObject
    [(''include'', JArray [JString t]), (''start_at'', JString ''end''),
     (''poll_interval'', JString ''200ms'')])"
  using assms(1,2) list_items_join [of "[t]"] assms(3)
  by (simp add: to_value_def file_log_form_def FILE_LOG_FIELDS_def STORAGE_def OPERATORS_def fspec_def write_field_def
      add_type_key_def set_path_set_segs map_insert_def Let_def keys_single input_laws_new)

lemma debug_form_value: "to_value ui debug_form = Some (JObject [(''verbosity'', JString ''normal'')])"
  by (simp add: to_value_def debug_form_def DEBUG_FIELDS_def fspec_def write_field_def
      add_type_key_def set_path_set_segs map_insert_def Let_def keys_single)

lemma leads_tab:
  assumes "ready app" and "screen app = TopLevel tab selected"
  shows "leads ui y w d [KTab] app (app\<lparr>screen := TopLevel (tab_next tab) 0\<rparr>)"
  using assms by (intro leads_screen)
    (simp_all add: handle_key_def handle_top_level_def top_level_key_def Let_def)

lemma file_log_added:
  assumes laws: "typing_laws ui" and ready: "ready app" and scr: "screen app = TopLevel Receivers selected"
    and free: "map_get (receivers (doc app)) ''file_log/test'' = None"
    and p: "list_all printable p" "plain_item (''placeholder'' @ p)"
  shows "leads ui y w d (add_keys 1 ''file_log/test'' @ typed p @ [KEnter]) app
    (stored Receiver ''file_log/test'' (JObject
      [(''include'', JArray [JString (''placeholder'' @ p)]),
       (''start_at'', JString ''end''), (''poll_interval'', JString ''200ms'')]) app)"
proof -
  let ?i = "input_new ui ''placeholder''"
  let ?at = "\<lambda>i. app\<lparr>screen := EditComponent Receiver ''file_log/test'' (file_log_form ui i)\<rparr>"
  have put: "put_state (StringListState i) (file_log_form ui j) = file_log_form ui i" for i j
    by (simp add: put_state_def file_log_form_def)
  have spec: "nth_opt (types_for Receiver) 1 = Some (RECEIVER_TYPES ! 1)"
    by (simp add: nth_opt_def types_for.simps RECEIVER_TYPES_def)
  have id: "list_all printable ''file_log/test''" "''file_log/test'' \<noteq> []" "trim ''file_log/test'' = ''file_log/test''"
    by code_simp+
  have "leads ui y w d (add_keys 1 ''file_log/test'') app (?at ?i)"
    using scr free by (intro leads_add [OF laws ready _ spec id _ file_log_form_new]) simp_all
  also have "leads ui y w d (typed p) (?at ?i) (?at (typing ui p ?i))"
    using leads_typed_component [of "?at ?i" "file_log_form ui ?i" Receiver "''file_log/test''" ?i ui y w d p] ready
    by (simp add: put) (simp add: file_log_form_def)
  also have "leads ui y w d [KEnter] (?at (typing ui p ?i)) (stored Receiver ''file_log/test'' (JObject
      [(''include'', JArray [JString (''placeholder'' @ p)]),
       (''start_at'', JString ''end''), (''poll_interval'', JString ''200ms'')]) app)"
  proof -
    have "focused_kind (file_log_form ui (typing ui p ?i)) \<noteq> Some OperatorList"
      by (simp add: focused_kind_def file_log_form_def FILE_LOG_FIELDS_def fspec_def nth_opt_def)
    moreover note file_log_form_value [OF typing_lawsD(1) [OF laws]
        typing_lawsD(3) [OF laws p(1), of "''placeholder''"] p(2)]
    ultimately show ?thesis
      using leads_submit [of "?at (typing ui p ?i)"] ready
      by (simp add: stored_def change_doc_def)
  qed
  finally show ?thesis by simp
qed

lemma debug_added:
  assumes laws: "typing_laws ui" and ready: "ready app" and scr: "screen app = TopLevel Exporters selected"
    and free: "map_get (exporters (doc app)) ''debug'' = None"
  shows "leads ui y w d (add_keys 1 ''debug'' @ [KEnter]) app
    (stored Exporter ''debug'' (JObject [(''verbosity'', JString ''normal'')]) app)"
proof -
  let ?at = "app\<lparr>screen := EditComponent Exporter ''debug'' debug_form\<rparr>"
  have spec: "nth_opt (types_for Exporter) 1 = Some (EXPORTER_TYPES ! 1)"
    by (simp add: nth_opt_def types_for.simps EXPORTER_TYPES_def)
  have id: "list_all printable ''debug''" "''debug'' \<noteq> []" "trim ''debug'' = ''debug''"
    by code_simp+
  have "leads ui y w d (add_keys 1 ''debug'') app ?at"
    using scr free by (intro leads_add [OF laws ready _ spec id _ debug_form_new]) simp_all
  also have "leads ui y w d [KEnter] ?at (stored Exporter ''debug'' (JObject [(''verbosity'', JString ''normal'')]) app)"
  proof -
    have "focused_kind debug_form \<noteq> Some OperatorList"
      by (simp add: focused_kind_def debug_form_def DEBUG_FIELDS_def fspec_def nth_opt_def)
    then show ?thesis
      using leads_submit [OF _ _ _ debug_form_value, of ?at Exporter "''debug''" ui y w d] ready
      by (simp add: stored_def change_doc_def)
  qed
  finally show ?thesis .
qed

lemma walkthrough_edits_lead:
  assumes laws: "typing_laws ui" and p: "list_all printable p" "plain_item (''placeholder'' @ p)"
    and app: "ready app" "screen app = TopLevel Receivers selected" "doc app = doc_new"
  shows "\<exists>app'. leads ui y w d (walkthrough_edits p) app app' \<and> ready app' \<and>
    screen app' = TopLevel Pipelines 0 \<and> doc app' = walkthrough_doc p \<and> config_path app' = config_path app"
proof -
  define app1 where "app1 = stored Receiver ''file_log/test'' (JObject
      [(''include'', JArray [JString (''placeholder'' @ p)]),
       (''start_at'', JString ''end''), (''poll_interval'', JString ''200ms'')]) app"
  define app2 where "app2 = stored Exporter ''debug'' (JObject [(''verbosity'', JString ''normal'')])
      (app1\<lparr>screen := TopLevel Exporters 0\<rparr>)"
  define app3 where "app3 = stored_pipeline ''logs/test'' (pipeline_value ''file_log/test'' ''debug'')
      (app2\<lparr>screen := TopLevel Pipelines 0\<rparr>)"
  have docs: "doc app1 = doc_new\<lparr>receivers := receivers (walkthrough_doc p)\<rparr>"
    "doc app2 = (doc app1)\<lparr>exporters := exporters (walkthrough_doc p)\<rparr>"
    using app(3) by (simp_all add: app1_def app2_def doc_new_def walkthrough_doc_def map_insert_def)
  have states: "ready app1" "screen app1 = TopLevel Receivers 0" "ready app2" "screen app2 = TopLevel Exporters 0"
    using app(1) by (simp_all add: app1_def app2_def)
  have names: "list_all printable ''logs/test''" "''logs/test'' \<noteq> []" "trim ''logs/test'' = ''logs/test''"
    "list_all printable ''file_log/test''" "list_all printable ''debug''"
    by code_simp+
  have "leads ui y w d (add_keys 1 ''file_log/test'' @ typed p @ [KEnter]) app app1"
    unfolding app1_def using app p by (intro file_log_added [OF laws]) (simp_all add: doc_new_def map_get_def)
  also have "leads ui y w d [KTab] app1 (app1\<lparr>screen := TopLevel Exporters 0\<rparr>)"
    using leads_tab [OF states(1,2)] by simp
  also have "leads ui y w d (add_keys 1 ''debug'' @ [KEnter]) (app1\<lparr>screen := TopLevel Exporters 0\<rparr>) app2"
    unfolding app2_def using states(1) by (intro debug_added [OF laws]) (simp_all add: docs doc_new_def map_get_def)
  also have "leads ui y w d [KTab] app2 (app2\<lparr>screen := TopLevel Extensions 0\<rparr>)"
    using leads_tab [OF states(3,4)] by simp
  also have "leads ui y w d [KTab] (app2\<lparr>screen := TopLevel Extensions 0\<rparr>) (app2\<lparr>screen := TopLevel Pipelines 0\<rparr>)"
    using leads_tab [of "app2\<lparr>screen := TopLevel Extensions 0\<rparr>" Extensions 0] states(3) by simp
  also have "leads ui y w d (pipeline_keys ''logs/test'' ''file_log/test'' ''debug'')
      (app2\<lparr>screen := TopLevel Pipelines 0\<rparr>) app3"
    unfolding app3_def using states(3) names
    by (intro pipeline_added [OF laws]) (simp_all add: docs doc_new_def map_get_def)
  finally have "leads ui y w d (walkthrough_edits p) app app3" by (simp add: walkthrough_edits_def)
  moreover have "doc app3 = walkthrough_doc p"
  proof -
    have "pipeline_value ''file_log/test'' ''debug'' = JObject
        [(''receivers'', JArray [JString ''file_log/test'']), (''exporters'', JArray [JString ''debug''])]"
      by code_simp
    then show ?thesis
      by (simp add: app3_def docs) (simp add: doc_new_def walkthrough_doc_def map_insert_def)
  qed
  moreover have "ready app3" "screen app3 = TopLevel Pipelines 0" "config_path app3 = config_path app"
    using app(1) by (simp_all add: app3_def app2_def app1_def)
  ultimately show ?thesis by blast
qed

definition walkthrough_keys :: "string \<Rightarrow> key_code list" where
  "walkthrough_keys p = walkthrough_edits p @ [KChar ''s'', KChar ''q'']"

lemma walkthrough_saved:
  assumes laws: "typing_laws ui" and p: "list_all printable p" "plain_item (''placeholder'' @ p)"
    and missing: "names d (components path) = None" "\<not> is_dir d (components path)"
    and disk: "disk_ok d (tmp_of (components path)) (components path)" "writable d (components path)"
    and name: "file_name (components path) \<noteq> None"
    and w: "world_faults w = (\<lambda>_. NoFault)"
    and acc: "accepted (world_os w) y (otelcol_binary_path (world_os w) d) (walkthrough_doc p)"
    and print: "yaml_print y (doc_to_value (walkthrough_doc p)) = Inr contents"
  shows "\<exists>app' d'. editor_run ui y None (press w (walkthrough_keys p)) path d = Inr (Inr app', d') \<and>
    doc app' = walkthrough_doc p \<and> \<not> dirty app' \<and> should_quit app' \<and>
    read_disk d' (components path) = Some contents"
proof -
  let ?app = "app_new path doc_new"
  have "ready ?app" "screen ?app = TopLevel Receivers 0" "doc ?app = doc_new" "config_path ?app = path"
    by (simp_all add: ready_def app_new_def screen_default_def)
  from walkthrough_edits_lead [OF laws p this(1-3), of y w d] this(4) obtain app1 where
    edits: "leads ui y w d (walkthrough_edits p) ?app app1" and ready: "ready app1"
    and app1: "screen app1 = TopLevel Pipelines 0" "doc app1 = walkthrough_doc p" "config_path app1 = path"
    by metis
  from save_completes [OF acc print disk name] obtain d' where
    save: "save_doc (world_os w) y (\<lambda>_. NoFault) path (walkthrough_doc p) d = (Some (Inr ()), d')"
    and written: "read_disk d' (components path) = Some contents" by blast
  define app2 where "app2 = after_save (Inr ()) app1"
  have app2: "ready app2" "screen app2 = TopLevel Pipelines 0" "doc app2 = walkthrough_doc p" "\<not> dirty app2"
    using ready app1 by (simp_all add: app2_def after_save_def ready_def)
  have "on_key ui y w (key (KChar ''s'')) (app1, d) = (Inr app2, d')"
    using ready app1 save w
    by (simp add: on_key_def ready_def handle_key_def handle_top_level_def save_key_def app2_def after_save_def)
  moreover have "on_key ui y w (key (KChar ''q'')) (app2, d') = (Inr (app2\<lparr>should_quit := True\<rparr>), d')"
    using app2 by (simp add: on_key_def ready_def handle_key_def handle_top_level_def top_level_key_def)
  ultimately have "run_keys ui y (press w [KChar ''s'', KChar ''q'']) (app1, d) =
      (Inr (app2\<lparr>should_quit := True\<rparr>), d')"
    using ready app2(1) by (simp add: press_def ready_def)
  then have "run_keys ui y (press w (walkthrough_keys p)) (?app, d) = (Inr (app2\<lparr>should_quit := True\<rparr>), d')"
    using run_keys_append [of ui y "press w (walkthrough_edits p)"] edits
    by (simp add: leads_def walkthrough_keys_def press_def)
  moreover have "load_doc y None path d = Inr doc_new" using load_missing [OF missing] .
  ultimately have "editor_run ui y None (press w (walkthrough_keys p)) path d = Inr (Inr (app2\<lparr>should_quit := True\<rparr>), d')"
    by (simp add: editor_run_def)
  with app2 written show ?thesis by auto
qed

section \<open>Keys that are let go\<close>

text \<open>
  Windows terminals report a key twice, when it goes down and when it is let go. The handlers
  match on its code alone, so away from text fields the second event does what the first did.
\<close>

fun takes_text :: "'i screen \<Rightarrow> bool" where
  "takes_text (NameNewComponent _ _ _) = True"
| "takes_text (NameNewPipeline _) = True"
| "takes_text (EditComponent _ _ _) = True"
| "takes_text (EditPipeline _ _) = True"
| "takes_text (OperatorEdit _ _ _ _ _) = True"
| "takes_text (NameTemplateReceiver _ _) = True"
| "takes_text (EditTemplateParams _ _ _) = True"
| "takes_text _ = False"

lemma on_key_code:
  assumes "\<not> takes_text (screen app)" and "code k = code k'"
  shows "on_key ui y w k (app, d) = on_key ui y w k' (app, d)"
  using assms
  by (cases "screen app")
    (simp_all add: on_key_def handle_key_def handle_top_level_def top_level_key_def handle_pick_type_def
      handle_confirm_remove_def handle_operator_list_def handle_operator_pick_type_def
      handle_template_browse_def handle_template_review_def)

definition let_go :: "key_event \<Rightarrow> key_event" where
  "let_go k = k\<lparr>kind := Release\<rparr>"

lemma code_let_go [simp]: "code (let_go k) = code k"
  by (simp add: let_go_def)

lemma ids_removed:
  assumes "doc_ok dc" and "ids_for_tab dc Pipelines = a # ids"
  shows "ids_for_tab (dc\<lparr>pipelines := map_remove (pipelines dc) a\<rparr>) Pipelines = ids"
proof -
  have ok: "map_ok (pipelines dc)" using assms(1) by (simp add: doc_ok_def)
  have ids: "sort (map_keys (pipelines dc)) = a # ids" using assms(2) by (simp add: ids_for_tab_def)
  have dist: "distinct (a # ids)" "sorted (a # ids)"
    using jm.keys_distinct [OF ok] ids by (metis distinct_sort, metis sorted_sort)
  have "set (map_keys (pipelines dc)) = set (a # ids)" by (metis ids set_sort)
  then have "set (sort (map_keys (map_remove (pipelines dc) a))) = set ids"
    using jm.sorted_keys_del [OF ok, of a] dist(1) by auto
  then have "sort (map_keys (map_remove (pipelines dc) a)) = ids"
    using jm.keys_distinct [OF jm.ok_del [OF ok]] dist by (intro sorted_distinct_set_unique) simp_all
  then show ?thesis by (simp add: ids_for_tab_def)
qed

lemma delete_first_pipeline:
  assumes "ready app" and "screen app = TopLevel Pipelines 0" and "ids_for_tab (doc app) Pipelines = a # ids"
    and "code k = KDelete"
  shows "on_key ui y w k (app, d) =
    (Inr (change_doc (\<lambda>dc. dc\<lparr>pipelines := map_remove (pipelines dc) a\<rparr>) (''removed '' @ a) app), d)"
  using assms
  by (simp add: on_key_def ready_def handle_key_def handle_top_level_def top_level_key_def
      delete_selected_def change_doc_def)

lemma let_go_deletes_again:
  assumes ok: "app_ok app" and app: "ready app" "screen app = TopLevel Pipelines 0"
    and ids: "ids_for_tab (doc app) Pipelines = a # b # ids"
  shows "\<exists>app'. run_keys ui y [(w, key KDelete), (w, let_go (key KDelete))] (app, d) = (Inr app', d) \<and>
    dirty app' \<and> ids_for_tab (doc app') Pipelines = ids"
proof -
  let ?remove = "\<lambda>a. change_doc (\<lambda>dc. dc\<lparr>pipelines := map_remove (pipelines dc) a\<rparr>) (''removed '' @ a)"
  have doc_ok: "doc_ok (doc app)" using ok by (simp add: app_ok_def)
  have one: "on_key ui y w (key KDelete) (app, d) = (Inr (?remove a app), d)"
    by (rule delete_first_pipeline [OF app ids]) simp
  have ids1: "ids_for_tab (doc (?remove a app)) Pipelines = b # ids"
    using ids_removed [OF doc_ok ids] by (simp add: change_doc_def)
  have "app_ok (?remove a app)" using on_key_ok [OF ok one] by simp
  then have "doc_ok (doc (?remove a app))" by (simp add: app_ok_def)
  from ids_removed [OF this ids1] have ids2: "ids_for_tab (doc (?remove b (?remove a app))) Pipelines = ids"
    by (simp add: change_doc_def)
  have "on_key ui y w (let_go (key KDelete)) (?remove a app, d) = (Inr (?remove b (?remove a app)), d)"
    using app by (intro delete_first_pipeline [OF _ _ ids1]) (simp_all add: change_doc_def ready_def)
  with one ids2 app(1) show ?thesis by (auto simp: ready_def change_doc_def)
qed

end
