(* ===== verification/Editor_View.thy ===== *)
theory Editor_View
imports Editor_Safety
begin

text \<open>
  What \<open>editor/ui.rs\<close> draws: for each screen the widgets in the order they are rendered, with
  their texts and the emphasis of each span. Rectangles, colours and wrapping are the
  terminal library's. The view is where a user sees which entry a key will act on, so the
  lemmas tie the highlighted entry to the one the handlers open or remove.
\<close>

section \<open>Widgets\<close>

datatype emphasis = Plain | Reversed | Bold | Italic | Note

type_synonym span = "string \<times> emphasis"

datatype widget =
    Bordered string
  | Spans "span list"
  | Items "span list"
  | Para string emphasis
  | Lines "span list list"

text \<open>\<open>format!("{}", n)\<close> of an index, and \<open>format!("{:<32}", key)\<close>.\<close>

definition digit :: "nat \<Rightarrow> char" where
  "digit n = char_of (48 + n)"

fun show_nat :: "nat \<Rightarrow> string" where
  "show_nat n = (if n < 10 then [digit n] else show_nat (n div 10) @ [digit (n mod 10)])"

declare show_nat.simps [simp del]

definition pad_right :: "nat \<Rightarrow> string \<Rightarrow> string" where
  "pad_right n s = s @ replicate (n - length s) (CHR '' '')"

text \<open>The entry with index \<open>selected\<close> is drawn reversed.\<close>

definition mark_selected :: "nat \<Rightarrow> string list \<Rightarrow> span list" where
  "mark_selected selected labels =
     map (\<lambda>(i, n). (n, if i = selected then Reversed else Plain)) (enumerate 0 labels)"

section \<open>The screens\<close>

definition PIPELINE_DESCRIPTION :: string where
  "PIPELINE_DESCRIPTION = ''A pipeline wires everything together: events come in from the listed receivers and get sent out to the listed exporters. Per-receiver parsing is configured on each receiver itself (its operators field), not here.''"

definition describe_type :: "component_category \<Rightarrow> string \<Rightarrow> string" where
  "describe_type category ty =
     (case type_spec category ty of Some s \<Rightarrow> ct_description s | None \<Rightarrow> [])"

definition describe_operator_type :: "string \<Rightarrow> string" where
  "describe_operator_type ty =
     (case operator_type ty of Some s \<Rightarrow> ct_description s | None \<Rightarrow> [])"

fun ids_for_display :: "editor_doc \<Rightarrow> top_tab \<Rightarrow> string list" where
  "ids_for_display dc Receivers = sort (map_keys (receivers dc))"
| "ids_for_display dc Exporters = sort (map_keys (exporters dc))"
| "ids_for_display dc Extensions = sort (map_keys (extensions dc))"
| "ids_for_display dc Pipelines = sort (map_keys (pipelines dc))"

definition none_item :: string where
  "none_item = ''(none -- press '' @ [CHR 0x27] @ ''a'' @ [CHR 0x27] @ '' to add one)''"

definition draw_top_level :: "'i app \<Rightarrow> top_tab \<Rightarrow> nat \<Rightarrow> widget list" where
  "draw_top_level app tab selected =
     (let ids = ids_for_display (doc app) tab in
      [Bordered ''sgcia config editor'',
       Spans (map (\<lambda>t. ('' '' @ tab_label t @ '' '', if t = tab then Reversed else Plain))
         [Receivers, Exporters, Extensions, Pipelines]),
       Bordered (if tab = Receivers
         then ''a: add  T: from template  Enter: edit  d: remove  s: save  Tab: switch  ?: help  q: quit''
         else ''a: add  Enter: edit  d: remove  s: save  Tab: switch  ?: help  q: quit''),
       Items (if ids = [] then [(none_item, Plain)] else mark_selected selected ids)])"

definition draw_type_list :: "string \<Rightarrow> component_type_spec list \<Rightarrow> nat \<Rightarrow> widget list" where
  "draw_type_list ttl types selected =
     [Bordered ttl,
      Items (mark_selected selected (map ct_name types)),
      Para (case nth_opt types selected of Some s \<Rightarrow> ct_description s | None \<Rightarrow> []) Note]"

definition draw_pick_type :: "component_category \<Rightarrow> nat \<Rightarrow> widget list" where
  "draw_pick_type category selected =
     draw_type_list ''pick a type (Up/Down to move, Enter to confirm, ? for help, Esc to cancel)''
       (types_for category) selected"

definition draw_operator_pick_type :: "nat \<Rightarrow> widget list" where
  "draw_operator_pick_type selected =
     draw_type_list ''pick an operator type (Up/Down to move, Enter to confirm, ? for help, Esc to cancel)''
       operator_types selected"

text \<open>The loop with \<open>last_category\<close>: a heading is pushed when the category changes.\<close>

definition template_line :: "source_template \<Rightarrow> string" where
  "template_line t = ''  '' @ ttitle t @ '' ['' @ treceiver_type t @ '']''"

fun template_items ::
  "nat \<Rightarrow> nat \<Rightarrow> template_category option \<Rightarrow> source_template list \<Rightarrow> span list" where
  "template_items selected i last_category [] = []"
| "template_items selected i last_category (t # ts) =
     (if last_category \<noteq> Some (tcategory t) then [(category_label (tcategory t), Bold)] else []) @
     (template_line t, if i = selected then Reversed else Plain) #
     template_items selected (Suc i) (Some (tcategory t)) ts"

definition draw_template_browse :: "nat \<Rightarrow> widget list" where
  "draw_template_browse selected =
     [Bordered ''pick a source template (Up/Down to move, Enter to confirm, ? for help, Esc to cancel)'',
      Items (template_items selected 0 None SOURCE_TEMPLATES),
      Para (case nth_opt SOURCE_TEMPLATES selected of Some t \<Rightarrow> tdescription t | None \<Rightarrow> []) Note]"

definition draw_template_review :: "yaml \<Rightarrow> string \<Rightarrow> json \<Rightarrow> widget list" where
  "draw_template_review y cid receiver =
     [Bordered (''review '' @ cid @ '' -- Enter: confirm and insert  Esc: back to params''),
      Para (case yaml_print y receiver of Inr s \<Rightarrow> s | Inl _ \<Rightarrow> []) Plain]"

definition draw_name_prompt :: "string \<Rightarrow> string \<Rightarrow> string \<Rightarrow> widget list" where
  "draw_name_prompt ttl v descr = [Bordered ttl, Para v Plain, Para descr Note]"

text \<open>The text of a field; \<open>options[*selected]\<close> panics out of range.\<close>

fun field_text :: "'i ui \<Rightarrow> 'i field_edit_state \<Rightarrow> string option" where
  "field_text ui (TextState input) = Some (input_value ui input)"
| "field_text ui (StringListState input) = Some (input_value ui input)"
| "field_text ui (BoolState checked) = Some (if checked then ''true'' else ''false'')"
| "field_text ui (EnumState options selected) = nth_opt options selected"
| "field_text ui (OperatorListState ops) =
     Some (show_nat (length ops) @ '' operator(s) -- press Enter to manage'')"

definition form_lines :: "'i ui \<Rightarrow> 'i form_state \<Rightarrow> span list list option" where
  "form_lines ui form =
     map_opt (\<lambda>(i, spec, st). map_option (\<lambda>t.
         [(pad_right 32 (fkey spec), if i = focused form then Bold else Plain), (t, Plain)])
       (field_text ui st))
       (enumerate 0 (zip (fields_spec form) (fstates form)))"

definition draw_form :: "'i ui \<Rightarrow> string \<Rightarrow> string \<Rightarrow> 'i form_state \<Rightarrow> widget list option" where
  "draw_form ui ttl descr form =
     Option.bind (form_lines ui form) (\<lambda>ls.
     Some ([Bordered (ttl @ '' -- Tab: next field  Left/Right: cycle choice  Enter: save (or manage operators)  Esc: cancel'')] @
       (if descr = [] then [] else [Para descr Italic]) @
       map Spans ls @
       [Para (case nth_opt (fields_spec form) (focused form) of Some s \<Rightarrow> fhelp s | None \<Rightarrow> []) Note]))"

definition draw_help :: "widget list" where
  "draw_help =
     (let heading = (\<lambda>t. [(t, Bold)]);
          row = (\<lambda>k action. [(pad_right 24 k, Note), (action, Plain)])
      in [Bordered ''Keybinding reference'',
       Lines
       [heading ''Browsing (Receivers / Exporters / Extensions / Pipelines)'',
        row ''Tab/Shift+Tab, Up/Down'' ''switch tabs, move selection'',
        row ''Enter, a, d/Delete'' ''edit / add / remove the selected item'',
        row ''s, ?, q/Esc'' ''save to disk, help, quit'',
        row ''T (Receivers tab only)'' ''browse curated source templates -- name, fill params, review, insert'',
        heading ''Editing a component's fields / a pipeline's operators list'',
        row ''Tab/Shift+Tab, Left/Right'' ''next/prev field, cycle enum/bool'',
        row ''Enter, Esc'' ''save (or manage operators list) / discard'',
        row ''(operators list) a, Enter, d, Esc'' ''add / edit / remove / back'',
        heading ''Editing text -- standard tui-input readline bindings'',
        row ''Left/Right, Ctrl+B/F'' ''move one character'',
        row ''Ctrl+Left/Right, Alt+B/F'' ''move one word'',
        row ''Home/Ctrl+A, End/Ctrl+E'' ''start / end of field'',
        row ''Backspace/Ctrl+H, Delete'' ''delete char before / under cursor'',
        row ''Ctrl+W/Alt+D, Ctrl+Delete'' ''delete word before / after cursor'',
        row ''Ctrl+K'' ''delete to end of field'',
        row ''Ctrl+U'' ''clear the entire field'',
        row ''Ctrl+Y'' ''paste back the last deleted text'',
        [('''', Plain)],
        [(''Press any key to close this screen.'', Italic)]]])"

definition operator_label :: "nat \<times> json \<Rightarrow> string" where
  "operator_label p =
     show_nat (fst p) @ '': '' @
     (case Option.bind (json_get (snd p) ''type'') as_str of Some s \<Rightarrow> s | None \<Rightarrow> ''?'')"

definition draw_operator_list :: "string \<Rightarrow> 'i form_state \<Rightarrow> nat \<Rightarrow> widget list" where
  "draw_operator_list cid form selected =
     (let ops = operators form in
      [Bordered (''operators on '' @ cid @ '' -- a: add  Enter: edit  d: remove  ?: help  Esc: back''),
       Items (if ops = [] then [(none_item, Plain)]
         else mark_selected selected (map operator_label (enumerate 0 ops)))])"

definition draw_confirm_remove :: "string \<Rightarrow> string list \<Rightarrow> widget list" where
  "draw_confirm_remove cid blocking =
     [Bordered ''confirm removal'',
      Para ([CHR 0x27] @ cid @ [CHR 0x27] @ '' is still used by pipeline(s): '' @ join '', '' blocking @
        [CHR 0x0A, CHR 0x0A] @ ''Press '' @ [CHR 0x27] @ ''y'' @ [CHR 0x27] @
        '' to remove it anyway (and strip it from those pipelines), any other key to cancel.'') Plain]"

definition status_text :: "'i app \<Rightarrow> string" where
  "status_text app =
     (let dirty_marker = (if dirty app then '' [unsaved changes]'' else []) in
      case status_message app of
        Some msg \<Rightarrow> msg @ dirty_marker
      | None \<Rightarrow> config_path app @ dirty_marker)"

definition draw_screen :: "'i ui \<Rightarrow> yaml \<Rightarrow> 'i app \<Rightarrow> widget list option" where
  "draw_screen ui y app =
     (case screen app of
        TopLevel tab selected \<Rightarrow> Some (draw_top_level app tab selected)
      | PickType category selected \<Rightarrow> Some (draw_pick_type category selected)
      | NameNewComponent category ty input \<Rightarrow>
          Some (draw_name_prompt (''new '' @ ty @ '' id'') (input_value ui input) (describe_type category ty))
      | NameNewPipeline input \<Rightarrow>
          Some (draw_name_prompt ''new pipeline id'' (input_value ui input) PIPELINE_DESCRIPTION)
      | EditComponent category cid form \<Rightarrow>
          draw_form ui (''editing '' @ cid)
            (case type_name form of Some t \<Rightarrow> describe_type category t | None \<Rightarrow> []) form
      | EditPipeline cid form \<Rightarrow>
          draw_form ui (''editing pipeline '' @ cid) PIPELINE_DESCRIPTION form
      | ConfirmRemove category cid blocking \<Rightarrow> Some (draw_confirm_remove cid blocking)
      | OperatorListScreen category cid form selected \<Rightarrow> Some (draw_operator_list cid form selected)
      | OperatorPickType category cid form selected \<Rightarrow> Some (draw_operator_pick_type selected)
      | OperatorEdit category cid form index op_form \<Rightarrow>
          draw_form ui (''editing operator on '' @ cid)
            (case type_name op_form of Some t \<Rightarrow> describe_operator_type t | None \<Rightarrow> []) op_form
      | TemplateBrowse selected \<Rightarrow> Some (draw_template_browse selected)
      | NameTemplateReceiver tk input \<Rightarrow>
          Some (draw_name_prompt ''new receiver id'' (input_value ui input)
            (case template_find tk of Some t \<Rightarrow> tdescription t | None \<Rightarrow> []))
      | EditTemplateParams tk cid form \<Rightarrow>
          draw_form ui
            ((case template_find tk of Some t \<Rightarrow> ttitle t | None \<Rightarrow> tk) @ '' -- '' @ cid)
            (case template_find tk of Some t \<Rightarrow> tdescription t | None \<Rightarrow> []) form
      | ReviewTemplateReceiver tk cid params receiver \<Rightarrow>
          Some (draw_template_review y cid receiver))"

definition draw :: "'i ui \<Rightarrow> yaml \<Rightarrow> 'i app \<Rightarrow> widget list option" where
  "draw ui y app =
     Option.bind (if show_help app then Some draw_help else draw_screen ui y app) (\<lambda>ws.
     Some (ws @ [Para (status_text app) Plain]))"

section \<open>Lemmas\<close>

lemma ids_agree: "ids_for_display dc tab = ids_for_tab dc tab"
  by (cases tab) (simp_all add: ids_for_tab_def)

text \<open>Exactly the selected entry is reversed.\<close>

lemma mark_selected_nth:
  "i < length labels \<Longrightarrow>
   mark_selected selected labels ! i = (labels ! i, if i = selected then Reversed else Plain)"
  by (simp add: mark_selected_def nth_enumerate_eq)

lemma mark_selected_filter:
  assumes "selected < length labels"
  shows "filter (\<lambda>s. snd s = Reversed) (mark_selected selected labels) = [(labels ! selected, Reversed)]"
proof -
  have shifted: "filter (\<lambda>s. snd s = Reversed)
      (map (\<lambda>(i, n). (n, if i = selected then Reversed else Plain)) (enumerate k labels)) =
      (if k \<le> selected \<and> selected < k + length labels then [(labels ! (selected - k), Reversed)] else [])"
    for k
  proof (induction labels arbitrary: k)
    case Nil
    then show ?case by simp
  next
    case (Cons n labels)
    show ?case
      using Cons [of "Suc k"] by (auto simp: nth_Cons' split: if_splits)
  qed
  from shifted [of 0] assms show ?thesis by (simp add: mark_selected_def)
qed

text \<open>In the template list headings come and go, but the highlight is on the selected template.\<close>

lemma template_items_selected:
  "filter (\<lambda>s. snd s = Reversed) (template_items selected i last_category ts) =
     (if i \<le> selected \<and> selected < i + length ts
      then [(template_line (ts ! (selected - i)), Reversed)] else [])"
proof (induction ts arbitrary: i last_category)
  case Nil
  then show ?case by simp
next
  case (Cons t ts)
  show ?case
    using Cons [of "Suc i" "Some (tcategory t)"] by (auto simp: nth_Cons' split: if_splits)
qed

fun headings :: "template_category option \<Rightarrow> source_template list \<Rightarrow> string list" where
  "headings last_category [] = []"
| "headings last_category (t # ts) =
     (if last_category \<noteq> Some (tcategory t) then [category_label (tcategory t)] else []) @
     headings (Some (tcategory t)) ts"

lemma template_items_headings:
  "map fst (filter (\<lambda>s. snd s = Bold) (template_items selected i last_category ts)) =
     headings last_category ts"
  by (induction ts arbitrary: i last_category) auto

lemma headings_once:
  "headings None SOURCE_TEMPLATES =
     map category_label [NetworkSecurity, Generic, Windows, Database, Messaging]"
  by code_simp

lemma field_text_ok [panic_free]: "state_ok kd st \<Longrightarrow> \<exists>t. field_text ui st = Some t"
  by (cases kd; cases st) auto

lemma form_lines_ok [panic_free]:
  assumes "form_ok form"
  shows "\<exists>ls. form_lines ui form = Some ls"
  unfolding form_lines_def
proof (rule map_opt_total)
  fix p assume "p \<in> set (enumerate 0 (zip (fields_spec form) (fstates form)))"
  then have "snd p \<in> set (map snd (enumerate 0 (zip (fields_spec form) (fstates form))))"
    unfolding set_map by (rule imageI)
  then have mem: "snd p \<in> set (zip (fields_spec form) (fstates form))"
    by (simp only: map_snd_enumerate)
  obtain i spec st where p: "p = (i, spec, st)" by (cases p)
  with assms mem have "state_ok (fkind spec) st" by (auto simp: form_ok_def list_all2_iff)
  from field_text_ok [OF this, of ui] p show "\<exists>y. (case p of (i, spec, st) \<Rightarrow>
      map_option (\<lambda>t. [(pad_right 32 (fkey spec), if i = focused form then Bold else Plain), (t, Plain)])
        (field_text ui st)) = Some y"
    by auto
qed

lemma draw_ok:
  assumes "app_ok app"
  shows "\<exists>ws. draw ui y app = Some ws"
proof -
  have form: "\<exists>ws. draw_form ui ttl descr form = Some ws" if "form_ok form" for ttl descr form
    using form_lines_ok [OF that, of ui] by (auto simp: draw_form_def)
  have "\<exists>ws. draw_screen ui y app = Some ws"
    using assms
    by (cases "screen app")
      (simp_all add: app_ok_def draw_screen_def form component_form_def pipeline_form_def
        operator_form_def template_form_def)
  then show ?thesis by (auto simp: draw_def)
qed

text \<open>The id a screen is about.\<close>

fun screen_id :: "'i screen \<Rightarrow> string option" where
  "screen_id (EditComponent _ cid _) = Some cid"
| "screen_id (EditPipeline cid _) = Some cid"
| "screen_id (ConfirmRemove _ cid _) = Some cid"
| "screen_id _ = None"

lemma open_selected_id:
  assumes ok: "app_ok app" and scr: "screen app = TopLevel tab selected"
    and sel: "nth_opt (ids_for_tab (doc app) tab) selected = Some cid"
  shows "\<exists>scr'. open_selected ui app tab selected = Some (app, scr') \<and> screen_id scr' = Some cid"
proof -
  have "handled_ok (open_selected ui app tab selected)"
    using ok scr by (intro open_selected_ok) (simp_all add: app_ok_def)
  then obtain app' scr' where res: "open_selected ui app tab selected = Some (app', scr')"
    by (auto simp: handled_ok_def split: option.splits)
  have first: "nth_opt (types_for category) 0 \<noteq> None" for category
    by simp
  have "app' = app \<and> screen_id scr' = Some cid"
    using res sel first
    by (auto simp: open_selected_def bind_eq_Some_conv split: option.splits)
  with res show ?thesis by blast
qed

lemma highlighted_entry:
  assumes ok: "app_ok app" and scr: "screen app = TopLevel tab selected"
    and some: "ids_for_tab (doc app) tab \<noteq> []"
  shows "\<exists>a b c items cid. draw_screen ui y app = Some [a, b, c, Items items] \<and>
    filter (\<lambda>s. snd s = Reversed) items = [(cid, Reversed)] \<and>
    nth_opt (ids_for_tab (doc app) tab) selected = Some cid"
proof -
  have less: "selected < length (ids_for_tab (doc app) tab)"
    using ok scr some by (cases "ids_for_tab (doc app) tab") (auto simp: app_ok_def)
  show ?thesis
    using mark_selected_filter [OF less] less some
    by (simp add: scr draw_screen_def draw_top_level_def Let_def ids_agree)
qed

text \<open>The list widget is given no scroll position, so a screen with h rows inside the frame shows
  the first h rows. The highlighted template's row is its index plus the headings up to it.\<close>

definition row_of_highlight :: "span list \<Rightarrow> nat" where
  "row_of_highlight items = length (takeWhile (\<lambda>s. snd s \<noteq> Reversed) items)"

lemma row_of_highlight_template:
  "i \<le> selected \<Longrightarrow> selected < i + length ts \<Longrightarrow>
   row_of_highlight (template_items selected i last_category ts) =
     (selected - i) + length (headings last_category (take (Suc (selected - i)) ts))"
proof (induction ts arbitrary: i last_category)
  case Nil
  then show ?case by simp
next
  case (Cons t ts)
  show ?case
  proof (cases "i = selected")
    case True
    then show ?thesis by (simp add: row_of_highlight_def)
  next
    case False
    then have less: "Suc i \<le> selected" "selected < Suc i + length ts"
      using Cons.prems by simp_all
    then have "selected - i = Suc (selected - Suc i)" by simp
    then show ?thesis
      using Cons.IH [OF less, of "Some (tcategory t)"] less(1) False
      by (cases "last_category = Some (tcategory t)") (simp_all add: row_of_highlight_def)
  qed
qed

lemma not_shown:
  "h \<le> row_of_highlight items \<Longrightarrow> filter (\<lambda>s. snd s = Reversed) (take h items) = []"
  unfolding row_of_highlight_def
  by (induction items arbitrary: h) (auto simp: take_Cons' split: if_splits)

lemma last_template_row:
  "row_of_highlight (template_items 17 0 None SOURCE_TEMPLATES) = 22"
  by code_simp

text \<open>A terminal of 24 rows leaves 19 inside the frame (the status bar takes three, the border
  two): the lower templates cannot be seen there while they are highlighted.\<close>

lemma last_template_not_visible:
  "draw_template_browse 17 =
     [b, Items items, d] \<Longrightarrow>
   filter (\<lambda>s. snd s = Reversed) (take 19 items) = []"
  using not_shown [of 19 "template_items 17 0 None SOURCE_TEMPLATES"]
  by (auto simp: draw_template_browse_def last_template_row)

end
