(* ===== verification/Metrics.thy ===== *)
theory Metrics
imports Prelude "HOL-Library.Word" "HOL-Library.Multiset"
begin

text \<open>
  The shared counters of \<open>sg-core/src/metrics.rs\<close>. An \<open>Arc\<close> is an address into a heap of
  cells, so that two lookups of a name share a cell as they do in the source; a counter is a
  \<open>u64\<close>, whose \<open>fetch_add\<close> wraps around. What a task does is a list of atomic steps, and
  tasks interleave arbitrarily: a run of several tasks is any list made of all their steps.
  Instants and their difference in seconds are the \<open>chrono\<close> crate's: a type and a function
  the snapshot takes as an argument.
\<close>

section \<open>Cells\<close>

record 't last_error =
  message :: string
  at :: 't

record receiver_metrics =
  r_events_in :: "64 word"

record pipeline_metrics =
  p_events_in :: "64 word"
  p_events_out :: "64 word"
  p_events_dropped :: "64 word"
  p_events_dead_lettered :: "64 word"
  p_parse_errors :: "64 word"

record 't exporter_metrics =
  e_events_in :: "64 word"
  e_batches_sent :: "64 word"
  e_batches_failed :: "64 word"
  e_retries :: "64 word"
  e_last_error :: "'t last_error option"

text \<open>A snapshot of a cell has the cell's fields.\<close>

type_synonym receiver_snapshot = receiver_metrics
type_synonym pipeline_snapshot = pipeline_metrics
type_synonym 't exporter_snapshot = "'t exporter_metrics"

definition receiver_default :: receiver_metrics where
  "receiver_default = \<lparr>r_events_in = 0\<rparr>"

definition pipeline_default :: pipeline_metrics where
  "pipeline_default = \<lparr>p_events_in = 0, p_events_out = 0, p_events_dropped = 0,
     p_events_dead_lettered = 0, p_parse_errors = 0\<rparr>"

definition exporter_default :: "'t exporter_metrics" where
  "exporter_default = \<lparr>e_events_in = 0, e_batches_sent = 0, e_batches_failed = 0,
     e_retries = 0, e_last_error = None\<rparr>"

record 't heap =
  r_cells :: "nat \<Rightarrow> receiver_metrics"
  p_cells :: "nat \<Rightarrow> pipeline_metrics"
  e_cells :: "nat \<Rightarrow> 't exporter_metrics"
  next_cell :: nat

definition heap_new :: "'t heap" where
  "heap_new = \<lparr>r_cells = (\<lambda>_. receiver_default), p_cells = (\<lambda>_. pipeline_default),
     e_cells = (\<lambda>_. exporter_default), next_cell = 0\<rparr>"

section \<open>Atomic steps\<close>

text \<open>
  \<open>Counter::add\<close> on one counter, and the assignment under the mutex. \<open>Counter::inc\<close> is
  \<open>add(1)\<close>.
\<close>

datatype counter =
    REventsIn
  | PEventsIn | PEventsOut | PEventsDropped | PDeadLettered | PParseErrors
  | EEventsIn | EBatchesSent | EBatchesFailed | ERetries

datatype 't atomic =
    Add counter nat "64 word"
  | SetError nat "'t last_error"

fun get_counter :: "counter \<Rightarrow> nat \<Rightarrow> 't heap \<Rightarrow> 64 word" where
  "get_counter REventsIn a h = r_events_in (r_cells h a)"
| "get_counter PEventsIn a h = p_events_in (p_cells h a)"
| "get_counter PEventsOut a h = p_events_out (p_cells h a)"
| "get_counter PEventsDropped a h = p_events_dropped (p_cells h a)"
| "get_counter PDeadLettered a h = p_events_dead_lettered (p_cells h a)"
| "get_counter PParseErrors a h = p_parse_errors (p_cells h a)"
| "get_counter EEventsIn a h = e_events_in (e_cells h a)"
| "get_counter EBatchesSent a h = e_batches_sent (e_cells h a)"
| "get_counter EBatchesFailed a h = e_batches_failed (e_cells h a)"
| "get_counter ERetries a h = e_retries (e_cells h a)"

definition upd_r :: "nat \<Rightarrow> (receiver_metrics \<Rightarrow> receiver_metrics) \<Rightarrow> 't heap \<Rightarrow> 't heap" where
  "upd_r a f h = h\<lparr>r_cells := (r_cells h)(a := f (r_cells h a))\<rparr>"

definition upd_p :: "nat \<Rightarrow> (pipeline_metrics \<Rightarrow> pipeline_metrics) \<Rightarrow> 't heap \<Rightarrow> 't heap" where
  "upd_p a f h = h\<lparr>p_cells := (p_cells h)(a := f (p_cells h a))\<rparr>"

definition upd_e :: "nat \<Rightarrow> ('t exporter_metrics \<Rightarrow> 't exporter_metrics) \<Rightarrow> 't heap \<Rightarrow> 't heap" where
  "upd_e a f h = h\<lparr>e_cells := (e_cells h)(a := f (e_cells h a))\<rparr>"

fun counter_add :: "counter \<Rightarrow> nat \<Rightarrow> 64 word \<Rightarrow> 't heap \<Rightarrow> 't heap" where
  "counter_add REventsIn a n = upd_r a (\<lambda>c. c\<lparr>r_events_in := r_events_in c + n\<rparr>)"
| "counter_add PEventsIn a n = upd_p a (\<lambda>c. c\<lparr>p_events_in := p_events_in c + n\<rparr>)"
| "counter_add PEventsOut a n = upd_p a (\<lambda>c. c\<lparr>p_events_out := p_events_out c + n\<rparr>)"
| "counter_add PEventsDropped a n = upd_p a (\<lambda>c. c\<lparr>p_events_dropped := p_events_dropped c + n\<rparr>)"
| "counter_add PDeadLettered a n =
     upd_p a (\<lambda>c. c\<lparr>p_events_dead_lettered := p_events_dead_lettered c + n\<rparr>)"
| "counter_add PParseErrors a n = upd_p a (\<lambda>c. c\<lparr>p_parse_errors := p_parse_errors c + n\<rparr>)"
| "counter_add EEventsIn a n = upd_e a (\<lambda>c. c\<lparr>e_events_in := e_events_in c + n\<rparr>)"
| "counter_add EBatchesSent a n = upd_e a (\<lambda>c. c\<lparr>e_batches_sent := e_batches_sent c + n\<rparr>)"
| "counter_add EBatchesFailed a n = upd_e a (\<lambda>c. c\<lparr>e_batches_failed := e_batches_failed c + n\<rparr>)"
| "counter_add ERetries a n = upd_e a (\<lambda>c. c\<lparr>e_retries := e_retries c + n\<rparr>)"

fun exec_atomic :: "'t atomic \<Rightarrow> 't heap \<Rightarrow> 't heap" where
  "exec_atomic (Add c a n) h = counter_add c a n h"
| "exec_atomic (SetError a e) h = upd_e a (\<lambda>c. c\<lparr>e_last_error := Some e\<rparr>) h"

definition exec_all :: "'t atomic list \<Rightarrow> 't heap \<Rightarrow> 't heap" where
  "exec_all steps h = fold exec_atomic steps h"

text \<open>The operations of \<open>Counter\<close> and \<open>ExporterMetrics\<close> as the steps they are made of.\<close>

definition counter_inc :: "counter \<Rightarrow> nat \<Rightarrow> 't atomic list" where
  "counter_inc c a = [Add c a 1]"

definition record_retry :: "nat \<Rightarrow> 't atomic list" where
  "record_retry a = counter_inc ERetries a"

definition record_success :: "nat \<Rightarrow> 64 word \<Rightarrow> 't atomic list" where
  "record_success a batch_len = Add EEventsIn a batch_len # counter_inc EBatchesSent a"

definition record_failure :: "nat \<Rightarrow> 64 word \<Rightarrow> string \<Rightarrow> 't \<Rightarrow> 't atomic list" where
  "record_failure a batch_len msg now =
     Add EEventsIn a batch_len # counter_inc EBatchesFailed a @
     [SetError a \<lparr>message = msg, at = now\<rparr>]"

section \<open>The registry\<close>

record 't metrics =
  m_receivers :: "string \<Rightarrow> nat option"
  m_pipelines :: "string \<Rightarrow> nat option"
  m_exporters :: "string \<Rightarrow> nat option"
  started_at :: 't

text \<open>
  \<open>Arc::new(\<dots>::default())\<close> for each name, collected into a hash map: of two equal names the
  later entry stays. A cell of the heap is used for one kind only.
\<close>

definition alloc :: "'t heap \<Rightarrow> nat \<times> 't heap" where
  "alloc h =
     (let a = next_cell h in
      (a, h\<lparr>r_cells := (r_cells h)(a := receiver_default), p_cells := (p_cells h)(a := pipeline_default),
            e_cells := (e_cells h)(a := exporter_default), next_cell := Suc a\<rparr>))"

fun register :: "string list \<Rightarrow> (string \<Rightarrow> nat option) \<Rightarrow> 't heap \<Rightarrow> (string \<Rightarrow> nat option) \<times> 't heap" where
  "register [] m h = (m, h)"
| "register (n # ns) m h = (let (a, h') = alloc h in register ns (m(n \<mapsto> a)) h')"

definition metrics_new ::
  "string list \<Rightarrow> string list \<Rightarrow> string list \<Rightarrow> 't \<Rightarrow> 't heap \<Rightarrow> 't metrics \<times> 't heap" where
  "metrics_new rs ps es now h =
     (let (mr, h1) = register rs (\<lambda>_. None) h;
          (mp, h2) = register ps (\<lambda>_. None) h1;
          (me, h3) = register es (\<lambda>_. None) h2
      in (\<lparr>m_receivers = mr, m_pipelines = mp, m_exporters = me, started_at = now\<rparr>, h3))"

text \<open>\<open>get(name).cloned().unwrap_or_default()\<close>: a shared cell, or a fresh one of its own.\<close>

definition handle_of :: "(string \<Rightarrow> nat option) \<Rightarrow> string \<Rightarrow> 't heap \<Rightarrow> nat \<times> 't heap" where
  "handle_of m name h = (case m name of Some a \<Rightarrow> (a, h) | None \<Rightarrow> alloc h)"

definition receiver_handle :: "'t metrics \<Rightarrow> string \<Rightarrow> 't heap \<Rightarrow> nat \<times> 't heap" where
  "receiver_handle m = handle_of (m_receivers m)"

definition pipeline_handle :: "'t metrics \<Rightarrow> string \<Rightarrow> 't heap \<Rightarrow> nat \<times> 't heap" where
  "pipeline_handle m = handle_of (m_pipelines m)"

definition exporter_handle :: "'t metrics \<Rightarrow> string \<Rightarrow> 't heap \<Rightarrow> nat \<times> 't heap" where
  "exporter_handle m = handle_of (m_exporters m)"

record 't metrics_snapshot =
  s_started_at :: 't
  s_uptime_seconds :: int
  s_receivers :: "string \<Rightarrow> receiver_snapshot option"
  s_pipelines :: "string \<Rightarrow> pipeline_snapshot option"
  s_exporters :: "string \<Rightarrow> 't exporter_snapshot option"

text \<open>A snapshot of a heap no task is changing meanwhile.\<close>

definition snapshot :: "('t \<Rightarrow> 't \<Rightarrow> int) \<Rightarrow> 't \<Rightarrow> 't metrics \<Rightarrow> 't heap \<Rightarrow> 't metrics_snapshot" where
  "snapshot seconds_between now m h =
     \<lparr>s_started_at = started_at m,
      s_uptime_seconds = seconds_between (started_at m) now,
      s_receivers = (\<lambda>n. map_option (r_cells h) (m_receivers m n)),
      s_pipelines = (\<lambda>n. map_option (p_cells h) (m_pipelines m n)),
      s_exporters = (\<lambda>n. map_option (e_cells h) (m_exporters m n))\<rparr>"

section \<open>Lemmas\<close>

subsection \<open>One step\<close>

lemma get_counter_add:
  "get_counter c' b (counter_add c a n h) =
     get_counter c' b h + (if c' = c \<and> b = a then n else 0)"
  by (cases c; cases c') (auto simp: upd_r_def upd_p_def upd_e_def)

lemma get_counter_error [simp]:
  "get_counter c b (upd_e a (e_last_error_update f) h) = get_counter c b h"
  by (cases c) (auto simp: upd_e_def)

lemma last_error_add [simp]: "e_last_error (e_cells (counter_add c a n h) b) = e_last_error (e_cells h b)"
  by (cases c) (auto simp: upd_r_def upd_p_def upd_e_def)

lemma next_cell_add [simp]: "next_cell (counter_add c a n h) = next_cell h"
  by (cases c) (simp_all add: upd_r_def upd_p_def upd_e_def)

lemma next_cell_exec [simp]: "next_cell (exec_atomic s h) = next_cell h"
  by (cases s) (simp_all add: upd_e_def)

subsection \<open>Any interleaving\<close>

text \<open>What a list of steps adds to a counter.\<close>

fun amount :: "counter \<Rightarrow> nat \<Rightarrow> 't atomic \<Rightarrow> 64 word" where
  "amount c a (Add c' a' n) = (if c' = c \<and> a' = a then n else 0)"
| "amount c a (SetError _ _) = 0"

definition total :: "counter \<Rightarrow> nat \<Rightarrow> 't atomic list \<Rightarrow> 64 word" where
  "total c a steps = sum_list (map (amount c a) steps)"

lemma total_simps [simp]:
  "total c a [] = 0" "total c a (s # ss) = amount c a s + total c a ss"
  "total c a (ss @ ts) = total c a ss + total c a ts"
  by (simp_all add: total_def)

lemma exec_all_simps [simp]:
  "exec_all [] h = h" "exec_all (s # ss) h = exec_all ss (exec_atomic s h)"
  "exec_all (ss @ ts) h = exec_all ts (exec_all ss h)"
  by (simp_all add: exec_all_def)

lemma get_counter_exec: "get_counter c a (exec_atomic s h) = get_counter c a h + amount c a s"
  by (cases s) (auto simp: get_counter_add)

lemma exec_all_total: "get_counter c a (exec_all steps h) = get_counter c a h + total c a steps"
  by (induction steps arbitrary: h) (simp_all add: get_counter_exec add.assoc)

lemma total_mset: "mset steps = mset steps' \<Longrightarrow> total c a steps = total c a steps'"
  unfolding total_def by (metis mset_map sum_mset_sum_list)

lemma total_concat: "total c a (concat tasks) = sum_list (map (total c a) tasks)"
  by (induction tasks) simp_all

text \<open>A run of tasks: some order of all their steps that keeps each task's own order.\<close>

inductive interleaving :: "'a list list \<Rightarrow> 'a list \<Rightarrow> bool" where
  finished: "list_all (\<lambda>t. t = []) tasks \<Longrightarrow> interleaving tasks []"
| turn: "i < length tasks \<Longrightarrow> tasks ! i = s # rest \<Longrightarrow> interleaving (tasks[i := rest]) run \<Longrightarrow>
    interleaving tasks (s # run)"

lemma mset_concat_update:
  "i < length tasks \<Longrightarrow> tasks ! i = s # rest \<Longrightarrow>
   mset (concat tasks) = add_mset s (mset (concat (tasks[i := rest])))"
proof (induction tasks arbitrary: i)
  case Nil
  then show ?case by simp
next
  case (Cons t tasks)
  then show ?case by (cases i) auto
qed

lemma interleaving_mset: "interleaving tasks run \<Longrightarrow> mset run = mset (concat tasks)"
proof (induction rule: interleaving.induct)
  case (finished tasks)
  then have "concat tasks = []" by (auto simp: list_all_iff)
  then show ?case by simp
next
  case (turn i tasks s rest run)
  then show ?case by (simp add: mset_concat_update)
qed

lemma interleaving_counter:
  assumes "interleaving tasks run"
  shows "get_counter c a (exec_all run h) = get_counter c a h + sum_list (map (total c a) tasks)"
  using total_mset [OF interleaving_mset [OF assms]] by (simp add: exec_all_total total_concat)

text \<open>Without overflow the counters count: on natural numbers.\<close>

lemma unat_sum_list:
  "sum_list (map unat ws) < 2 ^ 64 \<Longrightarrow> unat (sum_list (ws :: 64 word list)) = sum_list (map unat ws)"
proof (induction ws)
  case Nil
  then show ?case by simp
next
  case (Cons w ws)
  then have "unat (sum_list ws) = sum_list (map unat ws)" by simp
  with Cons.prems show ?case by (simp add: unat_add_lem [THEN iffD1])
qed

text \<open>The last error is the one of the last failing step of the run.\<close>

fun error_of :: "nat \<Rightarrow> 't atomic \<Rightarrow> 't last_error option" where
  "error_of a (SetError b e) = (if b = a then Some e else None)"
| "error_of a (Add _ _ _) = None"

lemma exec_all_error:
  "e_last_error (e_cells (exec_all steps h) a) =
     (case List.map_filter (error_of a) (rev steps) of
        [] \<Rightarrow> e_last_error (e_cells h a)
      | e # _ \<Rightarrow> Some e)"
proof (induction steps rule: rev_induct)
  case Nil
  then show ?case by simp
next
  case (snoc s steps)
  then show ?case by (cases s) (auto simp: upd_e_def)
qed

subsection \<open>Handles\<close>

lemma alloc_fresh:
  "alloc h = (a, h') \<Longrightarrow> a = next_cell h \<and> next_cell h' = Suc a \<and>
   (\<forall>b. b \<noteq> a \<longrightarrow> r_cells h' b = r_cells h b \<and> p_cells h' b = p_cells h b \<and> e_cells h' b = e_cells h b)"
  by (auto simp: alloc_def Let_def)

text \<open>Every registered cell is one the heap has given out.\<close>

definition below :: "(string \<Rightarrow> nat option) \<Rightarrow> 't heap \<Rightarrow> bool" where
  "below m h \<longleftrightarrow> (\<forall>n a. m n = Some a \<longrightarrow> a < next_cell h)"

definition own_cells :: "(string \<Rightarrow> nat option) \<Rightarrow> bool" where
  "own_cells m \<longleftrightarrow> (\<forall>n k a. m n = Some a \<longrightarrow> m k = Some a \<longrightarrow> n = k)"

lemma register_below:
  "below m h \<Longrightarrow> register ns m h = (m', h') \<Longrightarrow>
   below m' h' \<and> next_cell h \<le> next_cell h' \<and> dom m' = dom m \<union> set ns \<and>
   (\<forall>n a. m' n = Some a \<longrightarrow> m n = Some a \<or> next_cell h \<le> a) \<and>
   (own_cells m \<longrightarrow> own_cells m')"
proof (induction ns arbitrary: m h)
  case Nil
  then show ?case by simp
next
  case (Cons n ns)
  obtain a h1 where a: "alloc h = (a, h1)" by force
  note fresh = alloc_fresh [OF a]
  have b1: "below (m(n \<mapsto> a)) h1"
    using Cons.prems(1) fresh by (auto simp: below_def less_Suc_eq)
  have "register ns (m(n \<mapsto> a)) h1 = (m', h')" using Cons.prems(2) a by simp
  note ih = Cons.IH [OF b1 this]
  have "m k \<noteq> Some a" for k
    using Cons.prems(1) fresh by (auto simp: below_def)
  then have own: "own_cells m \<longrightarrow> own_cells (m(n \<mapsto> a))"
    by (auto simp: own_cells_def)
  have ih_dom: "dom m' = dom m \<union> set (n # ns)" using ih by auto
  have ih_own: "own_cells m \<longrightarrow> own_cells m'" using ih own by blast
  have new: "m' k = Some b \<longrightarrow> m k = Some b \<or> next_cell h \<le> b" for k b
    using ih fresh by (auto split: if_splits) (metis Suc_leD le_refl)+
  have "below m' h'" "next_cell h \<le> next_cell h'" using ih fresh by simp_all
  with ih_dom ih_own new show ?case by blast
qed

text \<open>Steps on a cell that is not registered do not show in a snapshot.\<close>

fun step_cell :: "'t atomic \<Rightarrow> nat" where
  "step_cell (Add _ a _) = a"
| "step_cell (SetError a _) = a"

lemma exec_other_cell:
  assumes "step_cell s \<noteq> a"
  shows "r_cells (exec_atomic s h) a = r_cells h a \<and> p_cells (exec_atomic s h) a = p_cells h a \<and>
    e_cells (exec_atomic s h) a = e_cells h a"
proof (cases s)
  case (Add c b n)
  with assms show ?thesis by (cases c) (auto simp: upd_r_def upd_p_def upd_e_def)
next
  case (SetError b e)
  with assms show ?thesis by (auto simp: upd_e_def)
qed

lemma exec_all_other_cell:
  "list_all (\<lambda>s. step_cell s \<noteq> a) steps \<Longrightarrow>
   r_cells (exec_all steps h) a = r_cells h a \<and> p_cells (exec_all steps h) a = p_cells h a \<and>
   e_cells (exec_all steps h) a = e_cells h a"
  by (induction steps arbitrary: h) (auto simp: exec_other_cell)

text \<open>All three maps of a registry refer to cells of the heap.\<close>

definition metrics_ok :: "'t metrics \<Rightarrow> 't heap \<Rightarrow> bool" where
  "metrics_ok m h \<longleftrightarrow>
     below (m_receivers m) h \<and> below (m_pipelines m) h \<and> below (m_exporters m) h \<and>
     own_cells (m_receivers m) \<and> own_cells (m_pipelines m) \<and> own_cells (m_exporters m)"

lemma below_mono: "below m h \<Longrightarrow> next_cell h \<le> next_cell h' \<Longrightarrow> below m h'"
  unfolding below_def using less_le_trans by blast

lemma metrics_new_ok:
  assumes "metrics_new rs ps es now h = (m, h')"
  shows "metrics_ok m h' \<and> dom (m_receivers m) = set rs \<and> dom (m_pipelines m) = set ps \<and>
    dom (m_exporters m) = set es"
proof -
  obtain mr h1 where r: "register rs (\<lambda>_. None) h = (mr, h1)" by force
  obtain mp h2 where p: "register ps (\<lambda>_. None) h1 = (mp, h2)" by force
  obtain me h3 where e: "register es (\<lambda>_. None) h2 = (me, h3)" by force
  have empty: "below (\<lambda>_. None) g" "own_cells (\<lambda>_. None)" for g :: "'a heap"
    by (simp_all add: below_def own_cells_def)
  have m: "m = \<lparr>m_receivers = mr, m_pipelines = mp, m_exporters = me, started_at = now\<rparr>" "h' = h3"
    using assms r p e by (simp_all add: metrics_new_def)
  note R = register_below [OF empty(1) r] and P = register_below [OF empty(1) p]
    and E = register_below [OF empty(1) e]
  have le: "next_cell h1 \<le> next_cell h2" "next_cell h2 \<le> next_cell h3" using P E by simp_all
  have "below mr h3" using R below_mono [OF _ order_trans [OF le]] by blast
  moreover have "below mp h3" using P below_mono [OF _ le(2)] by blast
  ultimately show ?thesis using R P E m empty(2) by (simp add: metrics_ok_def)
qed

lemma handle_of_registered: "m name = Some a \<Longrightarrow> handle_of m name h = (a, h)"
  by (simp add: handle_of_def)

lemma handle_of_fresh:
  "m name = None \<Longrightarrow> handle_of m name h = (a, h') \<Longrightarrow> a = next_cell h"
  by (auto simp: handle_of_def dest: alloc_fresh)

lemma snapshot_cong:
  assumes "\<And>n a. m_receivers m n = Some a \<Longrightarrow> r_cells h' a = r_cells h a"
    and "\<And>n a. m_pipelines m n = Some a \<Longrightarrow> p_cells h' a = p_cells h a"
    and "\<And>n a. m_exporters m n = Some a \<Longrightarrow> e_cells h' a = e_cells h a"
  shows "snapshot sec now m h' = snapshot sec now m h"
proof -
  have "map_option (r_cells h') (m_receivers m n) = map_option (r_cells h) (m_receivers m n)"
    and "map_option (p_cells h') (m_pipelines m n) = map_option (p_cells h) (m_pipelines m n)"
    and "map_option (e_cells h') (m_exporters m n) = map_option (e_cells h) (m_exporters m n)" for n
    by (rule map_option_cong [OF refl assms(1)] map_option_cong [OF refl assms(2)]
        map_option_cong [OF refl assms(3)], assumption)+
  then show ?thesis by (simp add: snapshot_def)
qed

lemma unregistered_invisible:
  assumes ok: "metrics_ok m h" and none: "m_receivers m name = None"
    and handle: "receiver_handle m name h = (a, h')"
    and steps: "list_all (\<lambda>s. step_cell s = a) steps"
  shows "snapshot sec now m (exec_all steps h') = snapshot sec now m h"
proof -
  have fresh: "a = next_cell h" "alloc h = (a, h')"
    using handle none by (auto simp: receiver_handle_def handle_of_def dest: alloc_fresh)
  have cell: "r_cells (exec_all steps h') b = r_cells h b \<and>
      p_cells (exec_all steps h') b = p_cells h b \<and> e_cells (exec_all steps h') b = e_cells h b"
    if "b < next_cell h" for b
  proof -
    have "b \<noteq> a" using that fresh by simp
    moreover have "list_all (\<lambda>s. step_cell s \<noteq> b) steps"
      using steps \<open>b \<noteq> a\<close> by (auto simp: list_all_iff)
    ultimately show ?thesis
      using exec_all_other_cell [of b steps h'] alloc_fresh [OF fresh(2)] by simp
  qed
  show ?thesis
    using ok cell by (intro snapshot_cong) (auto simp: metrics_ok_def below_def)
qed

subsection \<open>Exporters counting batches\<close>

text \<open>What an exporter's task does with a batch, as the operations it calls.\<close>

datatype 't batch = Sent "64 word" | Unsent "64 word" string 't | Retried

fun batch_steps :: "nat \<Rightarrow> 't batch \<Rightarrow> 't atomic list" where
  "batch_steps a (Sent n) = record_success a n"
| "batch_steps a (Unsent n msg now) = record_failure a n msg now"
| "batch_steps a Retried = record_retry a"

fun batch_len :: "'t batch \<Rightarrow> 64 word" where
  "batch_len (Sent n) = n"
| "batch_len (Unsent n _ _) = n"
| "batch_len Retried = 0"

definition is_sent :: "'t batch \<Rightarrow> bool" where
  "is_sent b \<longleftrightarrow> (case b of Sent _ \<Rightarrow> True | _ \<Rightarrow> False)"

definition is_unsent :: "'t batch \<Rightarrow> bool" where
  "is_unsent b \<longleftrightarrow> (case b of Unsent _ _ _ \<Rightarrow> True | _ \<Rightarrow> False)"

definition is_retried :: "'t batch \<Rightarrow> bool" where
  "is_retried b \<longleftrightarrow> (case b of Retried \<Rightarrow> True | _ \<Rightarrow> False)"

definition task_steps :: "nat \<Rightarrow> 't batch list \<Rightarrow> 't atomic list" where
  "task_steps a bs = concat (map (batch_steps a) bs)"

definition count_of :: "('t batch \<Rightarrow> bool) \<Rightarrow> 't batch list \<Rightarrow> 64 word" where
  "count_of P bs = of_nat (length (filter P bs))"

lemma task_total:
  "total EEventsIn a (task_steps a bs) = sum_list (map batch_len bs)"
  "total EBatchesSent a (task_steps a bs) = count_of is_sent bs"
  "total EBatchesFailed a (task_steps a bs) = count_of is_unsent bs"
  "total ERetries a (task_steps a bs) = count_of is_retried bs"
proof -
  have step: "total EEventsIn a (batch_steps a b) = batch_len b"
    "total EBatchesSent a (batch_steps a b) = of_bool (is_sent b)"
    "total EBatchesFailed a (batch_steps a b) = of_bool (is_unsent b)"
    "total ERetries a (batch_steps a b) = of_bool (is_retried b)" for b :: "'a batch"
    by (cases b; simp add: record_success_def record_failure_def record_retry_def counter_inc_def
        is_sent_def is_unsent_def is_retried_def)+
  show "total EEventsIn a (task_steps a bs) = sum_list (map batch_len bs)"
    by (induction bs) (simp_all add: task_steps_def step)
  show "total EBatchesSent a (task_steps a bs) = count_of is_sent bs"
    by (induction bs) (simp_all add: task_steps_def step count_of_def)
  show "total EBatchesFailed a (task_steps a bs) = count_of is_unsent bs"
    by (induction bs) (simp_all add: task_steps_def step count_of_def)
  show "total ERetries a (task_steps a bs) = count_of is_retried bs"
    by (induction bs) (simp_all add: task_steps_def step count_of_def)
qed

lemma sum_list_concat_map: "sum_list (map f (concat xss)) = sum_list (map (\<lambda>xs. sum_list (map f xs)) xss)"
  by (induction xss) simp_all

lemma count_of_concat: "sum_list (map (count_of P) bss) = count_of P (concat bss)"
  by (induction bss) (simp_all add: count_of_def)

lemma exporter_counts:
  assumes "interleaving (map (task_steps a) jobs) run"
  defines "c \<equiv> e_cells (exec_all run heap_new) a"
  shows "e_events_in c = sum_list (map batch_len (concat jobs))"
    and "e_batches_sent c = count_of is_sent (concat jobs)"
    and "e_batches_failed c = count_of is_unsent (concat jobs)"
    and "e_retries c = count_of is_retried (concat jobs)"
proof -
  have new: "get_counter k a heap_new = 0" for k
    by (cases k) (simp_all add: heap_new_def receiver_default_def pipeline_default_def
        exporter_default_def)
  have sum: "get_counter k a (exec_all run heap_new) = sum_list (map (\<lambda>bs. total k a (task_steps a bs)) jobs)"
    for k
    using interleaving_counter [OF assms(1), of k a heap_new] by (simp add: new comp_def)
  show "e_events_in c = sum_list (map batch_len (concat jobs))"
    using sum [of EEventsIn] by (simp add: c_def task_total sum_list_concat_map)
  show "e_batches_sent c = count_of is_sent (concat jobs)"
    using sum [of EBatchesSent] by (simp add: c_def task_total count_of_concat)
  show "e_batches_failed c = count_of is_unsent (concat jobs)"
    using sum [of EBatchesFailed] by (simp add: c_def task_total count_of_concat)
  show "e_retries c = count_of is_retried (concat jobs)"
    using sum [of ERetries] by (simp add: c_def task_total count_of_concat)
qed

lemma exporter_events_exact:
  assumes "interleaving (map (task_steps a) jobs) run"
    and "sum_list (map (unat \<circ> batch_len) (concat jobs)) < 2 ^ 64"
  shows "unat (e_events_in (e_cells (exec_all run heap_new) a)) =
    sum_list (map (unat \<circ> batch_len) (concat jobs))"
  using exporter_counts(1) [OF assms(1)] unat_sum_list [of "map batch_len (concat jobs)"] assms(2)
  by simp

lemma error_of_task:
  "error_of a s = Some e \<Longrightarrow> s \<in> set (task_steps a bs) \<Longrightarrow> \<exists>n. Unsent n (message e) (at e) \<in> set bs"
proof (induction bs)
  case Nil
  then show ?case by (simp add: task_steps_def)
next
  case (Cons b bs)
  show ?case
  proof (cases "s \<in> set (batch_steps a b)")
    case True
    with Cons.prems(1) have "\<exists>n. b = Unsent n (message e) (at e)"
      by (cases b) (auto simp: record_success_def record_failure_def record_retry_def counter_inc_def
          split: if_splits)
    then show ?thesis by auto
  next
    case False
    with Cons show ?thesis by (auto simp: task_steps_def)
  qed
qed

lemma unsent_sets_error:
  "b \<in> set bs \<Longrightarrow> is_unsent b \<Longrightarrow> \<exists>s \<in> set (task_steps a bs). error_of a s \<noteq> None"
proof -
  assume b: "b \<in> set bs" "is_unsent b"
  then obtain n msg now where "b = Unsent n msg now" by (auto simp: is_unsent_def split: batch.splits)
  then have "SetError a \<lparr>message = msg, at = now\<rparr> \<in> set (batch_steps a b)"
    by (simp add: record_failure_def)
  with b(1) have "SetError a \<lparr>message = msg, at = now\<rparr> \<in> set (task_steps a bs)"
    by (auto simp: task_steps_def)
  then show ?thesis by (intro bexI [of _ "SetError a \<lparr>message = msg, at = now\<rparr>"]) simp_all
qed

lemma map_filter_eq_Nil: "List.map_filter f xs = [] \<longleftrightarrow> list_all (\<lambda>x. f x = None) xs"
  by (induction xs) (auto split: option.split)

lemma set_map_filter: "y \<in> set (List.map_filter f xs) \<longleftrightarrow> (\<exists>x \<in> set xs. f x = Some y)"
  by (induction xs) (auto split: option.split)

lemma last_error_of_jobs:
  assumes "interleaving (map (task_steps a) jobs) steps"
  shows "(e_last_error (e_cells (exec_all steps heap_new) a) = None \<longleftrightarrow>
      list_all (\<lambda>b. \<not> is_unsent b) (concat jobs)) \<and>
    (\<forall>e. e_last_error (e_cells (exec_all steps heap_new) a) = Some e \<longrightarrow>
      (\<exists>n. Unsent n (message e) (at e) \<in> set (concat jobs)))"
proof -
  define es where "es = List.map_filter (error_of a) (rev steps)"
  have steps: "set steps = set (concat (map (task_steps a) jobs))"
    using interleaving_mset [OF assms] by (metis set_mset_mset)
  have shown: "e_last_error (e_cells (exec_all steps heap_new) a) = (case es of [] \<Rightarrow> None | e # _ \<Rightarrow> Some e)"
  proof -
    have "e_last_error (e_cells heap_new a) = None" by (simp add: heap_new_def exporter_default_def)
    then show ?thesis unfolding exec_all_error es_def by (auto split: list.split)
  qed
  have "es = [] \<longleftrightarrow> list_all (\<lambda>b. \<not> is_unsent b) (concat jobs)"
  proof
    assume "es = []"
    then have none: "error_of a s = None" if "s \<in> set steps" for s
      using that by (simp add: es_def map_filter_eq_Nil list_all_iff)
    have "\<not> is_unsent b" if "bs \<in> set jobs" "b \<in> set bs" for b bs
    proof
      assume "is_unsent b"
      with that(2) obtain s where s: "s \<in> set (task_steps a bs)" "error_of a s \<noteq> None"
        using unsent_sets_error by blast
      with that(1) steps have "s \<in> set steps" by auto
      from none [OF this] s(2) show False by simp
    qed
    then show "list_all (\<lambda>b. \<not> is_unsent b) (concat jobs)" by (auto simp: list_all_iff)
  next
    assume sent: "list_all (\<lambda>b. \<not> is_unsent b) (concat jobs)"
    have "error_of a s = None" if "s \<in> set steps" for s
    proof (rule ccontr)
      assume "error_of a s \<noteq> None"
      then obtain e where e: "error_of a s = Some e" by blast
      from that steps obtain bs where bs: "bs \<in> set jobs" "s \<in> set (task_steps a bs)" by auto
      from error_of_task [OF e bs(2)] bs(1) sent show False by (fastforce simp: list_all_iff is_unsent_def)
    qed
    then show "es = []" by (simp add: es_def map_filter_eq_Nil list_all_iff)
  qed
  moreover have "\<exists>n. Unsent n (message e) (at e) \<in> set (concat jobs)" if "e \<in> set es" for e
  proof -
    from that obtain s where "s \<in> set steps" "error_of a s = Some e"
      by (auto simp: es_def set_map_filter)
    with steps obtain bs where "bs \<in> set jobs" "s \<in> set (task_steps a bs)" by auto
    with error_of_task [OF \<open>error_of a s = Some e\<close>] show ?thesis by fastforce
  qed
  ultimately show ?thesis by (auto simp: shown split: list.splits)
qed

section \<open>A snapshot taken while tasks run\<close>

text \<open>
  \<open>Metrics::snapshot\<close> locks nothing: it loads one counter after the other while tasks go on. The
  state of such a run is the heap and the steps the other tasks will make before each of the next
  loads. A hash map is given by the list of its entries, in its own order.
\<close>

type_synonym 't running = "'t atomic list list \<times> 't heap"

fun others_run :: "'t running \<Rightarrow> 't running" where
  "others_run ([], h) = ([], h)"
| "others_run (g # gs, h) = (gs, exec_all g h)"

definition load_counter :: "counter \<Rightarrow> nat \<Rightarrow> 't running \<Rightarrow> 64 word \<times> 't running" where
  "load_counter c a st = (let st' = others_run st in (get_counter c a (snd st'), st'))"

definition load_error :: "nat \<Rightarrow> 't running \<Rightarrow> 't last_error option \<times> 't running" where
  "load_error a st = (let st' = others_run st in (e_last_error (e_cells (snd st') a), st'))"

definition receiver_read :: "nat \<Rightarrow> 't running \<Rightarrow> receiver_snapshot \<times> 't running" where
  "receiver_read a st =
     (let (n, st) = load_counter REventsIn a st in (\<lparr>r_events_in = n\<rparr>, st))"

definition pipeline_read :: "nat \<Rightarrow> 't running \<Rightarrow> pipeline_snapshot \<times> 't running" where
  "pipeline_read a st =
     (let (i, st) = load_counter PEventsIn a st;
          (out, st) = load_counter PEventsOut a st;
          (dropped, st) = load_counter PEventsDropped a st;
          (dead, st) = load_counter PDeadLettered a st;
          (errors, st) = load_counter PParseErrors a st
      in (\<lparr>p_events_in = i, p_events_out = out, p_events_dropped = dropped,
           p_events_dead_lettered = dead, p_parse_errors = errors\<rparr>, st))"

definition exporter_read :: "nat \<Rightarrow> 't running \<Rightarrow> 't exporter_snapshot \<times> 't running" where
  "exporter_read a st =
     (let (i, st) = load_counter EEventsIn a st;
          (sent, st) = load_counter EBatchesSent a st;
          (failed, st) = load_counter EBatchesFailed a st;
          (tries, st) = load_counter ERetries a st;
          (err, st) = load_error a st
      in (\<lparr>e_events_in = i, e_batches_sent = sent, e_batches_failed = failed,
           e_retries = tries, e_last_error = err\<rparr>, st))"

fun read_all ::
  "(nat \<Rightarrow> 't running \<Rightarrow> 'x \<times> 't running) \<Rightarrow> (string \<times> nat) list \<Rightarrow> 't running \<Rightarrow>
   (string \<times> 'x) list \<times> 't running" where
  "read_all rd [] st = ([], st)"
| "read_all rd ((n, a) # ps) st =
     (let (x, st) = rd a st; (xs, st) = read_all rd ps st in ((n, x) # xs, st))"

definition snapshot_running ::
  "('t \<Rightarrow> 't \<Rightarrow> int) \<Rightarrow> 't \<Rightarrow> 't \<Rightarrow> (string \<times> nat) list \<Rightarrow> (string \<times> nat) list \<Rightarrow> (string \<times> nat) list \<Rightarrow>
   't running \<Rightarrow> 't metrics_snapshot \<times> 't running" where
  "snapshot_running seconds_between now started rs ps es st =
     (let (r, st) = read_all receiver_read rs st;
          (p, st) = read_all pipeline_read ps st;
          (e, st) = read_all exporter_read es st
      in (\<lparr>s_started_at = started, s_uptime_seconds = seconds_between started now,
           s_receivers = map_of r, s_pipelines = map_of p, s_exporters = map_of e\<rparr>, st))"

subsection \<open>With nothing running it is the snapshot of the heap\<close>

lemma load_quiet [simp]:
  "load_counter c a ([], h) = (get_counter c a h, [], h)"
  "load_error a ([], h) = (e_last_error (e_cells h a), [], h)"
  by (simp_all add: load_counter_def load_error_def)

lemma read_quiet [simp]:
  "receiver_read a ([], h) = (r_cells h a, [], h)"
  "pipeline_read a ([], h) = (p_cells h a, [], h)"
  "exporter_read a ([], h) = (e_cells h a, [], h)"
  by (simp_all add: receiver_read_def pipeline_read_def exporter_read_def)

lemma read_all_quiet:
  assumes "\<And>a. rd a ([], h) = (f a, [], h)"
  shows "read_all rd ps ([], h) = (map (\<lambda>(n, a). (n, f a)) ps, [], h)"
  using assms by (induction ps) auto

lemma map_of_cells: "map_of (map (\<lambda>(n, a). (n, f a)) ps) = (\<lambda>n. map_option f (map_of ps n))"
  by (rule ext) (induction ps, auto)

lemma snapshot_quiet:
  assumes "m_receivers m = map_of rs" and "m_pipelines m = map_of ps" and "m_exporters m = map_of es"
  shows "snapshot_running sec now (started_at m) rs ps es ([], h) = (snapshot sec now m h, [], h)"
proof -
  have "read_all receiver_read rs ([], h) = (map (\<lambda>(n, a). (n, r_cells h a)) rs, [], h)"
    "read_all pipeline_read ps ([], h) = (map (\<lambda>(n, a). (n, p_cells h a)) ps, [], h)"
    "read_all exporter_read es ([], h) = (map (\<lambda>(n, a). (n, e_cells h a)) es, [], h)"
    by (rule read_all_quiet, simp)+
  then show ?thesis
    by (simp add: snapshot_running_def snapshot_def assms map_of_cells)
qed

subsection \<open>While tasks run, every field shown is the value of some moment\<close>

text \<open>The run has come to the moment after \<open>k\<close> of all the steps.\<close>

definition moment :: "'t atomic list \<Rightarrow> 't heap \<Rightarrow> nat \<Rightarrow> 't running \<Rightarrow> bool" where
  "moment steps h0 k st \<longleftrightarrow>
     k \<le> length steps \<and> snd st = exec_all (take k steps) h0 \<and> drop k steps = concat (fst st)"

lemma moment_start: "moment (concat gs) h 0 (gs, h)"
  by (simp add: moment_def)

lemma others_run_moment:
  assumes "moment steps h0 k st"
  shows "\<exists>k' \<ge> k. moment steps h0 k' (others_run st)"
proof (cases st)
  case (Pair gs h)
  show ?thesis
  proof (cases gs)
    case Nil
    with assms Pair show ?thesis by auto
  next
    case (Cons g gs')
    with assms Pair have k: "k \<le> length steps" "h = exec_all (take k steps) h0" "drop k steps = g @ concat gs'"
      by (simp_all add: moment_def)
    then have "length steps - k = length g + length (concat gs')"
      by (metis length_append length_drop)
    with k(1) have len: "k + length g \<le> length steps" by simp
    have "take (k + length g) steps = take k steps @ g" by (simp add: take_add k(3))
    moreover have "drop (length g) (drop k steps) = concat gs'" by (simp add: k(3))
    then have "drop (k + length g) steps = concat gs'" by (simp add: add.commute)
    ultimately have "moment steps h0 (k + length g) (others_run st)"
      using k(2) len Pair Cons by (simp add: moment_def)
    then show ?thesis by (intro exI [of _ "k + length g"]) simp
  qed
qed

lemma load_moment:
  assumes "moment steps h0 k st" and "load_counter c a st = (v, st')"
  shows "\<exists>k' \<ge> k. moment steps h0 k' st' \<and> v = get_counter c a (exec_all (take k' steps) h0)"
  using others_run_moment [OF assms(1)] assms(2) by (auto simp: load_counter_def Let_def moment_def)

lemma load_error_moment:
  assumes "moment steps h0 k st" and "load_error a st = (v, st')"
  shows "\<exists>k' \<ge> k. moment steps h0 k' st' \<and> v = e_last_error (e_cells (exec_all (take k' steps) h0) a)"
  using others_run_moment [OF assms(1)] assms(2) by (auto simp: load_error_def Let_def moment_def)


text \<open>One exporter's loads, in the order of the fields.\<close>

lemma exporter_read_moments:
  assumes "moment steps h0 k st" and "exporter_read a st = (x, st')"
  shows "\<exists>k1 k2 k3 k4 k5. k \<le> k1 \<and> k1 \<le> k2 \<and> k2 \<le> k3 \<and> k3 \<le> k4 \<and> k4 \<le> k5 \<and> moment steps h0 k5 st' \<and>
    e_events_in x = get_counter EEventsIn a (exec_all (take k1 steps) h0) \<and>
    e_batches_sent x = get_counter EBatchesSent a (exec_all (take k2 steps) h0) \<and>
    e_batches_failed x = get_counter EBatchesFailed a (exec_all (take k3 steps) h0) \<and>
    e_retries x = get_counter ERetries a (exec_all (take k4 steps) h0) \<and>
    e_last_error x = e_last_error (e_cells (exec_all (take k5 steps) h0) a)"
proof -
  obtain v1 s1 where l1: "load_counter EEventsIn a st = (v1, s1)" by (meson surj_pair)
  obtain v2 s2 where l2: "load_counter EBatchesSent a s1 = (v2, s2)" by (meson surj_pair)
  obtain v3 s3 where l3: "load_counter EBatchesFailed a s2 = (v3, s3)" by (meson surj_pair)
  obtain v4 s4 where l4: "load_counter ERetries a s3 = (v4, s4)" by (meson surj_pair)
  obtain v5 s5 where l5: "load_error a s4 = (v5, s5)" by (meson surj_pair)
  from load_moment [OF assms(1) l1] obtain k1 where m1: "k \<le> k1" "moment steps h0 k1 s1"
    "v1 = get_counter EEventsIn a (exec_all (take k1 steps) h0)" by blast
  from load_moment [OF m1(2) l2] obtain k2 where m2: "k1 \<le> k2" "moment steps h0 k2 s2"
    "v2 = get_counter EBatchesSent a (exec_all (take k2 steps) h0)" by blast
  from load_moment [OF m2(2) l3] obtain k3 where m3: "k2 \<le> k3" "moment steps h0 k3 s3"
    "v3 = get_counter EBatchesFailed a (exec_all (take k3 steps) h0)" by blast
  from load_moment [OF m3(2) l4] obtain k4 where m4: "k3 \<le> k4" "moment steps h0 k4 s4"
    "v4 = get_counter ERetries a (exec_all (take k4 steps) h0)" by blast
  from load_error_moment [OF m4(2) l5] obtain k5 where m5: "k4 \<le> k5" "moment steps h0 k5 s5"
    "v5 = e_last_error (e_cells (exec_all (take k5 steps) h0) a)" by blast
  have "x = \<lparr>e_events_in = v1, e_batches_sent = v2, e_batches_failed = v3, e_retries = v4,
      e_last_error = v5\<rparr>" "st' = s5"
    using assms(2) l1 l2 l3 l4 l5 by (simp_all add: exporter_read_def)
  with m1 m2 m3 m4 m5 show ?thesis
    by (intro exI [of _ k1] exI [of _ k2] exI [of _ k3] exI [of _ k4] exI [of _ k5]) simp
qed

text \<open>Reading the other kinds moves the run on.\<close>

definition moves_on :: "(nat \<Rightarrow> 't running \<Rightarrow> 'x \<times> 't running) \<Rightarrow> bool" where
  "moves_on rd \<longleftrightarrow> (\<forall>steps h0 k a st. moment steps h0 k st \<longrightarrow>
     (\<exists>k' \<ge> k. moment steps h0 k' (snd (rd a st))))"

lemma loads_move_on:
  assumes "moment steps h0 k st"
  shows "\<exists>k' \<ge> k. moment steps h0 k' (snd (load_counter c a st))"
  using others_run_moment [OF assms] by (simp add: load_counter_def Let_def)

lemma receiver_read_moves: "moves_on receiver_read"
proof -
  have "snd (receiver_read a st) = snd (load_counter REventsIn a st)" for a and st :: "'a running"
    by (simp add: receiver_read_def case_prod_unfold Let_def)
  then show ?thesis by (simp add: moves_on_def loads_move_on)
qed

lemma pipeline_read_moves: "moves_on pipeline_read"
proof -
  have "snd (pipeline_read a st) = snd (load_counter PParseErrors a (snd (load_counter PDeadLettered a
      (snd (load_counter PEventsDropped a (snd (load_counter PEventsOut a
        (snd (load_counter PEventsIn a st)))))))))" for a and st :: "'a running"
    by (simp add: pipeline_read_def case_prod_unfold Let_def)
  moreover have "\<exists>k' \<ge> k. moment steps h0 k' (snd (load_counter PParseErrors a (snd (load_counter PDeadLettered a
      (snd (load_counter PEventsDropped a (snd (load_counter PEventsOut a
        (snd (load_counter PEventsIn a st))))))))))"
    if "moment steps h0 k st" for steps h0 k a and st :: "'a running"
  proof -
    from loads_move_on [OF that] obtain k1 where k1: "k \<le> k1"
      "moment steps h0 k1 (snd (load_counter PEventsIn a st))" by blast
    from loads_move_on [OF k1(2)] obtain k2 where k2: "k1 \<le> k2" "moment steps h0 k2
      (snd (load_counter PEventsOut a (snd (load_counter PEventsIn a st))))" by blast
    from loads_move_on [OF k2(2)] obtain k3 where k3: "k2 \<le> k3" "moment steps h0 k3
      (snd (load_counter PEventsDropped a (snd (load_counter PEventsOut a
        (snd (load_counter PEventsIn a st))))))" by blast
    from loads_move_on [OF k3(2)] obtain k4 where k4: "k3 \<le> k4" "moment steps h0 k4
      (snd (load_counter PDeadLettered a (snd (load_counter PEventsDropped a
        (snd (load_counter PEventsOut a (snd (load_counter PEventsIn a st))))))))" by blast
    from loads_move_on [OF k4(2)] k1(1) k2(1) k3(1) k4(1) show ?thesis
      by (meson order_trans)
  qed
  ultimately show ?thesis unfolding moves_on_def by simp
qed

lemma exporter_read_moves: "moves_on exporter_read"
  unfolding moves_on_def
proof (intro allI impI)
  fix steps and h0 :: "'a heap" and k a st
  assume "moment steps h0 k st"
  from exporter_read_moments [OF this, of a "fst (exporter_read a st)" "snd (exporter_read a st)"]
  obtain k1 k2 k3 k4 k5 where "k \<le> k1" "k1 \<le> k2" "k2 \<le> k3" "k3 \<le> k4" "k4 \<le> k5"
    "moment steps h0 k5 (snd (exporter_read a st))"
    by auto
  then show "\<exists>k' \<ge> k. moment steps h0 k' (snd (exporter_read a st))"
    by (intro exI [of _ k5]) simp
qed

lemma read_all_state: "snd (read_all rd ((n, a) # ps) st) = snd (read_all rd ps (snd (rd a st)))"
  by (simp add: case_prod_unfold Let_def)

lemma read_all_moves:
  assumes "moves_on rd" and "moment steps h0 k st"
  shows "\<exists>k' \<ge> k. moment steps h0 k' (snd (read_all rd ps st))"
  using assms(2)
proof (induction ps arbitrary: k st)
  case Nil
  then show ?case by auto
next
  case (Cons p ps)
  obtain n a where p: "p = (n, a)" by (cases p)
  from assms(1) Cons.prems obtain k1 where k1: "k \<le> k1" "moment steps h0 k1 (snd (rd a st))"
    unfolding moves_on_def by blast
  from Cons.IH [OF k1(2)] obtain k2 where "k1 \<le> k2" "moment steps h0 k2 (snd (read_all rd ps (snd (rd a st))))"
    by blast
  with k1(1) show ?case by (intro exI [of _ k2]) (simp only: p read_all_state, simp)
qed

lemma read_all_entry:
  assumes "moves_on rd" and "moment steps h0 k st" and "read_all rd ps st = (xs, st')"
    and "map_of xs n = Some x"
  shows "\<exists>a j s. map_of ps n = Some a \<and> k \<le> j \<and> moment steps h0 j s \<and> fst (rd a s) = x"
  using assms(2-4)
proof (induction ps arbitrary: k st xs)
  case Nil
  then show ?case by simp
next
  case (Cons p ps)
  obtain m a where p: "p = (m, a)" by (cases p)
  obtain y s1 where y: "rd a st = (y, s1)" by (meson surj_pair)
  obtain ys s2 where ys: "read_all rd ps s1 = (ys, s2)" by (meson surj_pair)
  have xs: "xs = (m, y) # ys" and "st' = s2" using Cons.prems(2) p y ys by simp_all
  show ?case
  proof (cases "m = n")
    case True
    with Cons.prems(1,3) xs y p show ?thesis by (intro exI [of _ a] exI [of _ k] exI [of _ st]) simp
  next
    case False
    from assms(1) Cons.prems(1) obtain k1 where k1: "k \<le> k1" "moment steps h0 k1 s1"
      unfolding moves_on_def using y by (metis snd_conv)
    have "map_of ys n = Some x" using Cons.prems(3) xs False by simp
    from Cons.IH [OF k1(2) _ this] ys \<open>st' = s2\<close> obtain b j s where
      "map_of ps n = Some b" "k1 \<le> j" "moment steps h0 j s" "fst (rd b s) = x" by blast
    with k1(1) p False show ?thesis by (intro exI [of _ b] exI [of _ j] exI [of _ s]) simp
  qed
qed


text \<open>Each exporter shown in a snapshot, field by field.\<close>

lemma snapshot_running_exporter:
  assumes "snapshot_running sec now started rs ps es (gs, h) = (snap, st')"
    and "s_exporters snap n = Some x"
  shows "\<exists>a k1 k2 k3 k4 k5. map_of es n = Some a \<and> k1 \<le> k2 \<and> k2 \<le> k3 \<and> k3 \<le> k4 \<and> k4 \<le> k5 \<and>
    e_events_in x = get_counter EEventsIn a (exec_all (take k1 (concat gs)) h) \<and>
    e_batches_sent x = get_counter EBatchesSent a (exec_all (take k2 (concat gs)) h) \<and>
    e_batches_failed x = get_counter EBatchesFailed a (exec_all (take k3 (concat gs)) h) \<and>
    e_retries x = get_counter ERetries a (exec_all (take k4 (concat gs)) h) \<and>
    e_last_error x = e_last_error (e_cells (exec_all (take k5 (concat gs)) h) a)"
proof -
  let ?s1 = "snd (read_all receiver_read rs (gs, h))"
  let ?s2 = "snd (read_all pipeline_read ps ?s1)"
  from read_all_moves [OF receiver_read_moves moment_start] obtain j1 where
    "moment (concat gs) h j1 ?s1" by blast
  from read_all_moves [OF pipeline_read_moves this] obtain j2 where
    j2: "moment (concat gs) h j2 ?s2" by blast
  obtain xs s3 where xs: "read_all exporter_read es ?s2 = (xs, s3)" by (meson surj_pair)
  have "map_of xs n = Some x"
    using assms xs by (auto simp: snapshot_running_def case_prod_unfold Let_def)
  from read_all_entry [OF exporter_read_moves j2 xs this] obtain a j s where
    a: "map_of es n = Some a" and s: "moment (concat gs) h j s" and x: "fst (exporter_read a s) = x"
    by blast
  have "exporter_read a s = (x, snd (exporter_read a s))" using x by (metis prod.collapse)
  from exporter_read_moments [OF s this] a show ?thesis by blast
qed

end
