(* ===== verification/Dashboard.thy ===== *)
theory Dashboard
imports Metrics Machine Terminal
begin

text \<open>
  The dashboard, \<open>dashboard/app.rs\<close>, \<open>client.rs\<close>, the loop of \<open>mod.rs\<close> and what \<open>ui.rs\<close> draws.
  The HTTP client and the rendering of a number are arguments; \<open>tokio::select!\<close> picks one of
  the ready branches, so a run is any list of polls and keys. A hash map is a function with
  its list of keys, whose order is unspecified.
\<close>

section \<open>State and events\<close>

text \<open>The snapshot as it is received: association lists in the map's own, arbitrary order.\<close>

record 't received =
  rc_started_at :: 't
  rc_uptime_seconds :: int
  rc_receivers :: "(string \<times> receiver_snapshot) list"
  rc_pipelines :: "(string \<times> pipeline_snapshot) list"
  rc_exporters :: "(string \<times> 't exporter_snapshot) list"

datatype 't app_event =
    PollResult "string + 't received"
  | Key key_event

record ('t, 'i) dashboard =
  status_addr :: string
  last_snapshot :: "'t received option"
  poll_error :: "string option"
  last_poll_at :: "'i option"
  quitting :: bool

definition dashboard_new :: "string \<Rightarrow> ('t, 'i) dashboard" where
  "dashboard_new addr =
     \<lparr>status_addr = addr, last_snapshot = None, poll_error = None, last_poll_at = None,
      quitting = False\<rparr>"

definition dashboard_key :: "key_event \<Rightarrow> ('t, 'i) dashboard \<Rightarrow> ('t, 'i) dashboard" where
  "dashboard_key k app =
     (if code k = KChar ''q'' \<or> code k = KEsc then app\<lparr>quitting := True\<rparr> else app)"

text \<open>\<open>App::update\<close>; \<open>now\<close> is the instant it is called at.\<close>

fun update :: "'i \<Rightarrow> 't app_event \<Rightarrow> ('t, 'i) dashboard \<Rightarrow> ('t, 'i) dashboard" where
  "update now (PollResult (Inr snap)) app =
     app\<lparr>last_snapshot := Some snap, poll_error := None, last_poll_at := Some now\<rparr>"
| "update now (PollResult (Inl msg)) app = app\<lparr>poll_error := Some msg, last_poll_at := Some now\<rparr>"
| "update now (Key k) app = dashboard_key k app"

text \<open>
  \<open>fetch_status\<close>: sending fails, or the response has a status and, decoded, a snapshot or an
  error.
\<close>

record 't response =
  status_success :: bool
  status_text :: string
  body :: "string + 't received"

definition fetch_status :: "(string \<Rightarrow> string + 't response) \<Rightarrow> string \<Rightarrow> string + 't received" where
  "fetch_status get addr =
     (case get (''http://'' @ addr @ ''/status'') of
        Inl e \<Rightarrow> Inl (''connection failed: '' @ e)
      | Inr resp \<Rightarrow>
          (if \<not> status_success resp
           then Inl (''status API returned '' @ status_text resp)
           else (case body resp of
              Inl e \<Rightarrow> Inl (''invalid response: '' @ e)
            | Inr snap \<Rightarrow> Inr snap)))"

text \<open>
  What the loop of \<open>run_app\<close> does at one turn: a tick polls, a key goes to the application, and
  any other terminal event, or the end of the stream, is ignored.
\<close>

datatype 't turn = Tick "string \<Rightarrow> string + 't response" | KeyRead key_event | Ignored

fun dashboard_turn ::
  "'i \<times> 't turn \<Rightarrow> ('t, 'i) dashboard \<Rightarrow> unit + ('t, 'i) dashboard" where
  "dashboard_turn (now, Tick get) app =
     Inr (update now (PollResult (fetch_status get (status_addr app))) app)"
| "dashboard_turn (now, KeyRead k) app = Inr (update now (Key k) app)"
| "dashboard_turn (now, Ignored) app = Inr app"

definition dashboard_run ::
  "('i \<times> 't turn) list \<Rightarrow> ('t, 'i) dashboard \<Rightarrow> unit + ('t, 'i) dashboard" where
  "dashboard_run turns app = run_until dashboard_turn quitting turns app"

section \<open>What is drawn\<close>

definition header_text :: "('t, 'i) dashboard \<Rightarrow> string" where
  "header_text app =
     (case poll_error app of
        Some e \<Rightarrow> ''! unreachable: '' @ status_addr app @ '' -- '' @ e @ '' (retrying)''
      | None \<Rightarrow> ''connected to '' @ status_addr app)"

text \<open>
  The rows of a table: the names sorted, and the row of each. \<open>snap.receivers[name]\<close> panics
  on an absent name.
\<close>

definition rows_of :: "(string \<times> 'a) list \<Rightarrow> ('a \<Rightarrow> string list) \<Rightarrow> string list list option" where
  "rows_of m row =
     map_opt (\<lambda>name. map_option (\<lambda>x. name # row x) (map_of m name)) (sort (map fst m))"

definition receiver_rows :: "(64 word \<Rightarrow> string) \<Rightarrow> 't received \<Rightarrow> string list list option" where
  "receiver_rows show_u64 snap = rows_of (rc_receivers snap) (\<lambda>r. [show_u64 (r_events_in r)])"

definition pipeline_rows :: "(64 word \<Rightarrow> string) \<Rightarrow> 't received \<Rightarrow> string list list option" where
  "pipeline_rows show_u64 snap =
     rows_of (rc_pipelines snap) (\<lambda>p.
       [show_u64 (p_events_in p), show_u64 (p_events_out p), show_u64 (p_events_dropped p),
        show_u64 (p_parse_errors p)])"

definition exporter_rows :: "(64 word \<Rightarrow> string) \<Rightarrow> 't received \<Rightarrow> string list list option" where
  "exporter_rows show_u64 snap =
     rows_of (rc_exporters snap) (\<lambda>e.
       [show_u64 (e_batches_sent e), show_u64 (e_retries e), show_u64 (e_batches_failed e),
        (case e_last_error e of Some le \<Rightarrow> message le | None \<Rightarrow> [])])"

text \<open>A table: its title, the row of headings, and its rows.\<close>

record table =
  table_title :: string
  table_header :: "string list"
  table_rows :: "string list list"

definition draw_receivers :: "(64 word \<Rightarrow> string) \<Rightarrow> 't received \<Rightarrow> table option" where
  "draw_receivers show_u64 snap =
     map_option (\<lambda>rows. \<lparr>table_title = ''Receivers'', table_header = [''receiver'', ''events in''],
       table_rows = rows\<rparr>) (receiver_rows show_u64 snap)"

definition draw_pipelines :: "(64 word \<Rightarrow> string) \<Rightarrow> 't received \<Rightarrow> table option" where
  "draw_pipelines show_u64 snap =
     map_option (\<lambda>rows. \<lparr>table_title = ''Pipelines'',
       table_header = [''pipeline'', ''in'', ''out'', ''dropped'', ''parse errors''],
       table_rows = rows\<rparr>) (pipeline_rows show_u64 snap)"

definition draw_exporters :: "(64 word \<Rightarrow> string) \<Rightarrow> 't received \<Rightarrow> table option" where
  "draw_exporters show_u64 snap =
     map_option (\<lambda>rows. \<lparr>table_title = ''Exporters'',
       table_header = [''exporter'', ''sent'', ''retries'', ''failed'', ''last error''],
       table_rows = rows\<rparr>) (exporter_rows show_u64 snap)"

text \<open>The header's box, then a message in a box, or the three tables.\<close>

datatype dashboard_view =
    Waiting "string \<times> string" "string \<times> string"
  | Tables "string \<times> string" table table table

definition draw_header :: "('t, 'i) dashboard \<Rightarrow> string \<times> string" where
  "draw_header app = (''sgcia dashboard (q to quit)'', header_text app)"

definition draw_dashboard :: "(64 word \<Rightarrow> string) \<Rightarrow> ('t, 'i) dashboard \<Rightarrow> dashboard_view option" where
  "draw_dashboard show_u64 app =
     (case last_snapshot app of
        None \<Rightarrow> Some (Waiting (draw_header app)
          (''sgcia dashboard'', ''waiting for first status snapshot...''))
      | Some snap \<Rightarrow>
          Option.bind (draw_receivers show_u64 snap) (\<lambda>rs.
          Option.bind (draw_pipelines show_u64 snap) (\<lambda>ps.
          Option.bind (draw_exporters show_u64 snap) (\<lambda>es.
          Some (Tables (draw_header app) rs ps es)))))"

section \<open>Lemmas\<close>

subsection \<open>Polls\<close>

text \<open>The outcome of the polls of a run, in order, and the last one that succeeded.\<close>

definition polls :: "string \<Rightarrow> ('i \<times> 't turn) list \<Rightarrow> (string + 't received) list" where
  "polls addr turns =
     List.map_filter (\<lambda>(_, t). case t of Tick get \<Rightarrow> Some (fetch_status get addr) | _ \<Rightarrow> None) turns"

fun last_good :: "(string + 't received) list \<Rightarrow> 't received option" where
  "last_good [] = None"
| "last_good (Inr s # ps) = (case last_good ps of None \<Rightarrow> Some s | Some s' \<Rightarrow> Some s')"
| "last_good (Inl _ # ps) = last_good ps"

definition quits :: "'t turn \<Rightarrow> bool" where
  "quits t \<longleftrightarrow> (case t of KeyRead k \<Rightarrow> code k = KChar ''q'' \<or> code k = KEsc | _ \<Rightarrow> False)"

lemma update_frame [simp]:
  "status_addr (update now ev app) = status_addr app"
  "quitting (update now (PollResult r) app) = quitting app"
proof -
  show "status_addr (update now ev app) = status_addr app"
    by (induction now ev app rule: update.induct) (simp_all add: dashboard_key_def)
  show "quitting (update now (PollResult r) app) = quitting app"
    by (cases r) simp_all
qed

lemma turn_frame:
  "dashboard_turn e app = Inr app' \<Longrightarrow>
   status_addr app' = status_addr app \<and> quitting app' = (quitting app \<or> quits (snd e))"
  by (cases e; cases "snd e") (auto simp: dashboard_key_def quits_def split: if_splits)

lemma turn_total: "\<exists>app'. dashboard_turn e app = Inr app'"
  by (cases e; cases "snd e") auto

lemma key_keeps [simp]:
  "last_snapshot (dashboard_key k app) = last_snapshot app"
  "poll_error (dashboard_key k app) = poll_error app"
  "last_poll_at (dashboard_key k app) = last_poll_at app"
  by (simp_all add: dashboard_key_def)

text \<open>The last good snapshot is what is shown, and the error is that of the last poll.\<close>

lemma polls_simps [simp]:
  "polls addr [] = []"
  "polls addr ((now, Tick get) # ts) = fetch_status get addr # polls addr ts"
  "polls addr ((now, KeyRead k) # ts) = polls addr ts"
  "polls addr ((now, Ignored) # ts) = polls addr ts"
  by (simp_all add: polls_def)

lemma dashboard_run_shown:
  assumes "\<not> quitting app" and "list_all (\<lambda>t. \<not> quits (snd t)) turns"
  shows "\<exists>app'. dashboard_run turns app = Inr app' \<and>
    last_snapshot app' = (case last_good (polls (status_addr app) turns) of
        None \<Rightarrow> last_snapshot app | Some s \<Rightarrow> Some s) \<and>
    poll_error app' = (if polls (status_addr app) turns = [] then poll_error app
      else (case last (polls (status_addr app) turns) of Inl e \<Rightarrow> Some e | Inr _ \<Rightarrow> None))"
  using assms
proof (induction turns arbitrary: app)
  case Nil
  then show ?case by (simp add: dashboard_run_def)
next
  case (Cons e turns)
  obtain now t where e: "e = (now, t)" by (cases e)
  obtain app1 where step: "dashboard_turn e app = Inr app1" using turn_total by blast
  from turn_frame [OF step] Cons.prems have frame: "status_addr app1 = status_addr app" "\<not> quitting app1"
    by auto
  from Cons.IH [OF frame(2)] Cons.prems obtain app' where run: "dashboard_run turns app1 = Inr app'"
    and shown: "last_snapshot app' = (case last_good (polls (status_addr app) turns) of
        None \<Rightarrow> last_snapshot app1 | Some s \<Rightarrow> Some s)"
    and err: "poll_error app' = (if polls (status_addr app) turns = [] then poll_error app1
      else (case last (polls (status_addr app) turns) of Inl e \<Rightarrow> Some e | Inr _ \<Rightarrow> None))"
    using frame(1) by auto
  have go: "dashboard_run (e # turns) app = Inr app'"
    using run step Cons.prems(1) by (simp add: dashboard_run_def)
  show ?case
  proof (cases t)
    case (Tick get)
    show ?thesis
    proof (cases "fetch_status get (status_addr app)")
      case (Inl msg)
      with Tick step e have "last_snapshot app1 = last_snapshot app" "poll_error app1 = Some msg"
        by auto
      with go shown err Tick Inl e show ?thesis by (auto split: option.split)
    next
      case (Inr snap)
      with Tick step e have "last_snapshot app1 = Some snap" "poll_error app1 = None"
        by auto
      with go shown err Tick Inr e show ?thesis by (auto split: option.split)
    qed
  next
    case (KeyRead k)
    with step e have "last_snapshot app1 = last_snapshot app" "poll_error app1 = poll_error app"
      by auto
    with go shown err KeyRead e show ?thesis by (auto split: option.split)
  next
    case Ignored
    with step e have "app1 = app" by simp
    with go shown err Ignored e show ?thesis by (auto split: option.split)
  qed
qed

text \<open>After the first poll there is always something to show: a snapshot or an error.\<close>

lemma turn_polled:
  assumes "(last_poll_at app = None) = (last_snapshot app = None \<and> poll_error app = None)"
    and "dashboard_turn e app = Inr app'"
  shows "(last_poll_at app' = None) = (last_snapshot app' = None \<and> poll_error app' = None)"
proof (cases e)
  case (Pair now t)
  with assms show ?thesis
    by (cases t; cases "case t of Tick get \<Rightarrow> fetch_status get (status_addr app) | _ \<Rightarrow> Inl []") auto
qed

interpretation polled: invariant_machine dashboard_turn quitting
  "\<lambda>app. (last_poll_at app = None) = (last_snapshot app = None \<and> poll_error app = None)" "\<lambda>_. True"
  by unfold_locales (rule turn_polled, assumption+, simp)

subsection \<open>Tables\<close>

text \<open>Every name is listed exactly once, in order, with its own numbers.\<close>

lemma rows_of_total: "\<exists>rows. rows_of m row = Some rows"
  unfolding rows_of_def
proof (rule map_opt_total)
  fix n assume "n \<in> set (sort (map fst m))"
  then have "map_of m n \<noteq> None" by (auto simp: map_of_eq_None_iff)
  then show "\<exists>y. map_option (\<lambda>x. n # row x) (map_of m n) = Some y" by auto
qed

lemma rows_of_names: "rows_of m row = Some rows \<Longrightarrow> map hd rows = sort (map fst m)"
  unfolding rows_of_def
  by (drule map_opt_SomeD, erule list_all2_induct) auto

lemma rows_of_member:
  assumes "distinct (map fst m)" and "rows_of m row = Some rows" and "(n, x) \<in> set m"
  shows "n # row x \<in> set rows"
proof -
  have rel: "list_all2 (\<lambda>n r. map_option (\<lambda>x. n # row x) (map_of m n) = Some r) (sort (map fst m)) rows"
    using assms(2) unfolding rows_of_def by (rule map_opt_SomeD)
  have "n \<in> set (sort (map fst m))" using assms(3) by force
  then obtain i where i: "i < length (sort (map fst m))" "sort (map fst m) ! i = n"
    unfolding in_set_conv_nth by blast
  with rel have "map_option (\<lambda>x. n # row x) (map_of m n) = Some (rows ! i)" and "i < length rows"
    by (auto simp: list_all2_conv_all_nth)
  with assms show ?thesis by auto
qed

lemma draw_dashboard_total: "\<exists>v. draw_dashboard show_u64 app = Some v"
proof (cases "last_snapshot app")
  case None
  then show ?thesis by (simp add: draw_dashboard_def)
next
  case (Some snap)
  obtain rs where "receiver_rows show_u64 snap = Some rs"
    unfolding receiver_rows_def using rows_of_total by blast
  moreover obtain ps where "pipeline_rows show_u64 snap = Some ps"
    unfolding pipeline_rows_def using rows_of_total by blast
  moreover obtain es where "exporter_rows show_u64 snap = Some es"
    unfolding exporter_rows_def using rows_of_total by blast
  ultimately show ?thesis
    using Some by (simp add: draw_dashboard_def draw_receivers_def draw_pipelines_def draw_exporters_def)
qed

text \<open>Before the first answer the header already speaks of a connection.\<close>

lemma header_before_first_poll:
  "draw_dashboard show_u64 (dashboard_new addr) =
     Some (Waiting (''sgcia dashboard (q to quit)'', ''connected to '' @ addr)
       (''sgcia dashboard'', ''waiting for first status snapshot...''))"
  by (simp add: draw_dashboard_def draw_header_def header_text_def dashboard_new_def)

end
