(* ===== verification/Program.thy ===== *)
theory Program
imports Editor_Flows Editor_View Dashboard
begin

text \<open>
  The whole program: \<open>main.rs\<close>, which dispatches on the command line, and the loops of
  \<open>editor/mod.rs\<close> and \<open>dashboard/mod.rs\<close> with the terminal they draw on. Each turn of a loop
  draws first, and drawing or reading may fail. The terminal crate is a parameter: entering and
  leaving its full-screen mode, and the panic hook it installs on entering.
\<close>

section \<open>The terminal\<close>

record 't term_lib =
  term_init :: "'t \<Rightarrow> bool \<times> 't"
  term_restore :: "'t \<Rightarrow> 't"
  term_unwind :: "'t \<Rightarrow> 't"

text \<open>What is documented: restoring, also from the panic hook, gives back a usable terminal.\<close>

definition term_laws :: "'t term_lib \<Rightarrow> ('t \<Rightarrow> bool) \<Rightarrow> bool" where
  "term_laws lib usable \<longleftrightarrow> (\<forall>t. usable (term_restore lib t) \<and> usable (term_unwind lib t))"

text \<open>
  One \<open>terminal.draw\<close>: finding the size may fail before the closure is called, and writing the
  frame after it.
\<close>

datatype frame = Shown | SizeError string | WriteError string

text \<open>How a run ends, or that it is still waiting for the next event.\<close>

datatype ending = Finished "string + unit" | Panicked | PowerLost | Waiting_input

definition draw_frame :: "frame \<Rightarrow> 'v option \<Rightarrow> ending option" where
  "draw_frame fr picture =
     (case fr of
        SizeError e \<Rightarrow> Some (Finished (Inl e))
      | Shown \<Rightarrow> (case picture of None \<Rightarrow> Some Panicked | Some _ \<Rightarrow> None)
      | WriteError e \<Rightarrow> (case picture of None \<Rightarrow> Some Panicked | Some _ \<Rightarrow> Some (Finished (Inl e))))"

section \<open>The editor's loop\<close>

datatype terminal_event = KeyEvent key_event | OtherEvent

type_synonym editor_turn = "frame \<times> (string + world \<times> terminal_event)"

text \<open>\<open>run_app\<close> of \<open>editor/mod.rs\<close>.\<close>

fun editor_loop ::
  "'i ui \<Rightarrow> yaml \<Rightarrow> editor_turn list \<Rightarrow> 'i app \<times> disk \<Rightarrow> ending \<times> disk" where
  "editor_loop ui y [] (app, d) = (Waiting_input, d)"
| "editor_loop ui y ((fr, ev) # turns) (app, d) =
     (case draw_frame fr (draw ui y app) of
        Some e \<Rightarrow> (e, d)
      | None \<Rightarrow>
          (if should_quit app then (Finished (Inr ()), d)
           else case ev of
             Inl e \<Rightarrow> (Finished (Inl e), d)
           | Inr (w, OtherEvent) \<Rightarrow> editor_loop ui y turns (app, d)
           | Inr (w, KeyEvent k) \<Rightarrow>
               (case on_key ui y w k (app, d) of
                  (Inl Panic, d') \<Rightarrow> (Panicked, d')
                | (Inl PowerOff, d') \<Rightarrow> (PowerLost, d')
                | (Inr app', d') \<Rightarrow> editor_loop ui y turns (app', d'))))"

section \<open>The dashboard's loop\<close>

text \<open>\<open>run_app\<close> of \<open>dashboard/mod.rs\<close> once the client is built.\<close>

fun dashboard_loop ::
  "(64 word \<Rightarrow> string) \<Rightarrow> (frame \<times> 'i \<times> 't turn) list \<Rightarrow> ('t, 'i) dashboard \<Rightarrow> ending" where
  "dashboard_loop show_u64 [] app = Waiting_input"
| "dashboard_loop show_u64 ((fr, ev) # turns) app =
     (case draw_frame fr (draw_dashboard show_u64 app) of
        Some e \<Rightarrow> e
      | None \<Rightarrow>
          (if quitting app then Finished (Inr ())
           else case dashboard_turn ev app of
             Inl _ \<Rightarrow> Panicked
           | Inr app' \<Rightarrow> dashboard_loop show_u64 turns app'))"

section \<open>Entering and leaving\<close>

text \<open>
  \<open>ratatui::init()\<close>, which panics when it fails, the loop, and \<open>ratatui::restore()\<close> on every
  return, errors included. A panic runs the hook.
\<close>

definition with_terminal ::
  "'t term_lib \<Rightarrow> 't \<Rightarrow> disk \<Rightarrow> ending \<times> disk \<Rightarrow> ending \<times> 't \<times> disk" where
  "with_terminal lib t d result =
     (case term_init lib t of
        (False, t1) \<Rightarrow> (Panicked, term_unwind lib t1, d)
      | (True, t1) \<Rightarrow>
          (case result of
             (Finished r, d') \<Rightarrow> (Finished r, term_restore lib t1, d')
           | (Panicked, d') \<Rightarrow> (Panicked, term_unwind lib t1, d')
           | (e, d') \<Rightarrow> (e, t1, d')))"

text \<open>\<open>editor::run\<close> and \<open>dashboard::run\<close>; \<open>client_error\<close> is an error of building the client.\<close>

definition editor_main ::
  "'t term_lib \<Rightarrow> 'i ui \<Rightarrow> yaml \<Rightarrow> io_error option \<Rightarrow> editor_turn list \<Rightarrow> string \<Rightarrow> 't \<times> disk \<Rightarrow>
   ending \<times> 't \<times> disk" where
  "editor_main lib ui y read_fault turns config s =
     (let (t, d) = s in
      case load_doc y read_fault config d of
        Inl e \<Rightarrow> (Finished (Inl (error_text e)), t, d)
      | Inr document \<Rightarrow> with_terminal lib t d (editor_loop ui y turns (app_new config document, d)))"

definition dashboard_main ::
  "'t term_lib \<Rightarrow> (64 word \<Rightarrow> string) \<Rightarrow> string option \<Rightarrow> (frame \<times> 'n \<times> 'u turn) list \<Rightarrow> string \<Rightarrow>
   't \<times> disk \<Rightarrow> ending \<times> 't \<times> disk" where
  "dashboard_main lib show_u64 client_error turns addr s =
     (let (t, d) = s in
      with_terminal lib t d
        (case client_error of
           Some e \<Rightarrow> Finished (Inl e)
         | None \<Rightarrow> dashboard_loop show_u64 turns (dashboard_new addr), d))"

section \<open>The command line\<close>

datatype command = Edit string | Dashboard string

record cli =
  cli_command :: command
  log_level :: string

text \<open>
  What a run gets from outside besides the disk and the terminal: the argument parser that
  \<open>clap\<close> derives from \<open>Cli\<close>, which may end the program with its usage text, and the events.
\<close>

record ('i, 'n, 'u) inputs =
  parse_args :: "string list \<Rightarrow> string + cli"
  in_ui :: "'i ui"
  in_yaml :: yaml
  in_read_fault :: "io_error option"
  in_editor_turns :: "editor_turn list"
  in_show :: "64 word \<Rightarrow> string"
  in_client_error :: "string option"
  in_dashboard_turns :: "(frame \<times> 'n \<times> 'u turn) list"

definition main ::
  "'t term_lib \<Rightarrow> ('i, 'n, 'u) inputs \<Rightarrow> string list \<Rightarrow> 't \<times> disk \<Rightarrow> ending \<times> 't \<times> disk" where
  "main lib inp args s =
     (case parse_args inp args of
        Inl usage \<Rightarrow> (Finished (Inl usage), s)
      | Inr cli \<Rightarrow>
          (case cli_command cli of
             Edit config \<Rightarrow>
               editor_main lib (in_ui inp) (in_yaml inp) (in_read_fault inp) (in_editor_turns inp) config s
           | Dashboard addr \<Rightarrow>
               dashboard_main lib (in_show inp) (in_client_error inp) (in_dashboard_turns inp) addr s))"

section \<open>The loop is a run over the keys\<close>

text \<open>The keys the loop hands to the application: those before the first failure.\<close>

fun keys_read :: "editor_turn list \<Rightarrow> (world \<times> key_event) list" where
  "keys_read [] = []"
| "keys_read ((Shown, Inr (w, KeyEvent k)) # turns) = (w, k) # keys_read turns"
| "keys_read ((Shown, Inr (w, OtherEvent)) # turns) = keys_read turns"
| "keys_read (_ # turns) = []"

text \<open>What ending means for the run over the keys, \<open>r\<close>.\<close>

fun agrees :: "ending \<Rightarrow> stop + 'i app \<Rightarrow> bool" where
  "agrees (Finished (Inr _)) r = (case r of Inr app \<Rightarrow> should_quit app | Inl _ \<Rightarrow> False)"
| "agrees (Finished (Inl _)) r = (case r of Inr _ \<Rightarrow> True | Inl _ \<Rightarrow> False)"
| "agrees Waiting_input r = (case r of Inr _ \<Rightarrow> True | Inl _ \<Rightarrow> False)"
| "agrees PowerLost r = (r = Inl PowerOff)"
| "agrees Panicked r = False"

lemma draw_frame_drawn [simp]:
  "draw_frame Shown (Some v) = None" "draw_frame (SizeError e) p = Some (Finished (Inl e))"
  "draw_frame (WriteError e) (Some v) = Some (Finished (Inl e))"
  by (simp_all add: draw_frame_def)

lemma editor_loop_keys:
  assumes "app_ok app"
  shows "\<exists>r. run_keys ui y (keys_read turns) (app, d) = (r, snd (editor_loop ui y turns (app, d))) \<and>
    agrees (fst (editor_loop ui y turns (app, d))) r"
  using assms
proof (induction ui y turns "(app, d)" arbitrary: app d rule: editor_loop.induct)
  case (1 ui y app d)
  then show ?case by simp
next
  case (2 ui y fr ev turns app d)
  from draw_ok [OF "2.prems"] obtain ws where drawn: "draw ui y app = Some ws" by blast
  have quit: "run_keys ui y ks (app, d) = (Inr app, d)" if "should_quit app" for ks
    using that by (cases ks) auto
  show ?case
  proof (cases "fr = Shown \<and> \<not> should_quit app")
    case False
    with drawn quit show ?thesis by (cases fr) auto
  next
    case go: True
    show ?thesis
    proof (cases ev)
      case (Inl e)
      with go drawn show ?thesis by simp
    next
      case (Inr p)
      obtain w e where p: "p = (w, e)" by (cases p)
      show ?thesis
      proof (cases e)
        case OtherEvent
        with "2.hyps" "2.prems" go drawn Inr p show ?thesis by simp
      next
        case (KeyEvent k)
        obtain res d' where step: "on_key ui y w k (app, d) = (res, d')" by force
        from on_key_ok [OF "2.prems" step] "2.hyps" go drawn Inr p KeyEvent step show ?thesis
          by (cases res) (auto split: stop.splits)
      qed
    qed
  qed
qed

section \<open>How the program ends\<close>

lemma dashboard_loop_fine: "dashboard_loop show_u64 turns app \<noteq> Panicked \<and> dashboard_loop show_u64 turns app \<noteq> PowerLost"
proof (induction show_u64 turns app rule: dashboard_loop.induct)
  case (1 show_u64 app)
  then show ?case by simp
next
  case (2 show_u64 fr ev turns app)
  obtain v where drawn: "draw_dashboard show_u64 app = Some v" using draw_dashboard_total by blast
  obtain app' where "dashboard_turn ev app = Inr app'" using turn_total by blast
  with 2 drawn show ?case by (cases fr) auto
qed

lemma with_terminal_ending:
  assumes "with_terminal lib t d (e, d1) = (ending, t', d')"
  shows "d' = (if fst (term_init lib t) then d1 else d) \<and>
    ending = (if fst (term_init lib t) then e else Panicked) \<and>
    (term_laws lib usable \<longrightarrow> ending \<noteq> PowerLost \<longrightarrow> ending \<noteq> Waiting_input \<longrightarrow> usable t')"
  using assms
  by (cases "term_init lib t"; cases "fst (term_init lib t)"; cases e)
    (auto simp: with_terminal_def term_laws_def)

lemma load_app_ok:
  assumes "yaml_maps_ok y" and "load_doc y fault path d = Inr dc"
  shows "app_ok (app_new path dc)"
  using load_doc_ok [OF assms] by (simp add: app_ok_def app_new_def screen_default_def)

lemma editor_main_ending:
  assumes "yaml_maps_ok y" and "editor_main lib ui y fault turns path (t, d) = (ending, t', d')"
  shows "(fst (term_init lib t) \<longrightarrow> ending \<noteq> Panicked) \<and>
    (term_laws lib usable \<longrightarrow> usable t \<longrightarrow> ending \<noteq> PowerLost \<longrightarrow> ending \<noteq> Waiting_input \<longrightarrow> usable t')"
proof (cases "load_doc y fault path d")
  case (Inl e)
  with assms(2) show ?thesis by (auto simp: editor_main_def)
next
  case (Inr dc)
  obtain e d1 where loop: "editor_loop ui y turns (app_new path dc, d) = (e, d1)" by force
  with editor_loop_keys [OF load_app_ok [OF assms(1) Inr], of ui y turns d] have "e \<noteq> Panicked"
    by (cases e) auto
  moreover have "with_terminal lib t d (e, d1) = (ending, t', d')"
    using assms(2) Inr loop by (simp add: editor_main_def)
  note with_terminal_ending [OF this, of usable]
  ultimately show ?thesis by auto
qed

lemma dashboard_main_ending:
  assumes "dashboard_main lib show_u64 err turns addr (t, d) = (ending, t', d')"
  shows "d' = d \<and> (fst (term_init lib t) \<longrightarrow> ending \<noteq> Panicked \<and> ending \<noteq> PowerLost) \<and>
    (term_laws lib usable \<longrightarrow> ending \<noteq> PowerLost \<longrightarrow> ending \<noteq> Waiting_input \<longrightarrow> usable t')"
proof -
  define e where "e = (case err of Some e \<Rightarrow> Finished (Inl e)
      | None \<Rightarrow> dashboard_loop show_u64 turns (dashboard_new addr))"
  have "e \<noteq> Panicked \<and> e \<noteq> PowerLost"
    by (simp add: e_def dashboard_loop_fine split: option.split)
  moreover have "with_terminal lib t d (e, d) = (ending, t', d')"
    using assms by (simp add: dashboard_main_def e_def)
  note with_terminal_ending [OF this, of usable]
  ultimately show ?thesis by auto
qed

lemma main_ending:
  assumes "yaml_maps_ok (in_yaml inp)" and "main lib inp args (t, d) = (ending, t', d')"
  shows "(fst (term_init lib t) \<longrightarrow> ending \<noteq> Panicked) \<and>
    (term_laws lib usable \<longrightarrow> usable t \<longrightarrow> ending \<noteq> PowerLost \<longrightarrow> ending \<noteq> Waiting_input \<longrightarrow> usable t')"
proof (cases "parse_args inp args")
  case (Inl usage)
  with assms(2) show ?thesis by (auto simp: main_def)
next
  case (Inr cli)
  show ?thesis
  proof (cases "cli_command cli")
    case (Edit path)
    with Inr assms(2) show ?thesis
      by (intro editor_main_ending [OF assms(1)]) (simp add: main_def)
  next
    case (Dashboard addr)
    with Inr assms(2) have run: "dashboard_main lib (in_show inp) (in_client_error inp)
        (in_dashboard_turns inp) addr (t, d) = (ending, t', d')"
      by (simp add: main_def)
    from dashboard_main_ending [OF run, of usable] show ?thesis by blast
  qed
qed

section \<open>What the program leaves on the disk\<close>

text \<open>The file it may write: none but that of \<open>edit\<close>.\<close>

definition written_file :: "('i, 'n, 'u) inputs \<Rightarrow> string list \<Rightarrow> string option" where
  "written_file inp args =
     (case parse_args inp args of
        Inl _ \<Rightarrow> None
      | Inr cli \<Rightarrow> (case cli_command cli of Edit path \<Rightarrow> Some path | Dashboard _ \<Rightarrow> None))"

text \<open>
  What a power failure may leave in the file of \<open>edit\<close>: what it might have left there before, or
  a text validated in the course of the run over the keys that were read.
\<close>

definition old_or_validated ::
  "('i, 'n, 'u) inputs \<Rightarrow> string \<Rightarrow> disk \<Rightarrow> string option \<Rightarrow> bool" where
  "old_or_validated inp path d c \<longleftrightarrow>
     survives d (components path) c \<or>
     (\<exists>dc. load_doc (in_yaml inp) (in_read_fault inp) path d = Inr dc \<and>
        validated_save (in_ui inp) (in_yaml inp) (keys_read (in_editor_turns inp)) (app_new path dc, d) c)"

lemma editor_main_disk:
  assumes "yaml_maps_ok (in_yaml inp)" and "disk_ok d (tmp_of (components path)) (components path)"
    and "file_name (components path) \<noteq> None"
    and run: "editor_main lib (in_ui inp) (in_yaml inp) (in_read_fault inp) (in_editor_turns inp) path (t, d) =
      (ending, t', d')"
    and left: "survives d' (components path) c"
  shows "old_or_validated inp path d c"
proof (cases "load_doc (in_yaml inp) (in_read_fault inp) path d")
  case (Inl e)
  with run left show ?thesis by (simp add: editor_main_def old_or_validated_def)
next
  case (Inr dc)
  obtain e d1 where loop:
    "editor_loop (in_ui inp) (in_yaml inp) (in_editor_turns inp) (app_new path dc, d) = (e, d1)" by force
  with editor_loop_keys [OF load_app_ok [OF assms(1) Inr], of "in_ui inp" "in_yaml inp" "in_editor_turns inp" d]
  obtain r where keys:
    "run_keys (in_ui inp) (in_yaml inp) (keys_read (in_editor_turns inp)) (app_new path dc, d) = (r, d1)"
    by auto
  have "with_terminal lib t d (e, d1) = (ending, t', d')"
    using run Inr loop by (simp add: editor_main_def)
  from with_terminal_ending [OF this] left have "survives d (components path) c \<or> survives d1 (components path) c"
    by (simp split: if_splits)
  with session_survives [OF assms(2,3) keys] Inr show ?thesis by (auto simp: old_or_validated_def)
qed

lemma main_disk:
  assumes "yaml_maps_ok (in_yaml inp)" and "main lib inp args (t, d) = (ending, t', d')"
  shows "case written_file inp args of
      None \<Rightarrow> d' = d
    | Some path \<Rightarrow> disk_ok d (tmp_of (components path)) (components path) \<longrightarrow>
        file_name (components path) \<noteq> None \<longrightarrow> survives d' (components path) c \<longrightarrow>
        old_or_validated inp path d c"
proof (cases "parse_args inp args")
  case (Inl usage)
  with assms(2) show ?thesis by (simp add: main_def written_file_def)
next
  case (Inr cli)
  show ?thesis
  proof (cases "cli_command cli")
    case (Edit path)
    with Inr assms(2) have run: "editor_main lib (in_ui inp) (in_yaml inp) (in_read_fault inp)
        (in_editor_turns inp) path (t, d) = (ending, t', d')"
      by (simp add: main_def)
    from editor_main_disk [OF assms(1) _ _ this] Inr Edit show ?thesis by (simp add: written_file_def)
  next
    case (Dashboard addr)
    with Inr assms(2) have run: "dashboard_main lib (in_show inp) (in_client_error inp)
        (in_dashboard_turns inp) addr (t, d) = (ending, t', d')"
      by (simp add: main_def)
    from dashboard_main_ending [OF this] Inr Dashboard show ?thesis by (simp add: written_file_def)
  qed
qed

text \<open>A session of keys alone can always be drawn.\<close>

lemma drawing_never_panics:
  assumes "yaml_maps_ok y" and "editor_run ui y fault ks path d = Inr (Inr app, d')"
  shows "\<exists>ws. draw ui y app = Some ws"
  using editor_run_ok [OF assms] by (simp add: draw_ok)

end
