(* ===== verification/Samples.thy ===== *)
theory Samples
imports Plain_Yaml Editor_Shape Program
begin

text \<open>
  Concrete inputs for the witnesses of the properties: a document, a disk that holds it, an
  environment whose validator accepts, and the facts that they meet the hypotheses.
\<close>

definition sample_doc :: editor_doc where
  "sample_doc =
     \<lparr>receivers = [(''syslog/udp'', JObject
         [(''protocol'', JString ''rfc3164''),
          (''udp'', JObject [(''listen_address'', JString ''0.0.0.0:514'')])])],
      exporters = [(''debug'', JObject [(''verbosity'', JString ''basic'')])],
      extensions = [],
      pipelines = [(''logs'', JObject
         [(''receivers'', JArray [JString ''syslog/udp'']),
          (''exporters'', JArray [JString ''debug''])])]\<rparr>"

text \<open>A printer of one document: what it prints parses back, anything else it refuses.\<close>

definition sample_yaml :: yaml where
  "sample_yaml =
     \<lparr>yaml_parse = (\<lambda>s. if s = ''doc'' then Inr (doc_to_value sample_doc) else Inl ''bad''),
      yaml_print = (\<lambda>v. if v = doc_to_value sample_doc then Inr ''doc'' else Inl ''unsupported'')\<rparr>"

definition sample_os :: os where
  "sample_os =
     \<lparr>bin_var = None, tmp_file = Inr ''/tmp/sgcia.yaml'', tmp_write = None, tmp_flush = None,
      run = (\<lambda>bin args s. Inr \<lparr>exit_success = True, exit_text = ''0'', stderr_text = []\<rparr>)\<rparr>"

definition sample_world :: world where
  "sample_world = \<lparr>world_os = sample_os, world_faults = (\<lambda>_. NoFault)\<rparr>"

text \<open>A disk with one file, written and synced long ago.\<close>

definition sample_disk :: disk where
  "sample_disk =
     \<lparr>names = [components ''c.yaml'' \<mapsto> 0], past = [], dirs = {},
      inodes = (\<lambda>_. \<lparr>bytes = ''doc'', synced = Some ''doc''\<rparr>), fresh = 1\<rparr>"

definition sample_app :: "string screen \<Rightarrow> string app" where
  "sample_app scr = (app_new ''c.yaml'' sample_doc)\<lparr>screen := scr\<rparr>"

lemma sample_maps: "yaml_maps_ok sample_yaml"
proof -
  have "keys_distinct (doc_to_value sample_doc)" by code_simp
  then show ?thesis by (simp add: yaml_maps_ok_def sample_yaml_def)
qed

lemma sample_path: "components ''c.yaml'' = (False, [''c.yaml''])" "tmp_of (False, [''c.yaml'']) = (False, [''c.yaml.tmp''])"
  "file_name (False, [''c.yaml'']) = Some ''c.yaml''"
  by code_simp+

lemma sample_disk_ok: "disk_ok sample_disk (tmp_of (components ''c.yaml'')) (components ''c.yaml'')"
  by (auto simp: disk_ok_def sample_disk_def tables_def sample_path)

lemma sample_read: "read_disk sample_disk (components ''c.yaml'') = Some ''doc''"
  by (simp add: read_disk_def sample_disk_def)

lemma sample_load: "load_doc sample_yaml None ''c.yaml'' sample_disk = Inr sample_doc"
proof -
  have "utf8_ok ''doc''" by code_simp
  moreover have "\<not> is_dir sample_disk (components ''c.yaml'')"
    by (simp add: is_dir_def sample_path sample_disk_def)
  ultimately show ?thesis
    by (simp add: load_doc_def read_to_string_def sample_read parse_doc_def sample_yaml_def
        doc_of_to_value)
qed

lemma sample_doc_ok: "doc_ok sample_doc"
  by code_simp

lemma sample_run:
  "editor_run plain_ui sample_yaml None ks ''c.yaml'' sample_disk =
     Inr (run_keys plain_ui sample_yaml ks (app_new ''c.yaml'' sample_doc, sample_disk))"
  by (simp add: editor_run_def sample_load)

lemma sample_validated: "accepted sample_os sample_yaml bin sample_doc"
proof -
  have "placeholder_for_validation (doc_to_value sample_doc) = doc_to_value sample_doc"
    by code_simp
  then show ?thesis by (simp add: accepted_def sample_yaml_def sample_os_def)
qed

section \<open>Whole runs\<close>

text \<open>A terminal whose state is a word, and a run of \<open>edit\<close> over a list of turns.\<close>

definition sample_terminal :: "string term_lib" where
  "sample_terminal =
     \<lparr>term_init = (\<lambda>_. (True, ''full screen'')), term_restore = (\<lambda>_. ''usable''), term_unwind = (\<lambda>_. ''usable'')\<rparr>"

definition sample_inputs :: "editor_turn list \<Rightarrow> (string, nat, nat) inputs" where
  "sample_inputs turns =
     \<lparr>parse_args = (\<lambda>args. Inr \<lparr>cli_command = Edit ''c.yaml'', log_level = ''info''\<rparr>),
      in_ui = plain_ui, in_yaml = sample_yaml, in_read_fault = None, in_editor_turns = turns,
      in_show = (\<lambda>_. ''0''), in_client_error = None, in_dashboard_turns = []\<rparr>"

lemma sample_terminal_laws: "term_laws sample_terminal (\<lambda>t. t = ''usable'')"
  by (simp add: term_laws_def sample_terminal_def)

lemma sample_written [simp]: "written_file (sample_inputs turns) args = Some ''c.yaml''"
  by (simp add: written_file_def sample_inputs_def)

lemma sample_inputs_yaml [simp]: "in_yaml (sample_inputs turns) = sample_yaml"
  by (simp add: sample_inputs_def)

text \<open>A crate that prints every document as one text, for what is only saved.\<close>

definition sample_printer :: yaml where
  "sample_printer = \<lparr>yaml_parse = (\<lambda>_. Inl ''bad''), yaml_print = (\<lambda>_. Inr ''text'')\<rparr>"

lemma sample_printer_accepted: "accepted sample_os sample_printer bin dc"
  by (simp add: accepted_def sample_printer_def sample_os_def)

lemma sample_new_path:
  "components ''test.yaml'' = (False, [''test.yaml''])"
  "tmp_of (False, [''test.yaml'']) = (False, [''test.yaml.tmp''])"
  "file_name (False, [''test.yaml'']) = Some ''test.yaml''"
  by code_simp+

lemma sample_new_file:
  "names sample_disk (components ''test.yaml'') = None" "\<not> is_dir sample_disk (components ''test.yaml'')"
  "disk_ok sample_disk (tmp_of (components ''test.yaml'')) (components ''test.yaml'')"
  "writable sample_disk (components ''test.yaml'')"
  by (auto simp: disk_ok_def writable_def is_dir_def sample_disk_def tables_def sample_path sample_new_path)

section \<open>A session that removes a pipeline and saves\<close>

text \<open>The same document, on a disk that holds it as \<open>plain_yaml\<close> prints it.\<close>

definition printed :: "editor_doc \<Rightarrow> string" where
  "printed dc = print_value (doc_to_value dc)"

definition plain_disk :: disk where
  "plain_disk = sample_disk
     \<lparr>inodes := (\<lambda>_. \<lparr>bytes = printed sample_doc, synced = Some (printed sample_doc)\<rparr>)\<rparr>"

definition bare_doc :: editor_doc where
  "bare_doc = sample_doc\<lparr>pipelines := []\<rparr>"

lemma plain_disk_ok: "disk_ok plain_disk (tmp_of (components ''c.yaml'')) (components ''c.yaml'')"
  using sample_disk_ok by (simp add: plain_disk_def)

lemma plain_writable: "writable plain_disk (components ''c.yaml'')"
  by (simp add: writable_def plain_disk_def sample_disk_def sample_path is_dir_def)

lemma plain_prints:
  "yaml_print plain_yaml (doc_to_value sample_doc) = Inr (printed sample_doc)"
  "yaml_print plain_yaml (doc_to_value bare_doc) = Inr (printed bare_doc)"
proof -
  have "keys_distinct (doc_to_value sample_doc)" "keys_distinct (doc_to_value bare_doc)"
    by code_simp+
  then show "yaml_print plain_yaml (doc_to_value sample_doc) = Inr (printed sample_doc)"
    "yaml_print plain_yaml (doc_to_value bare_doc) = Inr (printed bare_doc)"
    by (simp_all add: plain_yaml_prints printed_def)
qed

lemma plain_parses:
  "yaml_print plain_yaml (doc_to_value dc) = Inr s \<Longrightarrow>
   utf8_ok s \<and> yaml_parse plain_yaml s = Inr (doc_to_value dc)"
  using plain_yaml_lawful by (auto simp: yaml_lawful_def yaml_round_trips_def dest: spec [of _ "doc_to_value dc"])

lemma plain_load: "load_doc plain_yaml None ''c.yaml'' plain_disk = Inr sample_doc"
proof -
  have "\<not> is_dir plain_disk (components ''c.yaml'')"
    by (simp add: is_dir_def sample_path sample_disk_def plain_disk_def)
  moreover have "read_disk plain_disk (components ''c.yaml'') = Some (printed sample_doc)"
    by (simp add: read_disk_def plain_disk_def sample_disk_def)
  ultimately show ?thesis
    using plain_parses [OF plain_prints(1)]
    by (simp add: load_doc_def read_to_string_def parse_doc_def doc_of_to_value)
qed

lemma bare_accepted: "accepted sample_os plain_yaml bin bare_doc"
proof -
  have "keys_distinct (placeholder_for_validation (doc_to_value bare_doc))" by code_simp
  then show ?thesis by (simp add: accepted_def plain_yaml_prints sample_os_def)
qed

lemma bare_saved:
  "\<exists>d'. save_doc sample_os plain_yaml (\<lambda>_. NoFault) ''c.yaml'' bare_doc plain_disk = (Some (Inr ()), d')"
proof -
  have "file_name (components ''c.yaml'') \<noteq> None" by (simp add: sample_path)
  from save_completes [OF bare_accepted plain_prints(2) plain_disk_ok plain_writable this]
  show ?thesis by blast
qed

definition bare_keys :: "(world \<times> key_event) list" where
  "bare_keys = map (Pair sample_world) [key KBackTab, key KDelete, key (KChar ''s'')]"

lemma bare_run:
  "\<exists>app d'. editor_run plain_ui plain_yaml None bare_keys ''c.yaml'' plain_disk = Inr (Inr app, d') \<and>
     doc app = bare_doc \<and> \<not> dirty app"
proof -
  obtain d' where saved:
    "save_doc sample_os plain_yaml (\<lambda>_. NoFault) ''c.yaml'' bare_doc plain_disk = (Some (Inr ()), d')"
    using bare_saved by blast
  have bare: "sample_doc\<lparr>pipelines := map_remove (pipelines sample_doc) ''logs''\<rparr> = bare_doc"
    by code_simp
  have ids: "ids_for_tab sample_doc Pipelines = [''logs'']" by code_simp
  show ?thesis
    using saved bare ids
    by (simp add: editor_run_def plain_load bare_keys_def on_key_def app_new_def screen_default_def
        handle_key_def handle_top_level_def top_level_key_def delete_selected_def change_doc_def
        save_key_def sample_world_def after_save_def)
qed

section \<open>The same session with a validator that rejects\<close>

definition strict_world :: world where
  "strict_world = sample_world\<lparr>world_os := sample_os\<lparr>run := (\<lambda>_ _ _.
     Inr \<lparr>exit_success = False, exit_text = ''1'', stderr_text = ''bad receiver''\<rparr>)\<rparr>\<rparr>"

definition strict_inputs :: "(string, nat, nat) inputs" where
  "strict_inputs = (sample_inputs (map (\<lambda>k. (Shown, Inr (strict_world, KeyEvent k)))
     [key KBackTab, key KDelete, key (KChar ''s'')]))\<lparr>in_yaml := plain_yaml\<rparr>"

lemma strict_inputs_sel:
  "in_yaml strict_inputs = plain_yaml" "written_file strict_inputs args = Some ''c.yaml''"
  "fst ` set (keys_read (in_editor_turns strict_inputs)) = {strict_world}"
  by (simp_all add: strict_inputs_def sample_inputs_def written_file_def)

lemma strict_rejects: "\<not> accepted (world_os strict_world) y bin dc"
  by (simp add: accepted_def strict_world_def sample_world_def split: sum.split)

lemma strict_saves_nothing: "\<not> validated_save ui y (keys_read (in_editor_turns strict_inputs)) s c"
proof
  assume "validated_save ui y (keys_read (in_editor_turns strict_inputs)) s c"
  then obtain before w k later bin dc where
    keys: "keys_read (in_editor_turns strict_inputs) = before @ (w, k) # later"
    and accepted: "accepted (world_os w) y bin dc"
    unfolding validated_save_def by blast
  from keys have "w \<in> fst ` set (keys_read (in_editor_turns strict_inputs))" by simp
  then have "w = strict_world" by (simp add: strict_inputs_sel)
  with accepted show False by (simp add: strict_rejects)
qed

lemma bare_text_new: "\<not> survives plain_disk (components ''c.yaml'') (Some (printed bare_doc))"
proof
  assume "survives plain_disk (components ''c.yaml'') (Some (printed bare_doc))"
  then have "printed bare_doc = printed sample_doc"
    by (auto simp: tables_def plain_disk_def sample_disk_def elim!: survives_SomeE split: if_splits)
  with plain_parses [OF plain_prints(1)] plain_parses [OF plain_prints(2)]
  have "doc_to_value bare_doc = doc_to_value sample_doc" by simp
  then have "bare_doc = sample_doc" by (metis doc_of_to_value)
  then show False by (simp add: bare_doc_def sample_doc_def)
qed

end
