(* ===== verification/Spec2Isabelle.thy ===== *)
theory Spec2Isabelle
imports Samples
begin

text \<open>
  A verification development of \<open>sgcia\<close>, the configuration editor and dashboard of a log
  collector: the Rust crates \<open>collector\<close> and \<open>sg-core\<close> under \<open>src/crates/\<close>.

  \<^bold>\<open>The program.\<close> The editor loads a YAML file into a document of four maps (receivers,
  exporters, extensions, pipelines), shows it on screens, edits a component through a form
  generated from a table of field specifications, and saves it: an external binary validates a
  copy, then the file is written under a temporary name, synced and renamed. A receiver can also
  be made from a table of source templates. The dashboard polls a status endpoint each second and
  shows the counters of the running collector.

  \<^bold>\<open>Theories and sources.\<close> Paths are under \<open>src/crates/collector/src/\<close> but for the last.

    \<^item> Prelude, Json: strings (\<open>split\<close>, \<open>trim\<close>, \<open>join\<close>, \<open>contains\<close>), folds that can fail, and
      \<open>serde_json\<close>'s values; a \<open>Map\<close> is an association list in insertion order, whose removal
      moves the last entry into the gap. The locale \<open>ordered_map\<close> is its contract.
    \<^item> Paths, Schema, Registry: \<open>editor/schema_registry.rs\<close>, its path functions, specifications,
      tables and lookups. Locales \<open>path_access\<close> (write and read of a path) and \<open>keyed_table\<close>
      (a table searched by name), interpreted on the functions and tables of the source.
    \<^item> Templates: \<open>editor/templates.rs\<close>, the parameters, builders and table of the templates.
    \<^item> Terminal, Form: \<open>FormState\<close> and \<open>FieldEditState\<close> of \<open>editor/app.rs\<close>: \<open>form_new\<close>,
      \<open>to_value\<close>, \<open>form_on_key\<close>. Registered_Forms: the field lists a form is opened on.
    \<^item> Document, Disk, Persist: \<open>editor/model.rs\<close>. \<open>atomic_write\<close> runs on a disk with directories,
      names, unsynced bytes and a history of the name table, on which every call may fail or the
      power may go; \<open>survives\<close> says what a reader may then find.
    \<^item> Editor: \<open>App\<close> and \<open>Screen\<close> of \<open>editor/app.rs\<close>, one definition per handler, composed by
      \<open>handle_key\<close> and \<open>on_key\<close>; \<open>run_keys\<close> and \<open>editor_run\<close> are \<open>editor/mod.rs\<close>. A handler that
      can panic returns an option; \<open>stop\<close> tells a panic from a power failure inside a save.
    \<^item> Machine: the loop both programs share, with the locale \<open>invariant_machine\<close> of what its
      steps keep, interpreted on the editor's and the dashboard's steps.
    \<^item> Editor_Safety, Editor_Session, Editor_Refinement: the invariant \<open>app_ok\<close> and one lemma per
      handler that keeps it and excludes a panic; what a session leaves on the disk; the abstract
      configuration and the steps a key may make on it.
    \<^item> Editor_Shape: no JSON object of a session gets a key twice, at any depth.
    \<^item> Editor_View: \<open>editor/ui.rs\<close>, the texts and emphases of each screen; at the end, that the
      highlighted template may lie below the last row a terminal of 24 rows shows.
    \<^item> Metrics: \<open>src/crates/sg-core/src/metrics.rs\<close>. Counters are 64-bit words that wrap around,
      an \<open>Arc\<close> is an address into a heap, tasks are lists of atomic steps that
      interleave, and a snapshot loads one counter after the other while they go on.
    \<^item> Dashboard: \<open>dashboard/app.rs\<close>, \<open>client.rs\<close>, the turns of \<open>mod.rs\<close>, \<open>ui.rs\<close>.
    \<^item> Editor_Flows: sequences of keys from a list to the document, step by step: adding a
      component or a pipeline, and the walkthrough of \<open>README.md\<close>.
    \<^item> Program: \<open>main.rs\<close> and both loops with the terminal, each turn of which may fail to draw or
      to read. \<open>editor_loop_keys\<close> reduces the editor's loop to a run over keys.
    \<^item> Plain_Yaml: an executable printer and parser that meets the laws asked of the YAML crate.
    \<^item> Samples: concrete inputs for the witnesses.

  \<^bold>\<open>What is shown\<close>, in the order below. Sessions: no panic, crash safety of the whole program, a
  truthful unsaved mark, refinement of the abstract configuration (C1 to C4); the program and its
  terminal (C5, C6). Saving (C7 to C10), removing (C11 to C13), forms, operators and paths (C14 to
  C18), templates (C19 to C21), removing an operator (C22), seeds and new ids (C23, C24), the
  validator's message (C25), what is not kept (C26 to C29), the validated copy of a session's
  document (C30), what is highlighted (C31), counters under interleaving and snapshots of them (C32
  to C35), the dashboard (C36, C37), keys from the first to the last (C38 to C40).

  \<^bold>\<open>Terms of the specifications.\<close> Where the code has a function for what a property is about, the
  property has terms of its own: \<open>mentions\<close> and \<open>component_dropped\<close> (Document) for references from
  pipelines, \<open>of_kind\<close> (Schema) for the values a field may have, \<open>default_blanked\<close> (Form) for the one
  field that does not come back, \<open>accepted\<close> (Persist) for what a validator accepts, and
  \<open>validated_save\<close> (Editor_Session) for a text that was accepted and printed at a moment of the
  very run the property speaks of.

  \<^bold>\<open>Bounds.\<close> No definition needs fuel: loops over paths, strings and lists are structural or
  recurse on a shorter string, and the two event loops run over the list of the events read. A
  key that is never read is a shorter list, so a property of all lists holds at every moment.
  Indices (\<open>usize\<close>) are natural numbers: they are bounded by the length of a list in memory,
  and their subtractions are the source's \<open>saturating_sub\<close> and \<open>checked_sub\<close>.

  \<^bold>\<open>Parameters and hypotheses.\<close> Crates outside the repository are arguments. \<open>yaml\<close> is the YAML
  crate (\<open>yaml_maps_ok\<close>: objects it parses have distinct keys, as a \<open>Map\<close> has; \<open>yaml_lawful\<close>:
  what it prints parses back; \<open>plain_yaml\<close> in Plain_Yaml is an executable pair of functions that
  meets both and prints every value whose objects have distinct keys); \<open>ui\<close> the line editor (\<open>input_laws\<close>: a new input holds the text it is given;
  \<open>typing_laws\<close>: a printable character goes to its end) and the display of a JSON value; \<open>os\<close>
  the environment, the temporary file and the validator process; \<open>fault\<close> the outcome of each
  file-system call; \<open>term_lib\<close> entering and leaving the terminal's full screen (\<open>term_laws\<close>:
  restoring, also by the panic hook, makes it usable); \<open>parse_args\<close> the parser of the command
  line. \<open>disk_ok\<close> asks that no name leads to an inode not yet made, and that what the temporary
  name leads to was at no time what the file's name led to (they are not hard links of each other).
  C8 is exact under it: after a completed write the old text is still among what a power failure
  may leave, for no call syncs the directory.

  \<^bold>\<open>Not modelled.\<close> Logging; rectangles, colours and wrapping of the terminal; the timer of the
  dashboard, whose turns come in any order; symbolic links and permissions of the file system; the
  Go collector and the web front end, which are other programs in other languages.
\<close>

section \<open>Sessions of the editor\<close>

text \<open>
  C1. No sequence of keys makes the editor panic, whatever the file holds and whatever the
  saves run into, and after every key the application is well-formed: forms show the fields of
  registered types, selections are in range, ids are usable.
\<close>

theorem editor_never_panics:
  assumes "yaml_maps_ok y" and "editor_run ui y fault ks path d = Inr (r, d')"
  shows "r \<noteq> Inl Panic \<and> (\<forall>app. r = Inr app \<longrightarrow> app_ok app)"
  by (rule editor_run_ok [OF assms])

lemma editor_never_panics_witness:
  "fst (run_keys plain_ui sample_yaml [(sample_world, key KEnter), (sample_world, key KRight)]
     (app_new ''c.yaml'' sample_doc, sample_disk)) \<noteq> Inl Panic"
  using editor_never_panics [OF sample_maps, of plain_ui None
      "[(sample_world, key KEnter), (sample_world, key KRight)]" "''c.yaml''" sample_disk]
  by (metis prod.collapse sample_run)

text \<open>
  C2. However the program ends, a panic, a failing terminal and a power failure in the middle of a
  save included, \<open>edit\<close> leaves in its file a text the file might have held at the start, or the
  printed form of a document that was being edited in this very session when \<open>s\<close> was pressed, and
  that the validator found at that moment accepted. No other command writes at all.
\<close>

theorem program_crash_safe:
  assumes "yaml_maps_ok (in_yaml inp)" and "main lib inp args (t, d) = (ending, t', d')"
  shows "(written_file inp args = None \<longrightarrow> d' = d) \<and>
    (\<forall>path c. written_file inp args = Some path \<longrightarrow>
      disk_ok d (tmp_of (components path)) (components path) \<longrightarrow> file_name (components path) \<noteq> None \<longrightarrow>
      survives d' (components path) c \<longrightarrow>
      survives d (components path) c \<or>
      (\<exists>dc. load_doc (in_yaml inp) (in_read_fault inp) path d = Inr dc \<and>
        validated_save (in_ui inp) (in_yaml inp) (keys_read (in_editor_turns inp))
          (app_new path dc, d) c))"
proof (cases "written_file inp args")
  case None
  with main_disk [OF assms] show ?thesis by simp
next
  case (Some path)
  with main_disk [OF assms] have "survives d' (components path) c \<Longrightarrow>
      disk_ok d (tmp_of (components path)) (components path) \<Longrightarrow>
      file_name (components path) \<noteq> None \<Longrightarrow> old_or_validated inp path d c" for c
    by simp
  with Some show ?thesis unfolding old_or_validated_def [symmetric] by auto
qed

lemma program_crash_safe_witness:
  "\<not> survives (snd (snd (main sample_terminal strict_inputs [''sgcia''] (''shell'', plain_disk))))
     (components ''c.yaml'') (Some (printed bare_doc))"
proof
  let ?run = "main sample_terminal strict_inputs [''sgcia''] (''shell'', plain_disk)"
  assume left: "survives (snd (snd ?run)) (components ''c.yaml'') (Some (printed bare_doc))"
  have "yaml_maps_ok (in_yaml strict_inputs)" by (simp add: strict_inputs_sel plain_yaml_maps)
  moreover have "?run = (fst ?run, fst (snd ?run), snd (snd ?run))" by simp
  moreover have "file_name (components ''c.yaml'') \<noteq> None" by (simp add: sample_path)
  ultimately show False
    using program_crash_safe [of strict_inputs sample_terminal "[''sgcia'']"] left plain_disk_ok
      strict_inputs_sel(2) [of "[''sgcia'']"] bare_text_new strict_saves_nothing
    by metis
qed

text \<open>
  C3. While the editor does not show its unsaved mark, the file is in step with the screen:
  loading it again gives exactly the document being edited, after any keys and failed saves.
\<close>

theorem unsaved_mark_truthful:
  assumes "yaml_lawful y" and "disk_ok d (tmp_of (components path)) (components path)"
    and "file_name (components path) \<noteq> None"
    and "editor_run ui y None ks path d = Inr (Inr app, d')" and "\<not> dirty app"
  shows "load_doc y None path d' = Inr (doc app)"
proof -
  from assms(4) obtain dc where load: "load_doc y None path d = Inr dc"
    and run: "run_keys ui y ks (app_new path dc, d) = (Inr app, d')"
    by (auto simp: editor_run_def split: sum.splits)
  have start: "config_path (app_new path dc) = path \<and> disk_usable path d"
    using assms(2,3) by (simp add: app_new_def disk_usable_def)
  have "config_path app = path"
    using usable_disk.run_inv [of "(app_new path dc, d)" path ui y ks "(app, d')"] start run
    by (auto simp: run_keys_machine split: sum.splits prod.splits)
  moreover have "in_step y (app, d')"
    by (rule run_keys_in_step [OF assms(1) app_new_in_step [OF load assms(2,3)] run])
  ultimately show ?thesis using assms(5) by (simp add: in_step_def)
qed

lemma unsaved_mark_truthful_witness:
  "\<exists>app d'. editor_run plain_ui plain_yaml None bare_keys ''c.yaml'' plain_disk = Inr (Inr app, d') \<and>
     load_doc plain_yaml None ''c.yaml'' d' = Inr bare_doc"
proof -
  obtain app d' where run:
    "editor_run plain_ui plain_yaml None bare_keys ''c.yaml'' plain_disk = Inr (Inr app, d')"
    and saved: "doc app = bare_doc" "\<not> dirty app"
    using bare_run by blast
  have "file_name (components ''c.yaml'') \<noteq> None" by (simp add: sample_path)
  from unsaved_mark_truthful [OF plain_yaml_lawful plain_disk_ok this run saved(2)] run saved(1)
  show ?thesis by auto
qed

text \<open>
  C4. Every key is a step of the abstract configuration: it leaves the configuration alone,
  puts or removes one component (with its references), or puts or removes one pipeline.
\<close>

theorem keys_refine_config:
  assumes "app_ok app" and "on_key ui y w k (app, d) = (Inr app', d')"
  shows "config_step (abs_doc (doc app)) (abs_doc (doc app'))"
  by (rule on_key_refines [OF assms])

lemma sample_app_sel [simp]:
  "doc (sample_app s) = sample_doc" "screen (sample_app s) = s" "show_help (sample_app s) = False"
  "dirty (sample_app s) = False" "config_path (sample_app s) = ''c.yaml''"
  by (simp_all add: sample_app_def app_new_def)

lemma sample_app_ok: "screen_ok sample_doc s \<Longrightarrow> app_ok (sample_app s)"
  by (simp add: app_ok_def sample_doc_ok)

lemma sample_ids: "ids_for_tab sample_doc Receivers = [''syslog/udp'']"
  by code_simp

lemma sample_delete_pipeline:
  "on_key plain_ui sample_yaml sample_world (key KDelete) (sample_app (TopLevel Pipelines 0), sample_disk) =
   (Inr (change_doc (\<lambda>dc. dc\<lparr>pipelines := []\<rparr>) ''removed logs'' (sample_app (TopLevel Pipelines 0))),
    sample_disk)"
  by (simp add: on_key_def handle_key_def handle_top_level_def top_level_key_def delete_selected_def
      ids_for_tab_def sample_doc_def map_keys_def change_doc_def map_remove_def sample_app_def
      app_new_def screen_default_def)

lemma keys_refine_config_witness:
  "config_step (abs_doc sample_doc) (abs_doc (sample_doc\<lparr>pipelines := []\<rparr>))"
proof -
  have "screen_ok sample_doc (TopLevel Pipelines 0)" by simp
  from keys_refine_config [OF sample_app_ok [OF this] sample_delete_pipeline] show ?thesis
    by simp
qed

section \<open>The whole program\<close>

text \<open>
  C5. Where the terminal can be entered, the program never panics, whatever the command, the
  file, the keys and the failures of drawing and reading: every screen can be drawn and every key
  handled. And however it ends on its own, by an error or a panic of the terminal too, the
  terminal is usable again.
\<close>

theorem program_exits_cleanly:
  assumes "yaml_maps_ok (in_yaml inp)" and "term_laws lib usable" and "usable t"
    and "main lib inp args (t, d) = (ending, t', d')"
  shows "(fst (term_init lib t) \<longrightarrow> ending \<noteq> Panicked) \<and>
    (ending \<noteq> PowerLost \<longrightarrow> ending \<noteq> Waiting_input \<longrightarrow> usable t')"
  using main_ending [OF assms(1,4)] assms(2,3) by blast

lemma program_exits_cleanly_witness:
  "fst (snd (main sample_terminal (sample_inputs [(SizeError ''no size'', Inl ''eof'')])
     [''sgcia''] (''usable'', sample_disk))) = ''usable''"
proof -
  let ?inp = "sample_inputs [(SizeError ''no size'', Inl ''eof'')]"
  let ?run = "main sample_terminal ?inp [''sgcia''] (''usable'', sample_disk)"
  have ending: "fst ?run = Finished (Inl ''no size'')"
    by (simp add: main_def sample_inputs_def editor_main_def sample_load with_terminal_def sample_terminal_def)
  have "yaml_maps_ok (in_yaml ?inp)" by (simp add: sample_maps)
  moreover have "?run = (fst ?run, fst (snd ?run), snd (snd ?run))" by simp
  ultimately show ?thesis
    using program_exits_cleanly [OF _ sample_terminal_laws, of ?inp "''usable''" "[''sgcia'']" sample_disk] ending
    by fastforce
qed

text \<open>
  C6. The editor's loop, with the failures of the terminal, is the run over the keys read before
  the first failure: it leaves the same disk, ends without an error exactly after a key that quits,
  and otherwise by the failure, a power failure in a save, or waiting for more.
\<close>

theorem editor_loop_is_key_run:
  assumes "app_ok app" and "editor_loop ui y turns (app, d) = (ending, d')"
  shows "\<exists>r. run_keys ui y (keys_read turns) (app, d) = (r, d') \<and> agrees ending r"
  using editor_loop_keys [OF assms(1), of ui y turns d] assms(2) by simp

lemma editor_loop_is_key_run_witness:
  "\<exists>r. run_keys plain_ui sample_yaml [] (sample_app (TopLevel Receivers 0), sample_disk) = (r, sample_disk) \<and>
     agrees (Finished (Inl ''hung up'')) r"
proof -
  let ?turns = "[(Shown, Inr (sample_world, OtherEvent)), (SizeError ''hung up'', Inr (sample_world, KeyEvent (key KDelete)))]"
  have ok: "app_ok (sample_app (TopLevel Receivers 0))" by (rule sample_app_ok) code_simp
  have "\<exists>ws. draw plain_ui sample_yaml (sample_app (TopLevel Receivers 0)) = Some ws" by (rule draw_ok [OF ok])
  then have "editor_loop plain_ui sample_yaml ?turns (sample_app (TopLevel Receivers 0), sample_disk) =
      (Finished (Inl ''hung up''), sample_disk)"
    by (auto simp: sample_app_def app_new_def)
  from editor_loop_is_key_run [OF ok this] show ?thesis by simp
qed

section \<open>Saving\<close>

lemma sample_writable: "writable sample_disk (components ''c.yaml'')"
  by (simp add: writable_def sample_disk_def sample_path is_dir_def)

lemma sample_saved:
  "fst (save_doc sample_os sample_yaml (\<lambda>_. NoFault) ''c.yaml'' sample_doc sample_disk) = Some (Inr ())"
proof -
  have written: "fst (atomic_write (\<lambda>_. NoFault) ''c.yaml'' ''doc'' sample_disk) = Done ()"
    by (rule atomic_write_done [OF sample_writable]) (simp add: sample_path)
  have print: "yaml_print sample_yaml (doc_to_value sample_doc) = Inr ''doc''"
    by (simp add: sample_yaml_def)
  have valid: "validate_with_binary sample_os sample_yaml bin sample_doc = Inr ()" for bin
    by (simp add: validate_accepts sample_validated)
  with written obtain d' where "atomic_write (\<lambda>_. NoFault) ''c.yaml'' ''doc'' sample_disk = (Done (), d')"
    by (metis prod.collapse)
  then show ?thesis
    by (simp add: save_doc_def save_with_binary_def valid print)
qed

text \<open>
  C7. A save reports success only for a document the validator accepted, whose printed form is
  then what the file holds; after any other outcome, errors and a power failure included, a
  reader finds in the file what it found before.
\<close>

theorem save_is_sound:
  assumes "disk_ok d (tmp_of (components path)) (components path)"
    and "file_name (components path) \<noteq> None"
    and "save_doc os y faults path dc d = (res, d')"
  shows "if res = Some (Inr ())
    then accepted os y (otelcol_binary_path os d) dc \<and>
      map_option Inr (read_disk d' (components path)) = Some (yaml_print y (doc_to_value dc))
    else read_disk d' (components path) = read_disk d (components path)"
  using save_result [OF assms(1,2) assms(3) [unfolded save_doc_def]] by auto

lemma save_is_sound_witness:
  "read_disk (snd (save_doc sample_os sample_yaml (\<lambda>_. NoFault) ''c.yaml'' sample_doc sample_disk))
     (components ''c.yaml'') = Some ''doc''"
proof -
  let ?run = "save_doc sample_os sample_yaml (\<lambda>_. NoFault) ''c.yaml'' sample_doc sample_disk"
  have "?run = (Some (Inr ()), snd ?run)" by (metis prod.collapse sample_saved)
  from save_is_sound [OF sample_disk_ok _ this] show ?thesis
    by (auto simp: sample_path sample_yaml_def)
qed

text \<open>
  C8. However its calls fail and wherever the power does, an atomic write leaves on the medium
  exactly what a failure might have left there before or, once it completed, the whole new text:
  never a mixture, and nothing at all of a write that did not complete. No call syncs the
  directory, so a completed write may itself be lost with the power.
\<close>

theorem atomic_write_crash_safe:
  assumes "disk_ok d (tmp_of (components path)) (components path)"
    and "file_name (components path) \<noteq> None"
  shows "survives (snd (atomic_write faults path contents d)) (components path) c \<longleftrightarrow>
    survives d (components path) c \<or>
    fst (atomic_write faults path contents d) = Done () \<and> c = Some contents"
proof -
  obtain out d' where run: "atomic_write faults path contents d = (out, d')" by force
  with atomic_write_spec [OF assms refl run] show ?thesis by auto
qed

lemma atomic_write_crash_safe_witness:
  "\<not> survives (snd (atomic_write (\<lambda>_. NoFault) ''c.yaml'' ''new'' sample_disk)) (components ''c.yaml'')
     (Some ''ne'') \<and>
   survives (snd (atomic_write (\<lambda>_. NoFault) ''c.yaml'' ''new'' sample_disk)) (components ''c.yaml'')
     (Some ''new'')"
proof -
  have name: "file_name (components ''c.yaml'') = Some ''c.yaml''" by (simp add: sample_path)
  then have "file_name (components ''c.yaml'') \<noteq> None" by simp
  note this_write = atomic_write_crash_safe [OF sample_disk_ok this]
  have "\<not> survives sample_disk (components ''c.yaml'') (Some ''ne'')"
    by (auto simp: tables_def sample_disk_def elim!: survives_SomeE split: if_splits)
  then show ?thesis
    using atomic_write_done [OF sample_writable name, of "''new''"] by (simp add: this_write)
qed

text \<open>
  C9. An atomic write is not vacuously safe: where no call fails and no file stands in place of
  a directory, it makes the missing directories and succeeds, and the file holds the new text.
\<close>

theorem atomic_write_completes:
  assumes "disk_ok d (tmp_of (components path)) (components path)"
    and "writable d (components path)" and "file_name (components path) \<noteq> None"
  shows "\<exists>d'. atomic_write (\<lambda>_. NoFault) path contents d = (Done (), d') \<and>
    read_disk d' (components path) = Some contents"
proof -
  obtain n where "file_name (components path) = Some n" using assms(3) by blast
  then have fin: "fst (atomic_write (\<lambda>_. NoFault) path contents d) = Done ()"
    by (rule atomic_write_done [OF assms(2)])
  obtain out d' where run: "atomic_write (\<lambda>_. NoFault) path contents d = (out, d')" by force
  with atomic_write_spec [OF assms(1,3) refl run] fin show ?thesis by auto
qed

lemma atomic_write_completes_witness:
  "\<exists>d'. atomic_write (\<lambda>_. NoFault) ''c.yaml'' ''new'' sample_disk = (Done (), d') \<and>
     read_disk d' (components ''c.yaml'') = Some ''new''"
  by (rule atomic_write_completes [OF sample_disk_ok sample_writable]) (simp add: sample_path)

text \<open>
  C10. A document that was saved loads back as it was, component for component, wherever the YAML
  crate's printed form of it parses back.
\<close>

theorem save_then_load:
  assumes "disk_ok d (tmp_of (components path)) (components path)"
    and "file_name (components path) \<noteq> None" and "yaml_round_trips y (doc_to_value dc)"
    and "save_doc os y faults path dc d = (Some (Inr ()), d')"
  shows "load_doc y None path d' = Inr dc"
  using save_load [OF assms(1-3) assms(4) [unfolded save_doc_def]] .

lemma save_then_load_witness:
  "load_doc plain_yaml None ''c.yaml''
     (snd (save_doc sample_os plain_yaml (\<lambda>_. NoFault) ''c.yaml'' bare_doc plain_disk)) = Inr bare_doc"
proof -
  let ?run = "save_doc sample_os plain_yaml (\<lambda>_. NoFault) ''c.yaml'' bare_doc plain_disk"
  have "?run = (Some (Inr ()), snd ?run)" using bare_saved by (metis prod.sel(2))
  moreover have "yaml_round_trips plain_yaml (doc_to_value bare_doc)"
    using plain_yaml_lawful by (simp add: yaml_lawful_def)
  moreover have "file_name (components ''c.yaml'') \<noteq> None" by (simp add: sample_path)
  ultimately show ?thesis using save_then_load [OF plain_disk_ok] by blast
qed

section \<open>Removing\<close>

text \<open>
  C11. Confirming a removal removes the component and nothing else but the references to it. Every
  other component is as it was; the pipelines are the same, in the same order; each has the same
  keys and the same values, except that the component's name is gone from the list of its
  category, whose other entries keep their order.
\<close>

theorem removal_leaves_no_reference:
  assumes "app_ok app" and "screen app = ConfirmRemove category cid blocking"
    and "\<not> show_help app" and "on_key ui y w (key (KChar ''y'')) (app, d) = (Inr app', d')"
  shows "(\<forall>c x. map_get (map_for c (doc app')) x =
      (if c = category \<and> x = cid then None else map_get (map_for c (doc app)) x)) \<and>
    list_all2 (\<lambda>(name, def) (name', def'). name' = name \<and> component_dropped category cid def def')
      (pipelines (doc app)) (pipelines (doc app')) \<and>
    list_all (\<lambda>p. \<not> mentions category cid (snd p)) (pipelines (doc app')) \<and>
    pipelines_referencing (doc app') category cid = [] \<and>
    ((category', cid') \<noteq> (category, cid) \<longrightarrow>
      pipelines_referencing (doc app') category' cid' = pipelines_referencing (doc app) category' cid')"
proof (rule removed_clean)
  show "doc_ok (doc app)" using assms(1) by (simp add: app_ok_def)
  show "doc app' = with_map_for category (\<lambda>m. map_remove m cid)
      (strip_from_pipelines category cid (doc app))"
    using confirm_removal [OF assms] by simp
qed

lemma sample_references: "pipelines_referencing sample_doc Receiver ''syslog/udp'' = [''logs'']"
  by code_simp

lemma removal_leaves_no_reference_witness:
  "\<exists>app'. on_key plain_ui sample_yaml sample_world (key (KChar ''y''))
      (sample_app (ConfirmRemove Receiver ''syslog/udp'' [''logs'']), sample_disk) = (Inr app', sample_disk) \<and>
    map_get (receivers (doc app')) ''syslog/udp'' = None \<and>
    list_all2 (\<lambda>(name, def) (name', def'). name' = name \<and> entry_dropped ''receivers'' ''syslog/udp'' def def')
      (pipelines sample_doc) (pipelines (doc app'))"
proof -
  let ?app = "sample_app (ConfirmRemove Receiver ''syslog/udp'' [''logs''])"
  have ok: "app_ok ?app"
    by (rule sample_app_ok) (simp add: sample_references, simp add: sample_doc_def contains_key_def map_get_def)
  obtain app' where run: "on_key plain_ui sample_yaml sample_world (key (KChar ''y'')) (?app, sample_disk) =
      (Inr app', sample_disk)"
    by (simp add: on_key_def handle_key_def handle_confirm_remove_def)
  from removal_leaves_no_reference [OF ok sample_app_sel(2) _ run] have
    "\<forall>c x. map_get (map_for c (doc app')) x =
      (if c = Receiver \<and> x = ''syslog/udp'' then None else map_get (map_for c sample_doc) x)"
    "list_all2 (\<lambda>(name, def) (name', def'). name' = name \<and> component_dropped Receiver ''syslog/udp'' def def')
      (pipelines sample_doc) (pipelines (doc app'))"
    by simp_all
  with run spec [OF this(1), of Receiver] show ?thesis by simp
qed

text \<open>
  C12. The delete key removes a component at once exactly when no pipeline's list mentions it, and
  then removes nothing else; otherwise nothing changes yet, and the confirmation lists, sorted and
  without repetition, exactly the names of the pipelines that mention it.
\<close>

theorem delete_asks_first:
  assumes "app_ok app" and "screen app = TopLevel tab selected" and "tab_category tab = Some category"
    and "nth_opt (ids_for_tab (doc app) tab) selected = Some cid" and "\<not> show_help app"
    and "code k = KDelete \<or> code k = KChar ''d''"
    and "on_key ui y w k (app, d) = (Inr app', d')"
  shows "if list_all (\<lambda>p. \<not> mentions category cid (snd p)) (pipelines (doc app))
    then dirty app' \<and> pipelines (doc app') = pipelines (doc app) \<and>
      (\<forall>c x. map_get (map_for c (doc app')) x =
        (if c = category \<and> x = cid then None else map_get (map_for c (doc app)) x))
    else doc app' = doc app \<and> dirty app' = dirty app \<and>
      (\<exists>names. screen app' = ConfirmRemove category cid names \<and> sorted names \<and> distinct names \<and>
        set names = {name. \<exists>def. map_get (pipelines (doc app)) name = Some def \<and> mentions category cid def})"
  by (rule delete_key [OF assms])

lemma sample_app_screen [simp]: "(sample_app s)\<lparr>screen := t\<rparr> = sample_app t"
  by (simp add: sample_app_def)

lemma delete_asks_first_witness:
  "\<exists>app' names. on_key plain_ui sample_yaml sample_world (key KDelete)
      (sample_app (TopLevel Receivers 0), sample_disk) = (Inr app', sample_disk) \<and>
    screen app' = ConfirmRemove Receiver ''syslog/udp'' names \<and> ''logs'' \<in> set names \<and>
    doc app' = sample_doc"
proof -
  let ?app = "sample_app (TopLevel Receivers 0)"
  obtain app' where run: "on_key plain_ui sample_yaml sample_world (key KDelete) (?app, sample_disk) =
      (Inr app', sample_disk)"
    by (simp add: on_key_def handle_key_def handle_top_level_def top_level_key_def
        delete_selected_def sample_ids sample_references Let_def)
  have ok: "app_ok ?app" by (rule sample_app_ok) (simp add: sample_ids)
  have sel: "nth_opt (ids_for_tab (doc ?app) Receivers) 0 = Some ''syslog/udp''" by (simp add: sample_ids)
  have used: "map_get (pipelines sample_doc) ''logs'' \<noteq> None"
    "\<not> list_all (\<lambda>p. \<not> mentions Receiver ''syslog/udp'' (snd p)) (pipelines sample_doc)"
    "list_all (\<lambda>p. mentions Receiver ''syslog/udp'' (snd p)) (pipelines sample_doc)"
    by code_simp+
  then obtain def where "map_get (pipelines sample_doc) ''logs'' = Some def" "mentions Receiver ''syslog/udp'' def"
    by (force simp: list_all_iff map_get_def dest: map_of_SomeD)
  with delete_asks_first [OF ok sample_app_sel(2) _ sel _ _ run] used(2) run show ?thesis by auto
qed

text \<open>
  C13. Only a submit, a deletion and a confirmation change the document: Enter, Delete, \<open>d\<close> and
  \<open>y\<close>. Every other key, typing in a form and saving included, leaves it alone. And only \<open>s\<close> on
  the top level touches the disk.
\<close>

theorem only_confirming_keys_change:
  assumes "on_key ui y w k (app, d) = (Inr app', d')"
  shows "(\<not> changing_key k \<longrightarrow> doc app' = doc app) \<and>
    (code k \<noteq> KChar ''s'' \<or> (\<forall>tab selected. screen app \<noteq> TopLevel tab selected) \<longrightarrow> d' = d)"
  using on_key_same [OF _ assms] on_key_disk [OF assms] by blast

lemma only_confirming_keys_change_witness:
  "\<exists>app' d'. on_key plain_ui sample_yaml sample_world (key (KChar ''s''))
     (sample_app (TopLevel Receivers 0), sample_disk) = (Inr app', d') \<and> doc app' = sample_doc"
proof -
  obtain d' where "save_doc sample_os sample_yaml (\<lambda>_. NoFault) ''c.yaml'' sample_doc sample_disk =
      (Some (Inr ()), d')"
    by (metis prod.collapse sample_saved)
  then obtain app' where step: "on_key plain_ui sample_yaml sample_world (key (KChar ''s''))
     (sample_app (TopLevel Receivers 0), sample_disk) = (Inr app', d')"
    by (simp add: on_key_def handle_key_def handle_top_level_def save_key_def sample_world_def)
  have "\<not> changing_key (key (KChar ''s''))" by (simp add: changing_key_def)
  from only_confirming_keys_change [OF step] this step show ?thesis by auto
qed

section \<open>Forms\<close>

text \<open>
  C14. Opening and submitting a form settles at once: what a first submit wrote, a second one
  writes again, for every field list of the editor, unless a text was shown blank although its
  field has a default.
\<close>

theorem form_resubmit_unchanged:
  assumes "input_laws ui" and "specs \<in> set (form_specs w)"
    and "list_all (\<lambda>s. \<not> blank_reset ui s v) specs" and "submit ui ty w specs v = Some v'"
  shows "submit ui ty w specs v' = Some v'"
  by (rule submit_idem [OF assms(1) form_specs_keys_ok [OF assms(2)] assms(3,4)])

definition sample_pipeline :: json where
  "sample_pipeline = JObject [(''receivers'', JArray [JString ''syslog/udp'']),
     (''exporters'', JArray [JString ''debug'']), (''processors'', JArray [])]"

lemma form_resubmit_unchanged_witness:
  "submit plain_ui None False PIPELINE_FIELDS sample_pipeline = Some (JObject (butlast
     [(''receivers'', JArray [JString ''syslog/udp'']), (''exporters'', JArray [JString ''debug'']),
      (''processors'', JArray [])])) \<and>
   submit plain_ui None False PIPELINE_FIELDS (the (submit plain_ui None False PIPELINE_FIELDS sample_pipeline)) =
     submit plain_ui None False PIPELINE_FIELDS sample_pipeline"
proof -
  have first: "submit plain_ui None False PIPELINE_FIELDS sample_pipeline = Some (JObject
     [(''receivers'', JArray [JString ''syslog/udp'']), (''exporters'', JArray [JString ''debug''])])"
    by code_simp
  have kept: "list_all (\<lambda>s. \<not> blank_reset plain_ui s sample_pipeline) PIPELINE_FIELDS"
    by code_simp
  have "PIPELINE_FIELDS \<in> set (form_specs False)" by (simp add: form_specs_def)
  from form_resubmit_unchanged [OF plain_ui_laws this kept first] first show ?thesis by simp
qed

text \<open>
  C15. Enter on a component's form writes exactly the fields shown: in the value stored under the
  component's id, each field's path holds what the field's widget stands for (and nothing where
  the widget is blank), whatever the paths' nesting; the rest of the document is as it was.
\<close>

theorem form_writes_its_fields:
  assumes "app_ok app" and "screen app = EditComponent category cid form"
    and "\<not> show_help app" and "focused_kind form \<noteq> Some OperatorList"
    and "on_key ui y w (key KEnter) (app, d) = (Inr app', d')"
  shows "\<exists>v. doc app' = with_map_for category (\<lambda>m. map_insert m cid v) (doc app) \<and> dirty app' \<and>
    (\<forall>i < length (fields_spec form).
      Some (get_path v (fkey (fields_spec form ! i))) = field_value ui (fstates form ! i))"
proof -
  from submit_component [OF assms] obtain v where "to_value ui form = Some v" "dirty app'"
    "doc app' = with_map_for category (\<lambda>m. map_insert m cid v) (doc app)" by blast
  with submit_component_field [OF assms(1,2)] show ?thesis by blast
qed

definition sample_form :: "string form_state" where
  "sample_form = \<lparr>type_name = Some ''debug'', write_type_key = False, fields_spec = DEBUG_FIELDS,
     fstates = [EnumState [''basic'', ''normal'', ''detailed''] 2], focused = 0\<rparr>"

lemma sample_form_ok: "app_ok (sample_app (EditComponent Exporter ''debug'' sample_form))"
proof (rule sample_app_ok)
  have "component_form Exporter sample_form" by code_simp
  moreover have "usable_id (exporters sample_doc) ''debug''" by code_simp
  ultimately show "screen_ok sample_doc (EditComponent Exporter ''debug'' sample_form)" by simp
qed

lemma sample_form_focus: "focused_kind sample_form \<noteq> Some OperatorList"
  by code_simp

lemma sample_form_value: "to_value plain_ui sample_form = Some (JObject [(''verbosity'', JString ''detailed'')])"
  by code_simp

lemma sample_form_enter:
  "on_key plain_ui sample_yaml sample_world (key KEnter)
     (sample_app (EditComponent Exporter ''debug'' sample_form), sample_disk) =
   (Inr ((change_doc (with_map_for Exporter (\<lambda>m. map_insert m ''debug''
        (JObject [(''verbosity'', JString ''detailed'')])))
      (updated_message ''debug'') (sample_app (EditComponent Exporter ''debug'' sample_form)))
      \<lparr>screen := TopLevel Exporters 0\<rparr>), sample_disk)"
  using sample_form_focus
  by (simp add: on_key_def handle_key_def handle_edit_component_def form_on_key_def
      sample_form_value change_doc_def sample_app_def app_new_def del: sample_app_screen)

lemma form_writes_its_fields_witness:
  "\<exists>v. with_map_for Exporter (\<lambda>m. map_insert m ''debug''
        (JObject [(''verbosity'', JString ''detailed'')])) sample_doc =
      with_map_for Exporter (\<lambda>m. map_insert m ''debug'' v) sample_doc \<and>
    get_path v ''verbosity'' = Some (JString ''detailed'')"
proof -
  have field: "0 < length (fields_spec sample_form)" "fkey (fields_spec sample_form ! 0) = ''verbosity''"
    "field_value plain_ui (fstates sample_form ! 0) = Some (Some (JString ''detailed''))"
    by code_simp+
  from form_writes_its_fields [OF sample_form_ok _ _ sample_form_focus sample_form_enter]
  obtain v where v: "with_map_for Exporter (\<lambda>m. map_insert m ''debug''
        (JObject [(''verbosity'', JString ''detailed'')])) sample_doc =
      with_map_for Exporter (\<lambda>m. map_insert m ''debug'' v) sample_doc"
    "\<forall>i < length (fields_spec sample_form).
      Some (get_path v (fkey (fields_spec sample_form ! i))) = field_value plain_ui (fstates sample_form ! i)"
    by (auto simp: change_doc_def)
  from v(2) field have "get_path v ''verbosity'' = Some (JString ''detailed'')" by fastforce
  with v(1) show ?thesis by blast
qed

text \<open>
  C16. And it writes nothing else: at any path apart from those of the form, the stored value has
  nothing, so a field of the component that its form does not show is gone once the form is
  submitted.
\<close>

theorem form_writes_nothing_else:
  assumes "app_ok app" and "screen app = EditComponent category cid form"
    and "\<not> show_help app" and "focused_kind form \<noteq> Some OperatorList"
    and "on_key ui y w (key KEnter) (app, d) = (Inr app', d')"
    and "list_all (\<lambda>s. paths_apart (fkey s) q) (fields_spec form)"
  shows "\<exists>v. map_get (map_for category (doc app')) cid = Some v \<and> get_path v q = None"
proof -
  from submit_component [OF assms(1-5)] obtain v where v: "to_value ui form = Some v"
    "doc app' = with_map_for category (\<lambda>m. map_insert m cid v) (doc app)" by blast
  have "map_get (map_for category (doc app')) cid = Some v"
    using v(2) by (simp add: map_for_with map_get_insert)
  with submit_component_other [OF assms(1,2) v(1) assms(6)] show ?thesis by blast
qed

lemma form_writes_nothing_else_witness:
  "\<exists>v. map_get [(''debug'', JObject [(''verbosity'', JString ''detailed'')])] ''debug'' = Some v \<and>
     get_path v ''use_internal_logger'' = None"
proof -
  have "list_all (\<lambda>s. paths_apart (fkey s) ''use_internal_logger'') (fields_spec sample_form)"
    by code_simp
  from form_writes_nothing_else [OF sample_form_ok _ _ sample_form_focus sample_form_enter this]
  show ?thesis by (simp add: change_doc_def sample_doc_def map_insert_def)
qed

text \<open>
  C17. An operator's own form reaches the document: Enter on it, Esc from the list and Enter on
  the component store the component with the operators of its form, in which the edited one is
  replaced at its place, or the new one is appended, and every other operator is as it was. No
  other component and no pipeline changes.
\<close>

theorem operator_edit_reaches_document:
  assumes "app_ok app" and "screen app = OperatorEdit category cid form index op_form"
    and "focused_kind form = Some OperatorList" and "\<not> show_help app" and "\<not> should_quit app"
  shows "\<exists>op app' v. to_value ui op_form = Some op \<and>
    run_keys ui y [(w, key KEnter), (w, key KEsc), (w, key KEnter)] (app, d) = (Inr app', d) \<and>
    map_get (map_for category (doc app')) cid = Some v \<and>
    (case index of
       Some i \<Rightarrow> i < length (operators form) \<and>
         get_path v ''operators'' = Some (JArray ((operators form)[i := op]))
     | None \<Rightarrow> get_path v ''operators'' = Some (JArray (operators form @ [op]))) \<and>
    pipelines (doc app') = pipelines (doc app) \<and>
    (\<forall>c x. (c, x) \<noteq> (category, cid) \<longrightarrow>
      map_get (map_for c (doc app')) x = map_get (map_for c (doc app)) x)"
proof -
  from operator_steps [OF assms, of ui y w d] obtain op app' v where
    "to_value ui op_form = Some op" "\<forall>i. index = Some i \<longrightarrow> i < length (operators form)"
    "run_keys ui y [(w, key KEnter), (w, key KEsc), (w, key KEnter)] (app, d) = (Inr app', d)"
    "get_path v ''operators'' = Some (JArray
      (case index of Some i \<Rightarrow> (operators form)[i := op] | None \<Rightarrow> operators form @ [op]))"
    and stored: "doc app' = with_map_for category (\<lambda>m. map_insert m cid v) (doc app)"
    by blast
  with stored_component [OF stored] show ?thesis
    by (intro exI [of _ op] exI [of _ app'] exI [of _ v]) (auto split: option.splits)
qed

definition two_operators :: json where
  "two_operators = JObject [(''operators'', JArray
     [JObject [(''type'', JString ''remove''), (''field'', JString ''attributes.old'')],
      JObject [(''type'', JString ''noop'')]])]"

definition sample_receiver_form :: "string form_state" where
  "sample_receiver_form = (the (form_new plain_ui (Some ''syslog'') False SYSLOG_FIELDS two_operators))\<lparr>focused := 4\<rparr>"

definition sample_operator_form :: "string form_state" where
  "sample_operator_form = the (form_new plain_ui (Some ''remove'') True REMOVE_FIELDS
     (JObject [(''type'', JString ''remove''), (''field'', JString ''attributes.raw'')]))"

lemma sample_receiver_operators:
  "operators sample_receiver_form =
     [JObject [(''type'', JString ''remove''), (''field'', JString ''attributes.old'')],
      JObject [(''type'', JString ''noop'')]]"
  "component_form Receiver sample_receiver_form" "operator_list_index sample_receiver_form \<noteq> None"
  "focused_kind sample_receiver_form = Some OperatorList" "usable_id (receivers sample_doc) ''syslog/udp''"
  by code_simp+

text \<open>The first of two operators is replaced, the second stays.\<close>

lemma operator_edit_reaches_document_witness:
  "\<exists>app' v. run_keys plain_ui sample_yaml
      [(sample_world, key KEnter), (sample_world, key KEsc), (sample_world, key KEnter)]
      (sample_app (OperatorEdit Receiver ''syslog/udp'' sample_receiver_form (Some 0) sample_operator_form), sample_disk) =
      (Inr app', sample_disk) \<and>
    map_get (receivers (doc app')) ''syslog/udp'' = Some v \<and>
    get_path v ''operators'' = Some (JArray
      [JObject [(''field'', JString ''attributes.raw''), (''type'', JString ''remove'')],
       JObject [(''type'', JString ''noop'')]])"
proof -
  let ?scr = "OperatorEdit Receiver ''syslog/udp'' sample_receiver_form (Some 0) sample_operator_form"
  have "operator_form sample_operator_form" by code_simp
  then have ok: "app_ok (sample_app ?scr)"
    by (intro sample_app_ok) (simp add: sample_receiver_operators)
  have val: "to_value plain_ui sample_operator_form =
      Some (JObject [(''field'', JString ''attributes.raw''), (''type'', JString ''remove'')])"
    by code_simp
  have quit: "\<not> should_quit (sample_app ?scr)" by (simp add: sample_app_def app_new_def)
  from operator_edit_reaches_document [OF ok sample_app_sel(2) sample_receiver_operators(4) _ quit,
      of plain_ui sample_yaml sample_world sample_disk]
  show ?thesis by (auto simp: val sample_receiver_operators(1))
qed

text \<open>
  C18. A dot-separated path is read back where it was written, through objects made on the way
  and scalars replaced by them, and at every path apart from it the map is as it was.
\<close>

theorem path_write_read:
  "get_path (JObject (set_path m p v)) p = Some v \<and>
   (paths_apart p q \<longrightarrow> get_path (JObject (set_path m p v)) q = get_path (JObject m) q)"
  by (simp add: pa.get_put_same pa.get_put_apart)

lemma path_write_read_witness:
  "get_path (JObject (set_path [(''tls'', JObject [(''insecure'', JBool True)])] ''tls.ca_file'' JNull))
     ''tls.insecure'' = Some (JBool True)"
proof -
  have "paths_apart ''tls.ca_file'' ''tls.insecure''" by code_simp
  moreover have "get_path (JObject [(''tls'', JObject [(''insecure'', JBool True)])]) ''tls.insecure'' =
      Some (JBool True)" by code_simp
  ultimately show ?thesis
    using path_write_read [of "[(''tls'', JObject [(''insecure'', JBool True)])]" "''tls.ca_file''" JNull
        "''tls.insecure''"] by simp
qed

section \<open>Templates and tables\<close>



text \<open>
  C20. Four times Enter on a template in the list, with nothing typed, ends on the receivers tab
  with one receiver more: the template's, under its suggested id, built from the parameters'
  defaults. Nothing else of the document changes, and no key on the way panics or saves.
\<close>

theorem template_flow_inserts:
  assumes "input_laws ui" and "nth_opt SOURCE_TEMPLATES i = Some t"
    and "map_get (receivers (doc app)) (tdefault_id t) = None"
    and "screen app = TemplateBrowse i" and "\<not> show_help app" and "\<not> should_quit app"
  shows "\<exists>params app'. submit ui None False (tparams t) (JObject []) = Some params \<and>
    run_keys ui y [(w, key KEnter), (w, key KEnter), (w, key KEnter), (w, key KEnter)] (app, d) =
      (Inr app', d) \<and> screen app' = TopLevel Receivers 0 \<and> dirty app' \<and>
    doc app' = (doc app)\<lparr>receivers :=
      map_insert (receivers (doc app)) (tdefault_id t) (tbuild t params)\<rparr>"
  by (rule template_steps [OF assms])

lemma template_flow_inserts_witness:
  "\<exists>receiver app'. run_keys plain_ui sample_yaml
      [(sample_world, key KEnter), (sample_world, key KEnter), (sample_world, key KEnter),
       (sample_world, key KEnter)] (sample_app (TemplateBrowse 0), sample_disk) = (Inr app', sample_disk) \<and>
    map_get (receivers (doc app')) ''syslog/cisco_asa'' = Some receiver"
proof -
  have t: "nth_opt SOURCE_TEMPLATES 0 = Some (hd SOURCE_TEMPLATES)"
    "tdefault_id (hd SOURCE_TEMPLATES) = ''syslog/cisco_asa''"
    "map_get (receivers sample_doc) ''syslog/cisco_asa'' = None"
    by (simp_all add: SOURCE_TEMPLATES_def sample_doc_def map_get_def)
  have quit: "\<not> should_quit (sample_app (TemplateBrowse 0))" by (simp add: sample_app_def app_new_def)
  have "map_get (receivers (doc (sample_app (TemplateBrowse 0)))) (tdefault_id (hd SOURCE_TEMPLATES)) = None"
    using t by simp
  from template_flow_inserts [OF plain_ui_laws t(1) this sample_app_sel(2) _ quit,
      of sample_yaml sample_world sample_disk]
  show ?thesis using t(2) by (fastforce simp: map_get_insert)
qed

text \<open>
  C21. Going back from the review of a template keeps what was typed: after Enter on a form of
  parameters and Esc from the review, the form has the same fields and every one of them stands
  for what it stood for, whatever was typed, chosen or toggled; the document is untouched. The
  exception is excluded: a text field left blank that has a default shows the default again.
\<close>

theorem template_back_keeps_params:
  assumes "app_ok app" and "screen app = EditTemplateParams tk cid form"
    and "input_laws ui" and "\<not> show_help app" and "\<not> should_quit app"
    and "list_all2 (\<lambda>spec st. \<not> default_blanked ui spec st) (fields_spec form) (fstates form)"
  shows "\<exists>app' form'. run_keys ui y [(w, key KEnter), (w, key KEsc)] (app, d) = (Inr app', d) \<and>
    screen app' = EditTemplateParams tk cid form' \<and> fields_spec form' = fields_spec form \<and>
    map (field_value ui) (fstates form') = map (field_value ui) (fstates form) \<and>
    doc app' = doc app \<and> dirty app' = dirty app"
  by (rule template_back [OF assms])

text \<open>A form on which TCP was chosen and another port typed.\<close>

definition typed_params :: "string form_state" where
  "typed_params = (the (form_new plain_ui None False CISCO_ASA_PARAMS (JObject [])))
     \<lparr>fstates := [EnumState [''udp'', ''tcp''] 1, TextState ''0.0.0.0:6514'']\<rparr>"

lemma typed_params_ok:
  "form_ok typed_params" "\<not> write_type_key typed_params" "fields_spec typed_params = CISCO_ASA_PARAMS"
  "map (field_value plain_ui) (fstates typed_params) =
     [Some (Some (JString ''tcp'')), Some (Some (JString ''0.0.0.0:6514''))]"
  "list_all2 (\<lambda>spec st. \<not> default_blanked plain_ui spec st) (fields_spec typed_params) (fstates typed_params)"
  by code_simp+

lemma template_back_keeps_params_witness:
  "\<exists>app' form'. run_keys plain_ui sample_yaml [(sample_world, key KEnter), (sample_world, key KEsc)]
      (sample_app (EditTemplateParams ''cisco_asa'' ''syslog/asa'' typed_params), sample_disk) =
      (Inr app', sample_disk) \<and>
    screen app' = EditTemplateParams ''cisco_asa'' ''syslog/asa'' form' \<and>
    map (field_value plain_ui) (fstates form') =
      [Some (Some (JString ''tcp'')), Some (Some (JString ''0.0.0.0:6514''))]"
proof -
  let ?scr = "EditTemplateParams ''cisco_asa'' ''syslog/asa'' typed_params"
  have "template_form ''cisco_asa'' typed_params"
    using typed_params_ok by (simp add: template_form_def template_find_def SOURCE_TEMPLATES_def)
  moreover have "new_id (receivers sample_doc) ''syslog/asa''" by code_simp
  ultimately have ok: "app_ok (sample_app ?scr)" by (intro sample_app_ok) simp
  have quit: "\<not> should_quit (sample_app ?scr)" by (simp add: sample_app_def app_new_def)
  from template_back_keeps_params [OF ok sample_app_sel(2) plain_ui_laws _ quit typed_params_ok(5)]
  show ?thesis using typed_params_ok(4) by fastforce
qed

text \<open>
  C22. Removing an operator reaches the document: Delete on it, Esc from the list and Enter on the
  component store the component with the other operators in their order, and without the key
  when it was the only one. No other component and no pipeline changes.
\<close>

theorem operator_removal_reaches_document:
  assumes "app_ok app" and "screen app = OperatorListScreen category cid form selected"
    and "focused_kind form = Some OperatorList" and "\<not> show_help app" and "\<not> should_quit app"
    and "selected < length (operators form)" and "code k = KDelete \<or> code k = KChar ''d''"
  shows "\<exists>app' v. run_keys ui y [(w, k), (w, key KEsc), (w, key KEnter)] (app, d) = (Inr app', d) \<and>
    map_get (map_for category (doc app')) cid = Some v \<and>
    get_path v ''operators'' =
      (if length (operators form) = 1 then None
       else Some (JArray (take selected (operators form) @ drop (Suc selected) (operators form)))) \<and>
    pipelines (doc app') = pipelines (doc app) \<and>
    (\<forall>c x. (c, x) \<noteq> (category, cid) \<longrightarrow>
      map_get (map_for c (doc app')) x = map_get (map_for c (doc app)) x)"
proof -
  from operator_removal_steps [OF assms, of ui y w d] obtain app' v where
    "run_keys ui y [(w, k), (w, key KEsc), (w, key KEnter)] (app, d) = (Inr app', d)"
    "get_path v ''operators'' =
      (if length (operators form) = 1 then None
       else Some (JArray (take selected (operators form) @ drop (Suc selected) (operators form))))"
    and stored: "doc app' = with_map_for category (\<lambda>m. map_insert m cid v) (doc app)"
    by blast
  with stored_component [OF stored] show ?thesis by blast
qed

lemma operator_removal_reaches_document_witness:
  "\<exists>app' v. run_keys plain_ui sample_yaml
      [(sample_world, key KDelete), (sample_world, key KEsc), (sample_world, key KEnter)]
      (sample_app (OperatorListScreen Receiver ''syslog/udp'' sample_receiver_form 0), sample_disk) =
      (Inr app', sample_disk) \<and>
    map_get (receivers (doc app')) ''syslog/udp'' = Some v \<and>
    get_path v ''operators'' = Some (JArray [JObject [(''type'', JString ''noop'')]])"
proof -
  let ?scr = "OperatorListScreen Receiver ''syslog/udp'' sample_receiver_form 0"
  have ok: "app_ok (sample_app ?scr)"
    by (intro sample_app_ok) (simp add: sample_receiver_operators)
  have quit: "\<not> should_quit (sample_app ?scr)" by (simp add: sample_app_def app_new_def)
  from operator_removal_reaches_document [OF ok sample_app_sel(2) sample_receiver_operators(4) _ quit,
      of "key KDelete" plain_ui sample_yaml sample_world sample_disk]
  show ?thesis by (auto simp: sample_receiver_operators(1))
qed

text \<open>
  C23. A new component or operator starts with all its type's required fields and no others: at
  a required field's path the seed has the field's default, as a string, or else a value of the
  field's kind that is not blank, such as one of the options of a choice or a list of texts; at an
  optional field's path it has nothing.
\<close>

theorem seed_has_required_fields:
  assumes "s \<in> set (types_for category) \<union> set operator_types" and "field \<in> set (ct_fields s)"
  shows "if frequired field
    then \<exists>v. get_path (minimal_value s) (fkey field) = Some v \<and> of_kind (fkind field) v \<and>
      (case fdefault field of Some d \<Rightarrow> v = JString d | None \<Rightarrow> True)
    else get_path (minimal_value s) (fkey field) = None"
  by (rule seed_field [OF assms])

text \<open>The file receiver's paths, a required list without a default.\<close>

lemma seed_has_required_fields_witness:
  "\<exists>v. get_path (minimal_value (RECEIVER_TYPES ! 1)) ''include'' = Some v \<and> of_kind StringList v"
proof -
  have s: "RECEIVER_TYPES ! 1 \<in> set (types_for Receiver) \<union> set operator_types"
    by (simp add: types_for.simps RECEIVER_TYPES_def)
  have field: "hd (ct_fields (RECEIVER_TYPES ! 1)) \<in> set (ct_fields (RECEIVER_TYPES ! 1))"
    and sel: "frequired (hd (ct_fields (RECEIVER_TYPES ! 1)))"
      "fkey (hd (ct_fields (RECEIVER_TYPES ! 1))) = ''include''"
      "fkind (hd (ct_fields (RECEIVER_TYPES ! 1))) = StringList"
    by code_simp+
  from seed_has_required_fields [OF s field] sel show ?thesis by auto
qed

text \<open>
  C24. Enter on the prompt for a new component's id accepts exactly an id that is, once trimmed,
  not empty and not taken, and opens the form of the chosen type; otherwise the prompt stays,
  says why, and the document is untouched either way.
\<close>

theorem new_id_prompt:
  assumes "app_ok app" and "screen app = NameNewComponent category ty input"
    and "\<not> show_help app" and "on_key ui y w (key KEnter) (app, d) = (Inr app', d')"
  shows "doc app' = doc app \<and>
    (if new_id (map_for category (doc app)) (trim (input_value ui input))
     then \<exists>form. screen app' = EditComponent category (trim (input_value ui input)) form \<and>
       type_name form = Some ty
     else screen app' = NameNewComponent category ty input \<and>
       status_message app' = Some (taken_message (trim (input_value ui input))))"
  by (rule name_prompt [OF assms])

lemma new_id_prompt_witness:
  "\<exists>app'. on_key plain_ui sample_yaml sample_world (key KEnter)
      (sample_app (NameNewComponent Exporter ''debug'' '' debug ''), sample_disk) = (Inr app', sample_disk) \<and>
    screen app' = NameNewComponent Exporter ''debug'' '' debug ''"
proof -
  let ?app = "sample_app (NameNewComponent Exporter ''debug'' '' debug '')"
  have trimmed: "trim '' debug '' = ''debug''" by code_simp
  have taken: "contains_key (exporters sample_doc) ''debug''" by code_simp
  have "type_spec Exporter ''debug'' \<noteq> None" by (simp add: type_spec_def types_for.simps EXPORTER_TYPES_def)
  then have ok: "app_ok ?app" by (intro sample_app_ok) simp
  have val: "input_value plain_ui '' debug '' = '' debug ''" by (simp add: plain_ui_def)
  have run: "\<exists>app'. on_key plain_ui sample_yaml sample_world (key KEnter) (?app, sample_disk) = (Inr app', sample_disk)"
    by (simp add: on_key_def handle_key_def handle_name_component_def val trimmed taken Let_def)
  then obtain app' where step: "on_key plain_ui sample_yaml sample_world (key KEnter) (?app, sample_disk) =
      (Inr app', sample_disk)" by blast
  from new_id_prompt [OF ok sample_app_sel(2) _ step] step show ?thesis
    by (auto simp: val trimmed taken new_id_def)
qed

section \<open>References, placeholders and the validator\<close>

text \<open>
  C25. A save the validator rejects changes nothing and is reported: the file and the document
  stay, the unsaved mark stays, and the status shows the validator's own message.
\<close>

theorem rejected_save_is_reported:
  assumes "yaml_print y (placeholder_for_validation (doc_to_value (doc app))) = Inr txt"
    and "tmp_file (world_os w) = Inr tmp" and "tmp_write (world_os w) = None"
    and "tmp_flush (world_os w) = None"
    and "run (world_os w) (otelcol_binary_path (world_os w) d) [''validate'', ''--config'', ''file:'' @ tmp] txt = Inr output"
    and "\<not> exit_success output" and "trim (stderr_text output) \<noteq> []"
    and "screen app = TopLevel tab selected" and "\<not> show_help app"
    and "on_key ui y w (key (KChar ''s'')) (app, d) = (Inr app', d')"
  shows "d' = d \<and> doc app' = doc app \<and> dirty app' = dirty app \<and> screen app' = screen app \<and>
    (\<exists>hint. status_message app' =
      Some (''save failed: invalid config: '' @ trim (stderr_text output) @ hint))"
proof -
  have "validate_with_binary (world_os w) y (otelcol_binary_path (world_os w) d) (doc app) =
      Inl (Invalid (trim (stderr_text output)))"
    using validate_message [OF assms(1-6)] assms(7) by auto
  then have "save_doc (world_os w) y (world_faults w) (config_path app) (doc app) d =
      (Some (Inl (Invalid (trim (stderr_text output)))), d)"
    by (simp add: save_doc_def save_with_binary_def)
  with assms(8-10) show ?thesis
    by (auto simp: on_key_def handle_key_def handle_top_level_def save_key_def after_save_def Let_def
        split: option.splits)
qed

lemma rejected_save_is_reported_witness:
  "\<exists>app' hint. on_key plain_ui sample_yaml strict_world (key (KChar ''s''))
      (sample_app (TopLevel Receivers 0), sample_disk) = (Inr app', sample_disk) \<and>
    status_message app' = Some (''save failed: invalid config: bad receiver'' @ hint)"
proof -
  let ?app = "sample_app (TopLevel Receivers 0)"
  let ?out = "\<lparr>exit_success = False, exit_text = ''1'', stderr_text = ''bad receiver''\<rparr>"
  have print: "yaml_print sample_yaml (placeholder_for_validation (doc_to_value (doc ?app))) = Inr ''doc''"
  proof -
    have "placeholder_for_validation (doc_to_value sample_doc) = doc_to_value sample_doc" by code_simp
    then show ?thesis by (simp add: sample_yaml_def)
  qed
  have os: "tmp_file (world_os strict_world) = Inr ''/tmp/sgcia.yaml''" "tmp_write (world_os strict_world) = None"
    "tmp_flush (world_os strict_world) = None" "run (world_os strict_world) b args s = Inr ?out" for b args s
    by (simp_all add: strict_world_def sample_world_def sample_os_def)
  have trimmed: "trim (stderr_text ?out) = ''bad receiver''" by code_simp
  have val: "validate_with_binary (world_os strict_world) sample_yaml b (doc ?app) =
      Inl (Invalid ''bad receiver'')" for b
    using trimmed by (simp add: validate_with_binary_def print [simplified] os Let_def)
  obtain app' where run: "on_key plain_ui sample_yaml strict_world (key (KChar ''s'')) (?app, sample_disk) =
      (Inr app', sample_disk)"
    by (simp add: on_key_def handle_key_def handle_top_level_def save_key_def save_doc_def
        save_with_binary_def val [simplified])
  from rejected_save_is_reported [OF print os(1-3) os(4) _ _ _ _ run] run trimmed show ?thesis
    by auto
qed

section \<open>What a document and a form do not keep\<close>

text \<open>
  C26. Of a document nothing is lost on the way through a JSON value; but a JSON value has room
  for those parts only: the four top-level keys, and under \<open>service\<close> the sorted list of all
  extensions and the pipelines. Any other key of a loaded file is dropped by the next save.
\<close>

theorem document_round_trip:
  "doc_of_value (doc_to_value dc) = dc \<and>
   map_keys (object_of (Some (doc_to_value dc))) = [''receivers'', ''exporters'', ''extensions'', ''service''] \<and>
   Option.bind (json_get (doc_to_value dc) ''service'') as_object =
     Some [(''extensions'', JArray (map JString (sort (map_keys (extensions dc))))),
           (''pipelines'', JObject (pipelines dc))]"
  using doc_of_to_value doc_to_value_keys doc_to_value_service_keys by blast

text \<open>
  C27. A syslog receiver that listens over TCP alone, opened in its form and submitted without a
  change, comes back listening over UDP on port 514 as well.
\<close>

theorem tcp_receiver_gains_udp:
  assumes "input_laws ui" and "get_path v ''udp.listen_address'' = None"
    and "get_path v ''tcp.listen_address'' = Some (JString a)" and "a \<noteq> []"
    and "submit ui ty False SYSLOG_FIELDS v = Some v'"
  shows "one_transport v \<and> \<not> one_transport v' \<and>
    get_path v' ''udp.listen_address'' = Some (JString ''0.0.0.0:514'') \<and>
    get_path v' ''tcp.listen_address'' = Some (JString a)"
  using tcp_receiver_reopened [OF assms] assms(2,3) by (simp add: one_transport_def)

definition sample_tcp :: json where
  "sample_tcp = JObject [(''protocol'', JString ''rfc5424''),
     (''tcp'', JObject [(''listen_address'', JString ''0.0.0.0:6514'')])]"

lemma tcp_receiver_gains_udp_witness:
  "get_path (the (submit plain_ui (Some ''syslog'') False SYSLOG_FIELDS sample_tcp)) ''udp.listen_address'' =
     Some (JString ''0.0.0.0:514'')"
proof -
  have "fields_ok SYSLOG_FIELDS" using syslog_keys_ok by (simp add: keys_ok_def)
  then obtain v' where sub: "submit plain_ui (Some ''syslog'') False SYSLOG_FIELDS sample_tcp = Some v'"
    using submit_writes by blast
  have "get_path sample_tcp ''udp.listen_address'' = None"
    "get_path sample_tcp ''tcp.listen_address'' = Some (JString ''0.0.0.0:6514'')"
    by code_simp+
  from tcp_receiver_gains_udp [OF plain_ui_laws this _ sub] sub show ?thesis by simp
qed

text \<open>
  C28. A text field with a default cannot be kept blank: a form that shows it blank writes
  nothing for it, and the form opened on what was written shows, and on submit writes, the default.
\<close>

theorem blank_field_comes_back:
  assumes "input_laws ui" and "specs \<in> set (form_specs w)" and "s \<in> set specs"
    and "blank_reset ui s v" and "submit ui ty w specs v = Some v'"
    and "submit ui ty w specs v' = Some v''"
  shows "get_path v' (fkey s) = None \<and> get_path v'' (fkey s) = map_option JString (fdefault s) \<and>
    fdefault s \<noteq> None"
  using blank_comes_back [OF assms(1) form_specs_keys_ok [OF assms(2)] assms(3-6)] assms(4)
  by (auto simp: blank_reset_def split: option.splits)

definition sample_blank :: json where
  "sample_blank = JObject [(''endpoint'', JString '''')]"

lemma blank_field_comes_back_witness:
  "\<exists>s \<in> set HEALTH_CHECK_FIELDS. get_path (the (submit plain_ui None False HEALTH_CHECK_FIELDS
     (the (submit plain_ui None False HEALTH_CHECK_FIELDS sample_blank)))) (fkey s) = map_option JString (fdefault s)"
proof -
  have mem: "HEALTH_CHECK_FIELDS \<in> set (form_specs False)"
    by (simp add: form_specs_def types_for.simps EXTENSION_TYPES_def)
  have s: "hd HEALTH_CHECK_FIELDS \<in> set HEALTH_CHECK_FIELDS" by (simp add: HEALTH_CHECK_FIELDS_def)
  have blank: "blank_reset plain_ui (hd HEALTH_CHECK_FIELDS) sample_blank" by code_simp
  have "fields_ok HEALTH_CHECK_FIELDS" using form_specs_keys_ok [OF mem] by (simp add: keys_ok_def)
  note total = submit_writes [OF this]
  obtain v' where v': "submit plain_ui None False HEALTH_CHECK_FIELDS sample_blank = Some v'"
    using total by blast
  obtain v'' where v'': "submit plain_ui None False HEALTH_CHECK_FIELDS v' = Some v''"
    using total by blast
  from blank_field_comes_back [OF plain_ui_laws mem s blank v' v''] s show ?thesis
    by (auto simp: v' v'')
qed

text \<open>
  C29. Enter on a component whose type has no form, and Enter again without a change, replaces
  the component: what is stored has nothing but the fields of the first registered type, so its
  own fields are gone.
\<close>

theorem unknown_type_overwritten:
  assumes "app_ok app" and "screen app = TopLevel tab selected" and "\<not> show_help app"
    and "\<not> should_quit app" and "tab_category tab = Some category"
    and "nth_opt (ids_for_tab (doc app) tab) selected = Some cid"
    and "type_spec category (component_type cid) = None"
  shows "\<exists>v app'. run_keys ui y [(w, key KEnter), (w, key KEnter)] (app, d) = (Inr app', d) \<and>
    dirty app' \<and> doc app' = with_map_for category (\<lambda>m. map_insert m cid v) (doc app) \<and>
    (\<forall>q. list_all (\<lambda>s. paths_apart (fkey s) q) (ct_fields (types_for category ! 0)) \<longrightarrow>
      get_path v q = None)"
  by (rule unknown_type_steps [OF assms(1-4,7,5,6)])

definition sample_otlp :: editor_doc where
  "sample_otlp = sample_doc\<lparr>receivers := [(''otlp/in'', JObject [(''endpoint'', JString ''0.0.0.0:4317'')])]\<rparr>"

lemma unknown_type_overwritten_witness:
  "\<exists>v app'. run_keys plain_ui sample_yaml [(sample_world, key KEnter), (sample_world, key KEnter)]
      (app_new ''c.yaml'' sample_otlp, sample_disk) = (Inr app', sample_disk) \<and>
    receivers (doc app') = [(''otlp/in'', v)] \<and> get_path v ''endpoint'' = None"
proof -
  have "app_ok (app_new ''c.yaml'' sample_otlp)" by code_simp
  moreover have "nth_opt (ids_for_tab sample_otlp Receivers) 0 = Some ''otlp/in''"
    and "type_spec Receiver (component_type ''otlp/in'') = None"
    and "list_all (\<lambda>s. paths_apart (fkey s) ''endpoint'') (ct_fields (types_for Receiver ! 0))"
    by code_simp+
  ultimately obtain v app' where
    "run_keys plain_ui sample_yaml [(sample_world, key KEnter), (sample_world, key KEnter)]
      (app_new ''c.yaml'' sample_otlp, sample_disk) = (Inr app', sample_disk)"
    "doc app' = with_map_for Receiver (\<lambda>m. map_insert m ''otlp/in'' v) sample_otlp"
    "get_path v ''endpoint'' = None"
    using unknown_type_overwritten [of "app_new ''c.yaml'' sample_otlp" Receivers 0 Receiver "''otlp/in''"
        plain_ui sample_yaml sample_world sample_disk]
    by (fastforce simp: app_new_def screen_default_def)
  then show ?thesis by (auto simp: sample_otlp_def sample_doc_def map_insert_def)
qed

text \<open>
  C30. Whatever the keys did, the copy given to the validator contains no variable reference at any
  depth, so that validation needs no secret, and is otherwise the very document that would be
  written: it has its keys, in its order, and its values, differs in the text of strings only,
  and is its own copy.
\<close>

theorem validated_copy_of_session:
  assumes "yaml_maps_ok y" and "editor_run ui y fault ks path d = Inr (Inr app, d')"
  shows "let v = doc_to_value (doc app); copy = placeholder_for_validation v in
    all_strings (\<lambda>s. \<not> str_contains ''${'' s) copy \<and> same_shape v copy \<and>
    placeholder_for_validation copy = copy"
  using editor_run_kd [OF assms] placeholder_copy [of "doc_to_value (doc app)"] by (simp add: doc_kd_def Let_def)

lemma validated_copy_of_session_witness:
  "same_shape (doc_to_value bare_doc) (placeholder_for_validation (doc_to_value bare_doc))"
proof -
  obtain app d' where run:
    "editor_run plain_ui plain_yaml None bare_keys ''c.yaml'' plain_disk = Inr (Inr app, d')"
    and saved: "doc app = bare_doc"
    using bare_run by blast
  from validated_copy_of_session [OF plain_yaml_maps run] saved show ?thesis by (simp add: Let_def)
qed

section \<open>What is drawn\<close>

text \<open>
  C31. The highlighted entry is the one a key acts on: on a tab with entries exactly one is drawn
  reversed, and Enter opens the form of that very id.
\<close>

theorem highlighted_entry_opens:
  assumes "app_ok app" and "screen app = TopLevel tab selected"
    and "ids_for_tab (doc app) tab \<noteq> []" and "\<not> show_help app"
    and "on_key ui y w (key KEnter) (app, d) = (Inr app', d')"
  shows "\<exists>a b c items cid. draw_screen ui y app = Some [a, b, c, Items items] \<and>
    filter (\<lambda>s. snd s = Reversed) items = [(cid, Reversed)] \<and> screen_id (screen app') = Some cid"
proof -
  from highlighted_entry [OF assms(1-3)] obtain a b c items cid where
    drawn: "draw_screen ui y app = Some [a, b, c, Items items]"
    "filter (\<lambda>s. snd s = Reversed) items = [(cid, Reversed)]"
    and sel: "nth_opt (ids_for_tab (doc app) tab) selected = Some cid" by blast
  from open_selected_id [OF assms(1,2) sel, of ui] obtain scr' where
    opened: "open_selected ui app tab selected = Some (app, scr')" and id: "screen_id scr' = Some cid"
    by blast
  have "screen app' = scr'"
    using assms(4,5) opened
    by (auto simp: on_key_def assms(2) handle_key_def handle_top_level_def top_level_key_def
        open_selected_def Let_def bind_eq_Some_conv split: option.splits)
  with drawn id show ?thesis by blast
qed

lemma highlighted_entry_opens_witness:
  "\<exists>app'. on_key plain_ui sample_yaml sample_world (key KEnter)
      (sample_app (TopLevel Pipelines 0), sample_disk) = (Inr app', sample_disk) \<and>
    screen_id (screen app') = Some ''logs''"
proof -
  let ?app = "sample_app (TopLevel Pipelines 0)"
  have ids: "ids_for_tab sample_doc Pipelines = [''logs'']" by code_simp
  have ok: "app_ok ?app" by (rule sample_app_ok) (simp add: ids)
  have some: "ids_for_tab (doc ?app) Pipelines \<noteq> []" by (simp add: ids)
  obtain v where v: "map_get (pipelines sample_doc) ''logs'' = Some v"
    by (simp add: sample_doc_def map_get_def)
  obtain form where "form_new plain_ui None False PIPELINE_FIELDS v = Some form"
    using pipeline_form_new by blast
  with v have run: "on_key plain_ui sample_yaml sample_world (key KEnter) (?app, sample_disk) =
      (Inr (sample_app (EditPipeline ''logs'' form)), sample_disk)"
    by (simp add: on_key_def handle_key_def handle_top_level_def top_level_key_def open_selected_def ids)
  have drawn: "draw_screen plain_ui sample_yaml ?app = Some (draw_top_level ?app Pipelines 0)"
    by (simp add: draw_screen_def)
  have items: "mark_selected 0 [''logs''] = [(''logs'', Reversed)]" by (simp add: mark_selected_def)
  from highlighted_entry_opens [OF ok sample_app_sel(2) some _ run] run show ?thesis
    by (auto simp: drawn draw_top_level_def ids_agree ids items Let_def)
qed

section \<open>Counters and the dashboard\<close>

text \<open>
  C32. An exporter's counters count: whatever the interleaving of its tasks' atomic steps, they
  end as the sum of the batch lengths and the numbers of sent, failed and retried batches of all
  tasks, modulo \<open>2^64\<close>; and below that, exactly.
\<close>

theorem exporter_counts_all_batches:
  assumes "interleaving (map (task_steps a) jobs) steps"
  shows "e_events_in (e_cells (exec_all steps heap_new) a) = sum_list (map batch_len (concat jobs)) \<and>
    e_batches_sent (e_cells (exec_all steps heap_new) a) = count_of is_sent (concat jobs) \<and>
    e_batches_failed (e_cells (exec_all steps heap_new) a) = count_of is_unsent (concat jobs) \<and>
    e_retries (e_cells (exec_all steps heap_new) a) = count_of is_retried (concat jobs) \<and>
    (sum_list (map (unat \<circ> batch_len) (concat jobs)) < 2 ^ 64 \<longrightarrow>
      unat (e_events_in (e_cells (exec_all steps heap_new) a)) =
        sum_list (map (unat \<circ> batch_len) (concat jobs)))"
  using exporter_counts [OF assms] exporter_events_exact [OF assms] by blast

definition sample_jobs :: "nat batch list list" where
  "sample_jobs = [[Sent 5], [Unsent 7 ''timeout'' 1]]"

definition sample_steps :: "nat atomic list" where
  "sample_steps = [Add EEventsIn 0 7, Add EEventsIn 0 5, Add EBatchesFailed 0 1, Add EBatchesSent 0 1,
     SetError 0 \<lparr>message = ''timeout'', at = 1\<rparr>]"

lemma sample_interleaving: "interleaving (map (task_steps 0) sample_jobs) sample_steps"
proof -
  have tasks: "map (task_steps 0) sample_jobs =
      [[Add EEventsIn 0 5, Add EBatchesSent 0 1],
       [Add EEventsIn 0 7, Add EBatchesFailed 0 1, SetError 0 \<lparr>message = ''timeout'', at = 1\<rparr>]]"
    by (simp add: sample_jobs_def task_steps_def record_success_def record_failure_def counter_inc_def)
  show ?thesis
    unfolding tasks sample_steps_def
    by (rule interleaving.turn [where i = 1], simp, simp, simp,
        rule interleaving.turn [where i = 0], simp, simp, simp,
        rule interleaving.turn [where i = 1], simp, simp, simp,
        rule interleaving.turn [where i = 0], simp, simp, simp,
        rule interleaving.turn [where i = 1], simp, simp, simp, rule interleaving.finished, simp)
qed

lemma exporter_counts_all_batches_witness:
  "unat (e_events_in (e_cells (exec_all sample_steps heap_new) 0)) = 12 \<and>
   e_batches_sent (e_cells (exec_all sample_steps heap_new) 0) = 1"
  using exporter_counts_all_batches [OF sample_interleaving]
  by (simp add: sample_jobs_def count_of_def is_sent_def)

text \<open>
  C33. No failure goes unnoticed: after any interleaving, an exporter shows an error exactly when
  some task failed to send a batch, and the error shown is that of one such batch.
\<close>

theorem last_error_shown:
  assumes "interleaving (map (task_steps a) jobs) steps"
  shows "(e_last_error (e_cells (exec_all steps heap_new) a) = None \<longleftrightarrow>
      list_all (\<lambda>b. \<not> is_unsent b) (concat jobs)) \<and>
    (\<forall>e. e_last_error (e_cells (exec_all steps heap_new) a) = Some e \<longrightarrow>
      (\<exists>n. Unsent n (message e) (at e) \<in> set (concat jobs)))"
  using last_error_of_jobs [OF assms] by blast

lemma last_error_shown_witness:
  "\<exists>e. e_last_error (e_cells (exec_all sample_steps heap_new) 0) = Some e \<and> message e = ''timeout''"
  using last_error_shown [OF sample_interleaving]
  by (auto simp: sample_jobs_def is_unsent_def)

text \<open>
  C34. Registered names share their cell and nothing else: every lookup of a registered exporter
  yields the same cell without a new one, different names have different cells, and what is
  counted on a handle for an unregistered receiver shows in no snapshot.
\<close>

theorem handles_shared_by_name:
  assumes "metrics_new rs ps es now h = (m, h')" and "n \<in> set es" and "k \<in> set es"
    and "u \<notin> set rs" and "receiver_handle m u h' = (c, h'')" and "list_all (\<lambda>s. step_cell s = c) steps"
  shows "(\<exists>a b. exporter_handle m n g = (a, g) \<and> exporter_handle m k g = (b, g) \<and> (a = b \<longleftrightarrow> n = k)) \<and>
    snapshot sec later m (exec_all steps h'') = snapshot sec later m h'"
proof
  note ok = metrics_new_ok [OF assms(1)]
  from ok assms(2,3) obtain a b where "m_exporters m n = Some a" "m_exporters m k = Some b" by blast
  moreover have "own_cells (m_exporters m)" using ok by (simp add: metrics_ok_def)
  ultimately show "\<exists>a b. exporter_handle m n g = (a, g) \<and> exporter_handle m k g = (b, g) \<and> (a = b \<longleftrightarrow> n = k)"
    by (auto simp: exporter_handle_def handle_of_registered own_cells_def)
  have none: "m_receivers m u = None" using ok assms(4) by blast
  from ok have "metrics_ok m h'" by blast
  from unregistered_invisible [OF this none assms(5,6)]
  show "snapshot sec later m (exec_all steps h'') = snapshot sec later m h'" .
qed

lemma handles_shared_by_name_witness:
  "\<exists>a b. exporter_handle (fst (metrics_new [] [] [''hec'', ''debug''] (0::nat) heap_new)) ''hec'' heap_new = (a, heap_new) \<and>
     exporter_handle (fst (metrics_new [] [] [''hec'', ''debug''] (0::nat) heap_new)) ''debug'' heap_new = (b, heap_new) \<and> a \<noteq> b"
proof -
  obtain m h' where new: "metrics_new [] [] [''hec'', ''debug''] (0::nat) heap_new = (m, h')" by force
  obtain c h'' where handle: "receiver_handle m ''x'' h' = (c, h'')" by force
  have mem: "''hec'' \<in> set [''hec'', ''debug'']" "''debug'' \<in> set [''hec'', ''debug'']"
    "''x'' \<notin> set ([] :: string list)" "list_all (\<lambda>s. step_cell s = c) []"
    by simp_all
  from handles_shared_by_name [OF new mem(1,2,3) handle mem(4), of heap_new]
  have "\<exists>a b. exporter_handle m ''hec'' heap_new = (a, heap_new) \<and>
      exporter_handle m ''debug'' heap_new = (b, heap_new) \<and> (a = b \<longleftrightarrow> ''hec'' = ''debug'')" by blast
  then show ?thesis by (simp add: new)
qed

text \<open>
  C35. A snapshot needs no lock: taken while tasks run, it shows for each registered exporter, field
  by field, the value of some moment of the run, later fields at later moments (so a batch may be
  counted as sent whose events are not shown yet); with nothing running it is the state itself.
\<close>

theorem running_snapshot:
  assumes "snapshot_running sec later (started_at m) rs ps es (gs, h) = (snap, st')"
    and "m_receivers m = map_of rs" and "m_pipelines m = map_of ps" and "m_exporters m = map_of es"
    and "s_exporters snap n = Some x"
  shows "(\<exists>a k1 k2 k3 k4 k5. m_exporters m n = Some a \<and> k1 \<le> k2 \<and> k2 \<le> k3 \<and> k3 \<le> k4 \<and> k4 \<le> k5 \<and>
      e_events_in x = get_counter EEventsIn a (exec_all (take k1 (concat gs)) h) \<and>
      e_batches_sent x = get_counter EBatchesSent a (exec_all (take k2 (concat gs)) h) \<and>
      e_batches_failed x = get_counter EBatchesFailed a (exec_all (take k3 (concat gs)) h) \<and>
      e_retries x = get_counter ERetries a (exec_all (take k4 (concat gs)) h) \<and>
      e_last_error x = e_last_error (e_cells (exec_all (take k5 (concat gs)) h) a)) \<and>
    (gs = [] \<longrightarrow> snap = snapshot sec later m h)"
  using snapshot_running_exporter [OF assms(1,5)] snapshot_quiet [OF assms(2-4), of sec later h] assms(1,4)
  by auto

definition sample_metrics :: "nat metrics" where
  "sample_metrics = \<lparr>m_receivers = map_of [], m_pipelines = map_of [], m_exporters = map_of [(''hec'', 0)], started_at = 3\<rparr>"

lemma running_snapshot_witness:
  "\<exists>k1 k2. k1 \<le> k2 \<and>
    0 = get_counter EEventsIn 0 (exec_all (take k1 (record_success 0 5)) (heap_new :: nat heap)) \<and>
    1 = get_counter EBatchesSent 0 (exec_all (take k2 (record_success 0 5)) (heap_new :: nat heap))"
proof -
  let ?gs = "[[], record_success 0 5]"
  let ?x = "\<lparr>e_events_in = 0, e_batches_sent = 1, e_batches_failed = 0, e_retries = 0, e_last_error = None\<rparr>"
  have run: "\<exists>snap st'. snapshot_running (\<lambda>_ _. 0) 9 (started_at sample_metrics) [] [] [(''hec'', 0)] (?gs, heap_new) =
      (snap, st') \<and> s_exporters snap ''hec'' = Some ?x"
    by (simp add: snapshot_running_def exporter_read_def load_counter_def load_error_def Let_def
        record_success_def counter_inc_def heap_new_def exporter_default_def upd_e_def)
  then obtain snap st' where run: "snapshot_running (\<lambda>_ _. 0) 9 (started_at sample_metrics) [] [] [(''hec'', 0)]
      (?gs, heap_new) = (snap, st')" "s_exporters snap ''hec'' = Some ?x" by blast
  have maps: "m_receivers sample_metrics = map_of []" "m_pipelines sample_metrics = map_of []"
    "m_exporters sample_metrics = map_of [(''hec'', 0)]"
    by (simp_all add: sample_metrics_def)
  from running_snapshot [OF run(1) maps run(2)] maps show ?thesis by auto
qed

text \<open>
  C36. The dashboard keeps showing the last good snapshot: after any turns without a quit, it is
  that of the last poll that succeeded, and an error is shown exactly when the last poll failed.
\<close>

theorem dashboard_shows_last_good:
  assumes "\<not> quitting app" and "list_all (\<lambda>t. \<not> quits (snd t)) turns"
  shows "\<exists>app'. dashboard_run turns app = Inr app' \<and>
    last_snapshot app' = (case last_good (polls (status_addr app) turns) of
        None \<Rightarrow> last_snapshot app | Some s \<Rightarrow> Some s) \<and>
    poll_error app' = (if polls (status_addr app) turns = [] then poll_error app
      else (case last (polls (status_addr app) turns) of Inl e \<Rightarrow> Some e | Inr _ \<Rightarrow> None))"
  by (rule dashboard_run_shown [OF assms])

definition sample_received :: "nat received" where
  "sample_received = \<lparr>rc_started_at = 0, rc_uptime_seconds = 19, rc_receivers = [], rc_pipelines = [],
     rc_exporters = []\<rparr>"

lemma dashboard_shows_last_good_witness:
  "\<exists>app'. dashboard_run
      [(1::nat, Tick (\<lambda>_. Inr \<lparr>status_success = True, status_text = ''200 OK'', body = Inr sample_received\<rparr>)),
       (2, Tick (\<lambda>_. Inl ''refused''))] (dashboard_new ''127.0.0.1:7801'') = Inr app' \<and>
    last_snapshot app' = Some sample_received \<and> poll_error app' = Some ''connection failed: refused''"
proof -
  let ?turns = "[(1::nat, Tick (\<lambda>_. Inr \<lparr>status_success = True, status_text = ''200 OK'', body = Inr sample_received\<rparr>)),
    (2, Tick (\<lambda>_. Inl ''refused''))]"
  have "\<not> quitting (dashboard_new ''127.0.0.1:7801'')" by (simp add: dashboard_new_def)
  moreover have "list_all (\<lambda>t. \<not> quits (snd t)) ?turns" by (simp add: quits_def)
  moreover have "polls addr ?turns = [Inr sample_received, Inl ''connection failed: refused'']" for addr
    by (simp add: fetch_status_def)
  ultimately show ?thesis
    using dashboard_shows_last_good [of "dashboard_new ''127.0.0.1:7801''" ?turns] by simp
qed

text \<open>
  C37. The tables of the dashboard are complete: drawing never panics, every name of a received
  snapshot is listed exactly once and in order, and its row holds its own numbers.
\<close>

theorem dashboard_tables_complete:
  assumes "distinct (map fst (rc_exporters snap))"
  shows "(\<exists>v. draw_dashboard show_u64 app = Some v) \<and>
    (\<exists>rows. exporter_rows show_u64 snap = Some rows \<and> map hd rows = sort (map fst (rc_exporters snap)) \<and>
      (\<forall>n e. (n, e) \<in> set (rc_exporters snap) \<longrightarrow>
        [n, show_u64 (e_batches_sent e), show_u64 (e_retries e), show_u64 (e_batches_failed e),
          (case e_last_error e of Some le \<Rightarrow> message le | None \<Rightarrow> [])] \<in> set rows))"
proof -
  obtain rows where rows: "exporter_rows show_u64 snap = Some rows"
    unfolding exporter_rows_def using rows_of_total by blast
  note shown = rows [unfolded exporter_rows_def]
  show ?thesis
    using draw_dashboard_total rows rows_of_names [OF shown] rows_of_member [OF assms shown] by blast
qed

lemma dashboard_tables_complete_witness:
  "\<exists>rows. exporter_rows (\<lambda>_. ''0'') (sample_received\<lparr>rc_exporters :=
      [(''hec'', exporter_default), (''debug'', exporter_default)]\<rparr>) = Some rows \<and>
    map hd rows = [''debug'', ''hec'']"
proof -
  let ?snap = "sample_received\<lparr>rc_exporters := [(''hec'', exporter_default), (''debug'', exporter_default)]\<rparr>"
  have "distinct (map fst (rc_exporters ?snap))" by simp
  moreover have "sort [''hec'', ''debug''] = [''debug'', ''hec'']" by code_simp
  ultimately show ?thesis
    using dashboard_tables_complete [of ?snap "\<lambda>_. ''0''"] by fastforce
qed

section \<open>Keys from the first to the last\<close>

text \<open>
  C38. Every registered type can be added: on its tab, \<open>a\<close>, Down to the type, Enter, a new id and
  Enter twice store a component under that id with every required field of the type at its
  default or placeholder, and change nothing else.
\<close>

theorem add_component_flow:
  assumes "typing_laws ui" and "\<not> show_help app" and "\<not> should_quit app"
    and "screen app = TopLevel (tab_for category) selected"
    and "nth_opt (types_for category) i = Some spec"
    and "list_all printable cid" and "cid \<noteq> []" and "trim cid = cid"
    and "map_get (map_for category (doc app)) cid = None"
  shows "\<exists>v app'. run_keys ui y (press w (add_keys i cid @ [KEnter])) (app, d) = (Inr app', d) \<and>
    dirty app' \<and> doc app' = with_map_for category (\<lambda>m. map_insert m cid v) (doc app) \<and>
    (\<forall>f \<in> set (ct_fields spec). frequired f \<longrightarrow> get_path v (fkey f) = Some (minimal_field f))"
proof -
  have "ready app" using assms(2,3) by (simp add: ready_def)
  from component_added [OF assms(1) this assms(4-9), of y w d] show ?thesis
    unfolding leads_def by (metis stored_simps(3,4))
qed

lemma add_component_flow_witness:
  "\<exists>v app'. run_keys plain_ui sample_yaml (press sample_world (add_keys 1 ''file_log/app'' @ [KEnter]))
     (sample_app (TopLevel Receivers 0), sample_disk) = (Inr app', sample_disk) \<and>
   map_get (receivers (doc app')) ''file_log/app'' = Some v \<and>
   get_path v ''include'' = Some (JArray [JString ''placeholder''])"
proof -
  have types: "nth_opt (types_for Receiver) 1 = Some (RECEIVER_TYPES ! 1)"
    by (simp add: nth_opt_def types_for.simps RECEIVER_TYPES_def)
  have id: "list_all printable ''file_log/app''" "''file_log/app'' \<noteq> []" "trim ''file_log/app'' = ''file_log/app''"
    and free: "map_get (map_for Receiver sample_doc) ''file_log/app'' = None"
    by code_simp+
  have field: "hd FILE_LOG_FIELDS \<in> set (ct_fields (RECEIVER_TYPES ! 1))" "frequired (hd FILE_LOG_FIELDS)"
    "fkey (hd FILE_LOG_FIELDS) = ''include''" "minimal_field (hd FILE_LOG_FIELDS) = JArray [JString ''placeholder'']"
    by (simp_all add: RECEIVER_TYPES_def FILE_LOG_FIELDS_def fspec_def minimal_field_def)
  from add_component_flow [OF plain_ui_typing _ _ _ types id, of "sample_app (TopLevel Receivers 0)" 0
      sample_yaml sample_world sample_disk] free
  obtain v app' where run: "run_keys plain_ui sample_yaml (press sample_world (add_keys 1 ''file_log/app'' @ [KEnter]))
      (sample_app (TopLevel Receivers 0), sample_disk) = (Inr app', sample_disk)"
    and doc: "doc app' = with_map_for Receiver (\<lambda>m. map_insert m ''file_log/app'' v) sample_doc"
    and req: "\<forall>f \<in> set (ct_fields (RECEIVER_TYPES ! 1)). frequired f \<longrightarrow> get_path v (fkey f) = Some (minimal_field f)"
    by (auto simp: sample_app_def app_new_def)
  from req field have "get_path v ''include'' = Some (JArray [JString ''placeholder''])" by metis
  with run show ?thesis by (auto simp: doc map_get_insert)
qed

text \<open>
  C39. The walkthrough of \<open>README.md\<close>, followed to the letter from a file that does not exist: the
  file is written, holds the printed form of a receiver, an exporter and the pipeline between
  them, and the editor quits with nothing unsaved. But the path typed into \<open>include\<close> goes behind
  the text \<open>placeholder\<close> the form opens with, so the receiver watches no such file.
\<close>

theorem readme_walkthrough:
  assumes "typing_laws ui" and "list_all printable p" and "plain_item (''placeholder'' @ p)"
    and "names d (components path) = None" and "\<not> is_dir d (components path)"
    and "disk_ok d (tmp_of (components path)) (components path)" and "writable d (components path)"
    and "file_name (components path) \<noteq> None" and "world_faults w = (\<lambda>_. NoFault)"
    and "accepted (world_os w) y (otelcol_binary_path (world_os w) d) (walkthrough_doc p)"
    and "yaml_print y (doc_to_value (walkthrough_doc p)) = Inr contents"
  shows "\<exists>app' d'. editor_run ui y None (press w (walkthrough_keys p)) path d = Inr (Inr app', d') \<and>
    should_quit app' \<and> \<not> dirty app' \<and> read_disk d' (components path) = Some contents \<and>
    doc app' = walkthrough_doc p \<and>
    Option.bind (map_get (receivers (doc app')) ''file_log/test'') (\<lambda>v. get_path v ''include'') =
      Some (JArray [JString (''placeholder'' @ p)])"
proof -
  have "split_on (CHR ''.'') ''include'' = [''include'']" by code_simp
  then have "Option.bind (map_get (receivers (walkthrough_doc p)) ''file_log/test'') (\<lambda>v. get_path v ''include'') =
      Some (JArray [JString (''placeholder'' @ p)])"
    by (simp add: walkthrough_doc_def map_get_def get_path_def json_get_def)
  with walkthrough_saved [OF assms] show ?thesis by fastforce
qed

lemma readme_walkthrough_witness:
  "\<exists>app' d'. editor_run plain_ui sample_printer None (press sample_world (walkthrough_keys ''/var/log/syslog''))
      ''test.yaml'' sample_disk = Inr (Inr app', d') \<and> should_quit app' \<and>
    read_disk d' (components ''test.yaml'') = Some ''text''"
proof -
  have p: "list_all printable ''/var/log/syslog''" "plain_item (''placeholder'' @ ''/var/log/syslog'')"
    by code_simp+
  have "file_name (components ''test.yaml'') \<noteq> None" "world_faults sample_world = (\<lambda>_. NoFault)"
    "yaml_print sample_printer (doc_to_value (walkthrough_doc ''/var/log/syslog'')) = Inr ''text''"
    by (simp_all add: sample_new_path sample_world_def sample_printer_def)
  from readme_walkthrough [OF plain_ui_typing p sample_new_file this(1,2) _ this(3)] sample_printer_accepted
  show ?thesis by (metis (no_types, lifting) sample_world_def world.select_convs(1))
qed

text \<open>
  C40. A key acts again when it is let go: on a terminal that reports that, as those of Windows
  do, one press of Delete on the first of two pipelines removes both, for the editor looks at
  the code of a key only.
\<close>

theorem release_deletes_again:
  assumes "app_ok app" and "screen app = TopLevel Pipelines 0" and "\<not> show_help app"
    and "\<not> should_quit app" and "ids_for_tab (doc app) Pipelines = a # b # ids"
  shows "\<exists>app'. run_keys ui y [(w, key KDelete), (w, (key KDelete)\<lparr>kind := Release\<rparr>)] (app, d) = (Inr app', d) \<and>
    dirty app' \<and> ids_for_tab (doc app') Pipelines = ids"
  using let_go_deletes_again [OF assms(1) _ assms(2,5), of ui y w d] assms(3,4)
  by (simp add: ready_def let_go_def)

definition sample_two_pipelines :: editor_doc where
  "sample_two_pipelines = sample_doc\<lparr>pipelines := [(''logs/a'', JObject []), (''logs/b'', JObject [])]\<rparr>"

lemma release_deletes_again_witness:
  "\<exists>app'. run_keys plain_ui sample_yaml [(sample_world, key KDelete), (sample_world, (key KDelete)\<lparr>kind := Release\<rparr>)]
     ((app_new ''c.yaml'' sample_two_pipelines)\<lparr>screen := TopLevel Pipelines 0\<rparr>, sample_disk) = (Inr app', sample_disk) \<and>
   ids_for_tab (doc app') Pipelines = []"
proof -
  let ?app = "(app_new ''c.yaml'' sample_two_pipelines)\<lparr>screen := TopLevel Pipelines 0\<rparr> :: string app"
  have "app_ok ?app" and "ids_for_tab (doc ?app) Pipelines = [''logs/a'', ''logs/b'']" by code_simp+
  moreover have "screen ?app = TopLevel Pipelines 0" "\<not> show_help ?app" "\<not> should_quit ?app"
    by (simp_all add: app_new_def)
  ultimately show ?thesis
    using release_deletes_again [of ?app "''logs/a''" "''logs/b''" "[]" plain_ui sample_yaml sample_world sample_disk]
    by blast
qed

end
